theory Spec2Isabelle
  imports Main "HOL-Library.Multiset"
begin

section \<open>Values read from storage and from the network\<close>

text \<open>
  A number of the program is a double. The model keeps the integers (creation timestamps
  in milliseconds, byte sizes) and the two infinite values: \<open>JSON.parse\<close> returns
  \<open>Infinity\<close> or \<open>-Infinity\<close> for a literal too large for a double (\<open>1e999\<close>),
  \<open>typeof\<close> calls it a number like any other, and \<open>JSON.stringify\<close> writes it back as
  \<open>null\<close>. Fractions are left out, and so is NaN, which no JSON text parses to.
\<close>

datatype number = NegInf | Finite int | PosInf

fun is_finite :: "number \<Rightarrow> bool" where
  "is_finite (Finite n) = True"
| "is_finite _ = False"

text \<open>
  The order of the numbers and the unary minus. The comparator of a sort sees the
  difference of two numbers; that of two equal infinite values is NaN, which a sort takes
  for zero, as it takes the difference of two equal integers.
\<close>

instantiation number :: linorder
begin

definition less_eq_number :: "number \<Rightarrow> number \<Rightarrow> bool" where
  "less_eq_number a b =
     (case (a, b) of
        (NegInf, _) \<Rightarrow> True
      | (Finite m, NegInf) \<Rightarrow> False
      | (Finite m, Finite n) \<Rightarrow> m \<le> n
      | (Finite m, PosInf) \<Rightarrow> True
      | (PosInf, PosInf) \<Rightarrow> True
      | (PosInf, _) \<Rightarrow> False)"

definition less_number :: "number \<Rightarrow> number \<Rightarrow> bool" where
  "less_number a b = (a \<le> b \<and> \<not> b \<le> (a :: number))"

instance
proof
  fix x y z :: number
  show "(x < y) = (x \<le> y \<and> \<not> y \<le> x)"
    by (simp add: less_number_def)
  show "x \<le> x"
    by (cases x) (simp_all add: less_eq_number_def)
  show "x \<le> y \<Longrightarrow> y \<le> z \<Longrightarrow> x \<le> z"
    by (cases x; cases y; cases z) (simp_all add: less_eq_number_def)
  show "x \<le> y \<Longrightarrow> y \<le> x \<Longrightarrow> x = y"
    by (cases x; cases y) (simp_all add: less_eq_number_def)
  show "x \<le> y \<or> y \<le> x"
    by (cases x; cases y) (auto simp: less_eq_number_def)
qed

end

instantiation number :: uminus
begin

definition uminus_number :: "number \<Rightarrow> number" where
  "uminus_number a = (case a of NegInf \<Rightarrow> PosInf | Finite n \<Rightarrow> Finite (- n) | PosInf \<Rightarrow> NegInf)"

instance ..

end

text \<open>
  A parsed JSON value, and likewise a value of the same shape held in memory. An object
  is the list of its own properties in enumeration order; reading a property returns the
  first entry of that name, \<open>None\<close> standing for \<open>undefined\<close>.
\<close>

datatype json =
    JNull
  | JBool bool
  | JNum number
  | JStr string
  | JArr "json list"
  | JObj "(string \<times> json) list"

text \<open>\<open>v.name\<close> for a non-null value: only objects carry the field names the code reads.\<close>

fun field :: "json \<Rightarrow> string \<Rightarrow> json option" where
  "field (JObj kvs) k = map_of kvs k"
| "field _ k = None"

text \<open>\<open>v && typeof v === "object"\<close>: objects and arrays, never \<open>null\<close>.\<close>

fun is_object :: "json \<Rightarrow> bool" where
  "is_object (JObj kvs) = True"
| "is_object (JArr xs) = True"
| "is_object _ = False"

text \<open>\<open>typeof v === "string" ? v : undefined\<close>, and its analogues for numbers and booleans.\<close>

fun as_string :: "json option \<Rightarrow> string option" where
  "as_string (Some (JStr s)) = Some s"
| "as_string _ = None"

fun as_number :: "json option \<Rightarrow> number option" where
  "as_number (Some (JNum n)) = Some n"
| "as_number _ = None"

fun as_boolean :: "json option \<Rightarrow> bool option" where
  "as_boolean (Some (JBool b)) = Some b"
| "as_boolean _ = None"

text \<open>\<open>Array.isArray(v) ? v : undefined\<close>.\<close>

fun as_array :: "json option \<Rightarrow> json list option" where
  "as_array (Some (JArr xs)) = Some xs"
| "as_array _ = None"

text \<open>\<open>v ?? d\<close>: \<open>null\<close> and \<open>undefined\<close> give the default.\<close>

fun nullish_or :: "json option \<Rightarrow> json \<Rightarrow> json" where
  "nullish_or None d = d"
| "nullish_or (Some JNull) d = d"
| "nullish_or (Some v) d = v"

text \<open>
  The truth value of a value in a condition: \<open>null\<close>, \<open>false\<close>, zero and the empty string
  are falsy, every array and object is truthy.
\<close>

fun truthy :: "json \<Rightarrow> bool" where
  "truthy JNull = False"
| "truthy (JBool b) = b"
| "truthy (JNum n) = (n \<noteq> Finite 0)"
| "truthy (JStr s) = (s \<noteq> [])"
| "truthy (JArr xs) = True"
| "truthy (JObj kvs) = True"

text \<open>
  What \<open>JSON.parse(JSON.stringify(v))\<close> returns for a value of this shape: an infinite
  number has become \<open>null\<close>, everything else is as it was.
\<close>

primrec stringify :: "json \<Rightarrow> json" where
  "stringify JNull = JNull"
| "stringify (JBool b) = JBool b"
| "stringify (JNum n) = (if is_finite n then JNum n else JNull)"
| "stringify (JStr s) = JStr s"
| "stringify (JArr xs) = JArr (map stringify xs)"
| "stringify (JObj kvs) = JObj (map (map_prod (\<lambda>k. k) stringify) kvs)"

text \<open>A value with no infinite number in it.\<close>

primrec finite_json :: "json \<Rightarrow> bool" where
  "finite_json JNull = True"
| "finite_json (JBool b) = True"
| "finite_json (JNum n) = is_finite n"
| "finite_json (JStr s) = True"
| "finite_json (JArr xs) = list_all (\<lambda>b. b) (map finite_json xs)"
| "finite_json (JObj kvs) = list_all snd (map (map_prod (\<lambda>k. k) finite_json) kvs)"

text \<open>
  The names every object literal inherits from \<open>Object.prototype\<close>. Reading \<open>obj[key]\<close>
  on a plain object finds an own property first and one of these members otherwise; each
  of them is a function or an object, hence truthy.
\<close>

definition object_prototype_keys :: "string list" where
  "object_prototype_keys =
     [''constructor'', ''toString'', ''toLocaleString'', ''valueOf'', ''hasOwnProperty'',
      ''isPrototypeOf'', ''propertyIsEnumerable'', ''__proto__'', ''__defineGetter__'',
      ''__defineSetter__'', ''__lookupGetter__'', ''__lookupSetter__'']"

text \<open>
  \<open>obj[k]\<close> on an object literal, whose prototype is \<open>Object.prototype\<close>: the endpoint
  table of the request layer is one. (A job map can have another prototype; it is read by
  \<open>job_at\<close> below.)
\<close>

datatype 'a property = Own 'a | Inherited | Missing

definition get_property :: "(string \<times> 'a) list \<Rightarrow> string \<Rightarrow> 'a property" where
  "get_property obj k =
     (case map_of obj k of
        Some v \<Rightarrow> Own v
      | None \<Rightarrow> if k \<in> set object_prototype_keys then Inherited else Missing)"

text \<open>
  \<open>{...obj, [k]: v}\<close>: an existing own property keeps its place and takes the new value,
  a new one is added at the end. (JavaScript enumerates keys that look like array indices
  before the others; the lists built here keep the order of insertion, which matters
  nowhere but in the order of the job entries written to storage.)
\<close>

fun set_property :: "(string \<times> 'a) list \<Rightarrow> string \<Rightarrow> 'a \<Rightarrow> (string \<times> 'a) list" where
  "set_property [] k v = [(k, v)]"
| "set_property ((k', v') # kvs) k v =
     (if k' = k then (k, v) # kvs else (k', v') # set_property kvs k v)"

section \<open>The data model (types/chat.ts, chat-history-context.tsx)\<close>

text \<open>
  Field names carry a prefix for their record (\<open>a_\<close>, \<open>e_\<close>, \<open>j_\<close>, \<open>m_\<close>, \<open>s_\<close>), since the
  source reuses \<open>id\<close>, \<open>tool\<close>, \<open>model\<close>, \<open>status\<close> and others across its types. An optional
  field is an \<open>option\<close>, \<open>None\<close> being \<open>undefined\<close>. The fields the normalisation copies
  without a check (\<open>tool\<close>, \<open>statusHistory\<close>, \<open>attachments\<close> of a session, \<open>data\<close> of a
  message) hold raw values, and so does the \<open>model\<close> of a message, which the callbacks of
  the poller fill from a value they do not check. The size of an attachment is finite
  (\<open>Number.isFinite\<close> guards it); a timestamp is any number.
\<close>

record AttachmentMeta =
  a_name :: string
  a_size :: int

record JobStatusEntry =
  e_status :: string
  e_progress :: "string option"
  e_timestamp :: number

record SessionJob =
  j_id :: string
  j_tool :: json
  j_model :: string
  j_createdAt :: number
  j_status :: string
  j_progress :: "string option"
  j_history :: "JobStatusEntry list"
  j_videoUrl :: "string option"
  j_imageUrls :: "string list option"

datatype role = User | Assistant

datatype MessageStatus = Info | Success | Error

record ChatMessage =
  m_id :: string
  m_role :: role
  m_content :: string
  m_tool :: "json option"
  m_model :: "json option"
  m_attachments :: "AttachmentMeta list option"
  m_status :: "MessageStatus option"
  m_timestamp :: number
  m_videoUrl :: "string option"
  m_imageUrls :: "string list option"
  m_data :: "json option"
  m_jobId :: "string option"

text \<open>
  \<open>jobId?: string | null\<close> has three states; \<open>pinned?: boolean\<close> may be absent. The job
  map \<open>jobs\<close> is an object: \<open>s_jobs\<close> lists its own properties, and \<open>s_jobs_prototype\<close> is
  its prototype, \<open>None\<close> for \<open>Object.prototype\<close>, which every object literal and every
  spread has, and \<open>Some job\<close> for a map whose prototype \<open>normalizeJobs\<close> has replaced by a
  job (see there). A read \<open>jobs[k]\<close> that finds no own property goes on to the prototype.
\<close>

datatype 'a nullable = Absent | Null | Value 'a

record ChatSession =
  s_id :: string
  s_prompt :: string
  s_tool :: json
  s_model :: string
  s_createdAt :: number
  s_videoUrl :: "string option"
  s_statusHistory :: "json list"
  s_attachments :: "json list"
  s_messages :: "ChatMessage list"
  s_jobId :: "string nullable"
  s_jobs :: "(string \<times> SessionJob) list"
  s_jobs_prototype :: "SessionJob option"
  s_pinned :: "bool option"

text \<open>The provider's state: the session collection and the active-session pointer.\<close>

record store =
  sessions :: "ChatSession list"
  activeSessionId :: "string option"

section \<open>Normalisation on load (chat-history-context.tsx)\<close>

text \<open>
  What one call of \<open>normalizeSession\<close> reads from outside: the fresh identifiers
  (\<open>crypto.randomUUID\<close> and its fallbacks) and the clock (\<open>Date.now()\<close>, an integer), one
  value for each place that may ask (the session itself, its k-th message, its k-th job,
  the h-th history entry of the k-th job), and the two conversions of the language the
  code applies to values of unknown shape: \<open>String(v)\<close> for a value that is not a string,
  and \<open>Number(v)\<close> for a string, an array or an object (\<open>None\<close> when the result is not
  finite).
\<close>

record env =
  session_uuid :: string
  session_now :: int
  message_uuid :: "nat \<Rightarrow> string"
  message_now :: "nat \<Rightarrow> int"
  job_now :: "nat \<Rightarrow> int"
  entry_now :: "nat \<Rightarrow> nat \<Rightarrow> int"
  js_String :: "json \<Rightarrow> string"
  js_Number :: "json \<Rightarrow> int option"

datatype js_error = TypeError string | IllTypedJob string

text \<open>\<open>String(v)\<close>: a string is returned as it is.\<close>

fun String_of :: "(json \<Rightarrow> string) \<Rightarrow> json \<Rightarrow> string" where
  "String_of str (JStr s) = s"
| "String_of str v = str v"

text \<open>
  \<open>Number(v)\<close> with \<open>Number.isFinite\<close>: \<open>undefined\<close> is NaN, \<open>null\<close> and \<open>false\<close> are 0, an
  infinite number is not finite.
\<close>

fun finite_Number :: "(json \<Rightarrow> int option) \<Rightarrow> json option \<Rightarrow> int option" where
  "finite_Number num None = None"
| "finite_Number num (Some JNull) = Some 0"
| "finite_Number num (Some (JBool b)) = Some (if b then 1 else 0)"
| "finite_Number num (Some (JNum (Finite n))) = Some n"
| "finite_Number num (Some (JNum n)) = None"
| "finite_Number num (Some v) = num v"

text \<open>\<open>xs.filter((url) => typeof url === "string")\<close>.\<close>

definition strings_of :: "json list \<Rightarrow> string list" where
  "strings_of xs = List.map_filter (\<lambda>v. as_string (Some v)) xs"

definition normalizeAttachment :: "(json \<Rightarrow> int option) \<Rightarrow> json \<Rightarrow> AttachmentMeta option" where
  "normalizeAttachment num attachment =
     (if is_object attachment then
        (case as_string (field attachment ''name'') of
           Some name \<Rightarrow>
             Some \<lparr>a_name = name,
                   a_size = (case finite_Number num (field attachment ''size'') of
                               Some sizeValue \<Rightarrow> sizeValue | None \<Rightarrow> 0)\<rparr>
         | None \<Rightarrow> None)
      else None)"

definition normalizeAttachments :: "(json \<Rightarrow> int option) \<Rightarrow> json option \<Rightarrow> AttachmentMeta list" where
  "normalizeAttachments num attachments =
     (case as_array attachments of
        None \<Rightarrow> []
      | Some xs \<Rightarrow> List.map_filter (normalizeAttachment num) xs)"

definition normalizeMessage ::
  "string \<Rightarrow> int \<Rightarrow> (json \<Rightarrow> int option) \<Rightarrow> json \<Rightarrow> ChatMessage option" where
  "normalizeMessage uuid now num message =
     (if \<not> is_object message then None
      else Some
        \<lparr>m_id = (case as_string (field message ''id'') of Some s \<Rightarrow> s | None \<Rightarrow> uuid),
         m_role = (if field message ''role'' = Some (JStr ''assistant'') then Assistant else User),
         m_content = (case as_string (field message ''content'') of Some s \<Rightarrow> s | None \<Rightarrow> []),
         m_tool = (case field message ''tool'' of
                     None \<Rightarrow> None | Some JNull \<Rightarrow> None | Some v \<Rightarrow> Some v),
         m_model = map_option JStr (as_string (field message ''model'')),
         m_attachments = Some (normalizeAttachments num (field message ''attachments'')),
         m_status =
           (if field message ''status'' = Some (JStr ''success'') then Some Success
            else if field message ''status'' = Some (JStr ''error'') then Some Error
            else if field message ''status'' = Some (JStr ''info'') then Some Info
            else None),
         m_timestamp = (case as_number (field message ''timestamp'') of
                          Some n \<Rightarrow> n | None \<Rightarrow> Finite now),
         m_videoUrl = as_string (field message ''videoUrl''),
         m_imageUrls = map_option strings_of (as_array (field message ''imageUrls'')),
         m_data = field message ''data'',
         m_jobId = as_string (field message ''jobId'')\<rparr>)"

definition normalizeEntry :: "int \<Rightarrow> json \<Rightarrow> JobStatusEntry option" where
  "normalizeEntry now entry =
     (if \<not> is_object entry then None
      else Some
        \<lparr>e_status = (case as_string (field entry ''status'') of Some s \<Rightarrow> s | None \<Rightarrow> ''QUEUED''),
         e_progress = as_string (field entry ''progress''),
         e_timestamp = (case as_number (field entry ''timestamp'') of
                          Some n \<Rightarrow> n | None \<Rightarrow> Finite now)\<rparr>)"

definition normalizeJobHistory :: "(nat \<Rightarrow> int) \<Rightarrow> json option \<Rightarrow> JobStatusEntry list" where
  "normalizeJobHistory now history =
     (case as_array history of
        None \<Rightarrow> []
      | Some xs \<Rightarrow> List.map_filter (\<lambda>(h, entry). normalizeEntry (now h) entry) (enumerate 0 xs))"

text \<open>
  The entries \<open>normalizeJobs\<close> folds over: for an array, the pair \<open>[job.id, job]\<close> of every
  element that is an object with an \<open>id\<close> property; for any other object, its own
  properties.
\<close>

fun job_entries :: "json \<Rightarrow> (json \<times> json) list" where
  "job_entries (JArr xs) =
     List.map_filter
       (\<lambda>job. if is_object job then map_option (\<lambda>i. (i, job)) (field job ''id'') else None) xs"
| "job_entries (JObj kvs) = map (\<lambda>(k, v). (JStr k, v)) kvs"
| "job_entries _ = []"

definition normalizeJob :: "env \<Rightarrow> nat \<Rightarrow> json \<Rightarrow> json \<Rightarrow> SessionJob" where
  "normalizeJob e k jobId payload =
     \<lparr>j_id = (case as_string (field payload ''id'') of
                Some s \<Rightarrow> s | None \<Rightarrow> String_of (js_String e) jobId),
      j_tool = nullish_or (field payload ''tool'') (JStr ''video''),
      j_model = (case as_string (field payload ''model'') of
                   Some s \<Rightarrow> s | None \<Rightarrow> ''aws-nova-reel''),
      j_createdAt = (case as_number (field payload ''createdAt'') of
                       Some n \<Rightarrow> n | None \<Rightarrow> Finite (job_now e k)),
      j_status = (case as_string (field payload ''status'') of Some s \<Rightarrow> s | None \<Rightarrow> ''QUEUED''),
      j_progress = as_string (field payload ''progress''),
      j_history = normalizeJobHistory (entry_now e k) (field payload ''history''),
      j_videoUrl = as_string (field payload ''videoUrl''),
      j_imageUrls = map_option strings_of (as_array (field payload ''imageUrls''))\<rparr>"

text \<open>
  One step of the \<open>reduce\<close>: \<open>acc[id] = {...}\<close>, on the accumulator's own properties and
  its prototype. The assignment goes through the prototype chain. For the key \<open>__proto__\<close>
  it finds the accessor of \<open>Object.prototype\<close> and runs its setter: no own property is
  created, and the job becomes the accumulator's prototype (the accessor stays in reach
  behind the job, so a later job of that identifier replaces the prototype again). For
  every other key it creates or overwrites an own property.
\<close>

definition normalizeJobs_step ::
  "env \<Rightarrow> nat \<times> json \<times> json \<Rightarrow> (string \<times> SessionJob) list \<times> SessionJob option
   \<Rightarrow> (string \<times> SessionJob) list \<times> SessionJob option" where
  "normalizeJobs_step e = (\<lambda>(k, jobId, jobValue) (acc, prototype).
     if \<not> is_object jobValue then (acc, prototype)
     else if j_id (normalizeJob e k jobId jobValue) = ''__proto__''
     then (acc, Some (normalizeJob e k jobId jobValue))
     else (set_property acc (j_id (normalizeJob e k jobId jobValue)) (normalizeJob e k jobId jobValue),
           prototype))"

definition normalizeJobs ::
  "env \<Rightarrow> json option \<Rightarrow> (string \<times> SessionJob) list \<times> SessionJob option" where
  "normalizeJobs e jobs =
     (case jobs of
        None \<Rightarrow> ([], None)
      | Some v \<Rightarrow>
          if \<not> is_object v then ([], None)
          else fold (normalizeJobs_step e) (enumerate 0 (job_entries v)) ([], None))"

text \<open>
  \<open>normalizeSession\<close> reads \<open>session.messages\<close> first: on \<open>null\<close> that read throws, on any
  other value it yields a session.
\<close>

definition normalizeSession :: "env \<Rightarrow> json \<Rightarrow> js_error + ChatSession" where
  "normalizeSession e session =
     (if session = JNull then Inl (TypeError ''Cannot read properties of null'')
      else Inr
        \<lparr>s_id = (case field session ''id'' of
                   None \<Rightarrow> session_uuid e
                 | Some JNull \<Rightarrow> session_uuid e
                 | Some v \<Rightarrow> String_of (js_String e) v),
         s_prompt = (case as_string (field session ''prompt'') of
                       Some s \<Rightarrow> s
                     | None \<Rightarrow> (case as_string (field session ''script'') of
                                  Some s \<Rightarrow> s | None \<Rightarrow> [])),
         s_tool = nullish_or (field session ''tool'') (JStr ''video''),
         s_model = (case as_string (field session ''model'') of
                      Some s \<Rightarrow> s
                    | None \<Rightarrow> (case as_string (field session ''style'') of
                                 Some s \<Rightarrow> s | None \<Rightarrow> ''aws-nova-reel'')),
         s_createdAt = (case as_number (field session ''createdAt'') of
                          Some n \<Rightarrow> n | None \<Rightarrow> Finite (session_now e)),
         s_videoUrl = as_string (field session ''videoUrl''),
         s_statusHistory = (case as_array (field session ''statusHistory'') of
                              Some xs \<Rightarrow> xs | None \<Rightarrow> []),
         s_attachments = (case as_array (field session ''attachments'') of
                            Some xs \<Rightarrow> xs | None \<Rightarrow> []),
         s_messages =
           List.map_filter
             (\<lambda>(k, message). normalizeMessage (message_uuid e k) (message_now e k) (js_Number e) message)
             (enumerate 0 (case as_array (field session ''messages'') of
                             Some xs \<Rightarrow> xs | None \<Rightarrow> [])),
         s_jobId = (case as_string (field session ''jobId'') of Some s \<Rightarrow> Value s | None \<Rightarrow> Null),
         s_jobs = fst (normalizeJobs e (field session ''jobs'')),
         s_jobs_prototype = snd (normalizeJobs e (field session ''jobs'')),
         s_pinned = Some (case as_boolean (field session ''pinned'') of
                            Some b \<Rightarrow> b | None \<Rightarrow> False)\<rparr>)"

text \<open>\<open>parsed.map(normalizeSession)\<close>: the first throw aborts the whole map.\<close>

fun normalizeAll :: "(nat \<Rightarrow> env) \<Rightarrow> nat \<Rightarrow> json list \<Rightarrow> js_error + ChatSession list" where
  "normalizeAll envs n [] = Inr []"
| "normalizeAll envs n (x # xs) =
     (case normalizeSession (envs n) x of
        Inl err \<Rightarrow> Inl err
      | Inr s \<Rightarrow> (case normalizeAll envs (Suc n) xs of
                   Inl err \<Rightarrow> Inl err
                 | Inr ss \<Rightarrow> Inr (s # ss)))"

text \<open>
  What \<open>readStorage\<close> finds: no \<open>window\<close>, no item (or an empty one), an item that does not
  parse, or a parsed value. \<open>Array.prototype.sort\<close> is stable, and so is \<open>sort_key\<close>; the
  comparator \<open>b.createdAt - a.createdAt\<close> orders by descending creation time. Every
  failure inside the \<open>try\<close> block ends in the empty list: a parse error, a parsed value
  that is not an array (it has no \<open>map\<close> method) and a \<open>null\<close> element.
\<close>

datatype storage_item = NoWindow | NoItem | Unparseable | Parsed json

fun readStorage :: "(nat \<Rightarrow> env) \<Rightarrow> storage_item \<Rightarrow> ChatSession list" where
  "readStorage envs (Parsed (JArr xs)) =
     (case normalizeAll envs 0 xs of
        Inl err \<Rightarrow> []
      | Inr ss \<Rightarrow> sort_key (\<lambda>s. - s_createdAt s) ss)"
| "readStorage envs _ = []"

subsection \<open>A session as a value, in memory and in storage\<close>

text \<open>
  The functions below give a record as the value the program holds in memory: an object
  with one property for each field that is not \<open>undefined\<close> (a field that is \<open>undefined\<close>
  reads as a missing one). Of a job map they give the own properties, which are all that
  \<open>Object.entries\<close> and \<open>JSON.stringify\<close> see of it.
\<close>

definition opt_field :: "string \<Rightarrow> ('a \<Rightarrow> json) \<Rightarrow> 'a option \<Rightarrow> (string \<times> json) list" where
  "opt_field k f v = (case v of None \<Rightarrow> [] | Some x \<Rightarrow> [(k, f x)])"

definition attachment_value :: "AttachmentMeta \<Rightarrow> json" where
  "attachment_value a = JObj [(''name'', JStr (a_name a)), (''size'', JNum (Finite (a_size a)))]"

definition entry_value :: "JobStatusEntry \<Rightarrow> json" where
  "entry_value entry =
     JObj ([(''status'', JStr (e_status entry))]
           @ opt_field ''progress'' JStr (e_progress entry)
           @ [(''timestamp'', JNum (e_timestamp entry))])"

definition job_value :: "SessionJob \<Rightarrow> json" where
  "job_value job =
     JObj ([(''id'', JStr (j_id job)), (''tool'', j_tool job), (''model'', JStr (j_model job)),
            (''createdAt'', JNum (j_createdAt job)), (''status'', JStr (j_status job))]
           @ opt_field ''progress'' JStr (j_progress job)
           @ [(''history'', JArr (map entry_value (j_history job)))]
           @ opt_field ''videoUrl'' JStr (j_videoUrl job)
           @ opt_field ''imageUrls'' (\<lambda>urls. JArr (map JStr urls)) (j_imageUrls job))"

definition role_value :: "role \<Rightarrow> json" where
  "role_value r = (case r of User \<Rightarrow> JStr ''user'' | Assistant \<Rightarrow> JStr ''assistant'')"

definition status_value :: "MessageStatus \<Rightarrow> json" where
  "status_value st =
     (case st of Info \<Rightarrow> JStr ''info'' | Success \<Rightarrow> JStr ''success'' | Error \<Rightarrow> JStr ''error'')"

definition message_value :: "ChatMessage \<Rightarrow> json" where
  "message_value m =
     JObj ([(''id'', JStr (m_id m)), (''role'', role_value (m_role m)),
            (''content'', JStr (m_content m))]
           @ opt_field ''tool'' (\<lambda>v. v) (m_tool m)
           @ opt_field ''model'' (\<lambda>v. v) (m_model m)
           @ opt_field ''attachments'' (\<lambda>as. JArr (map attachment_value as)) (m_attachments m)
           @ opt_field ''status'' status_value (m_status m)
           @ [(''timestamp'', JNum (m_timestamp m))]
           @ opt_field ''videoUrl'' JStr (m_videoUrl m)
           @ opt_field ''imageUrls'' (\<lambda>urls. JArr (map JStr urls)) (m_imageUrls m)
           @ opt_field ''data'' (\<lambda>v. v) (m_data m)
           @ opt_field ''jobId'' JStr (m_jobId m))"

definition session_value :: "ChatSession \<Rightarrow> json" where
  "session_value s =
     JObj ([(''id'', JStr (s_id s)), (''prompt'', JStr (s_prompt s)), (''tool'', s_tool s),
            (''model'', JStr (s_model s)), (''createdAt'', JNum (s_createdAt s)),
            (''videoUrl'', (case s_videoUrl s of None \<Rightarrow> JNull | Some url \<Rightarrow> JStr url)),
            (''statusHistory'', JArr (s_statusHistory s)),
            (''attachments'', JArr (s_attachments s)),
            (''messages'', JArr (map message_value (s_messages s)))]
           @ (case s_jobId s of
                Absent \<Rightarrow> [] | Null \<Rightarrow> [(''jobId'', JNull)] | Value j \<Rightarrow> [(''jobId'', JStr j)])
           @ [(''jobs'', JObj (map (\<lambda>(k, job). (k, job_value job)) (s_jobs s)))]
           @ opt_field ''pinned'' JBool (s_pinned s))"

text \<open>
  The provider stores \<open>JSON.stringify(sessions)\<close>; \<open>session_to_json\<close> is what the text
  written for one session parses to, and \<open>persist\<close> the stored item after a write.
\<close>

definition session_to_json :: "ChatSession \<Rightarrow> json" where
  "session_to_json s = stringify (session_value s)"

definition persist :: "ChatSession list \<Rightarrow> storage_item" where
  "persist ss = Parsed (JArr (map session_to_json ss))"

text \<open>Every number of a session is finite: it is written to storage as it is.\<close>

definition finite_session :: "ChatSession \<Rightarrow> bool" where
  "finite_session s = finite_json (session_value s)"

section \<open>Store operations (ChatHistoryProvider)\<close>

text \<open>
  Every operation is the functional update the provider passes to \<open>setSessions\<close>
  (\<open>prev.map(...)\<close>, \<open>prev.filter(...)\<close>), applied to the latest state.
\<close>

text \<open>\<open>xs.slice(-50)\<close>: the last 50 elements, or all of them when there are fewer.\<close>

definition slice_last :: "nat \<Rightarrow> 'a list \<Rightarrow> 'a list" where
  "slice_last n xs = drop (length xs - n) xs"

definition appendStatus :: "string \<Rightarrow> string \<Rightarrow> ChatSession list \<Rightarrow> ChatSession list" where
  "appendStatus i status prev =
     map (\<lambda>session.
            if s_id session = i
            then session\<lparr>s_statusHistory := slice_last 50 (s_statusHistory session @ [JStr status])\<rparr>
            else session) prev"

definition appendMessage :: "string \<Rightarrow> ChatMessage \<Rightarrow> ChatSession list \<Rightarrow> ChatSession list" where
  "appendMessage i message prev =
     map (\<lambda>session.
            if s_id session = i
            then session\<lparr>s_messages := s_messages session @ [message]\<rparr>
            else session) prev"

definition deleteSession :: "string \<Rightarrow> store \<Rightarrow> store" where
  "deleteSession i st =
     \<lparr>sessions = filter (\<lambda>session. s_id session \<noteq> i) (sessions st),
      activeSessionId = (if activeSessionId st = Some i then None else activeSessionId st)\<rparr>"

definition togglePinSession :: "string \<Rightarrow> ChatSession list \<Rightarrow> ChatSession list" where
  "togglePinSession i prev =
     map (\<lambda>session.
            if s_id session = i
            then session\<lparr>s_pinned := Some (s_pinned session \<noteq> Some True)\<rparr>
            else session) prev"

text \<open>
  The session \<open>ensureSession\<close> (video-generator.tsx) builds for a first prompt: no
  messages, no jobs, no pinned flag; \<open>now\<close> is its \<open>Date.now()\<close>.
\<close>

definition newSession ::
  "string \<Rightarrow> string \<Rightarrow> json \<Rightarrow> string \<Rightarrow> int \<Rightarrow> string list \<Rightarrow> ChatSession" where
  "newSession sessionId seedPrompt activeTool selectedModel now names =
     \<lparr>s_id = sessionId, s_prompt = seedPrompt, s_tool = activeTool, s_model = selectedModel,
      s_createdAt = Finite now, s_videoUrl = None, s_statusHistory = [],
      s_attachments = map JStr names, s_messages = [], s_jobId = Null, s_jobs = [],
      s_jobs_prototype = None, s_pinned = None\<rparr>"

definition getSessionById :: "ChatSession list \<Rightarrow> string \<Rightarrow> ChatSession option" where
  "getSessionById ss i = find (\<lambda>session. s_id session = i) ss"

text \<open>
  \<open>Partial<ChatSession>\<close> and \<open>Partial<SessionJob>\<close>: every field may be left out (\<open>None\<close>,
  for \<open>jobId\<close> \<open>Absent\<close>). \<open>{...target, ...payload}\<close> overrides the fields the payload has.
  A job map in a payload is an object, given by its own properties and its prototype.
\<close>

record session_payload =
  sp_id :: "string option"
  sp_prompt :: "string option"
  sp_tool :: "json option"
  sp_model :: "string option"
  sp_createdAt :: "number option"
  sp_videoUrl :: "string option option"
  sp_statusHistory :: "json list option"
  sp_attachments :: "json list option"
  sp_messages :: "ChatMessage list option"
  sp_jobId :: "string nullable"
  sp_jobs :: "((string \<times> SessionJob) list \<times> SessionJob option) option"
  sp_pinned :: "bool option"

definition no_session_fields :: session_payload where
  "no_session_fields =
     \<lparr>sp_id = None, sp_prompt = None, sp_tool = None, sp_model = None, sp_createdAt = None,
      sp_videoUrl = None, sp_statusHistory = None, sp_attachments = None, sp_messages = None,
      sp_jobId = Absent, sp_jobs = None, sp_pinned = None\<rparr>"

definition or_else :: "'a option \<Rightarrow> 'a \<Rightarrow> 'a" where
  "or_else v d = (case v of None \<Rightarrow> d | Some x \<Rightarrow> x)"

definition merge_session :: "ChatSession \<Rightarrow> session_payload \<Rightarrow> ChatSession" where
  "merge_session session payload =
     \<lparr>s_id = or_else (sp_id payload) (s_id session),
      s_prompt = or_else (sp_prompt payload) (s_prompt session),
      s_tool = or_else (sp_tool payload) (s_tool session),
      s_model = or_else (sp_model payload) (s_model session),
      s_createdAt = or_else (sp_createdAt payload) (s_createdAt session),
      s_videoUrl = or_else (sp_videoUrl payload) (s_videoUrl session),
      s_statusHistory = or_else (sp_statusHistory payload) (s_statusHistory session),
      s_attachments = or_else (sp_attachments payload) (s_attachments session),
      s_messages = or_else (sp_messages payload) (s_messages session),
      s_jobId = (case sp_jobId payload of Absent \<Rightarrow> s_jobId session | j \<Rightarrow> j),
      s_jobs = fst (or_else (sp_jobs payload) (s_jobs session, s_jobs_prototype session)),
      s_jobs_prototype = snd (or_else (sp_jobs payload) (s_jobs session, s_jobs_prototype session)),
      s_pinned = (case sp_pinned payload of None \<Rightarrow> s_pinned session | Some b \<Rightarrow> Some b)\<rparr>"

definition updateSession :: "string \<Rightarrow> session_payload \<Rightarrow> ChatSession list \<Rightarrow> ChatSession list" where
  "updateSession i payload prev =
     map (\<lambda>session. if s_id session = i then merge_session session payload else session) prev"

text \<open>
  \<open>createSession\<close>: the incoming session is a full \<open>ChatSession\<close>, so in the merge with an
  existing session of the same identifier only its two optional fields can be missing and
  taken from the existing one (\<open>messages\<close> and \<open>jobs\<close> are required fields; their \<open>??\<close>
  fallbacks serve a caller that breaks the type). \<open>findIndex\<close> picks the first match.
\<close>

definition createSession :: "ChatSession \<Rightarrow> store \<Rightarrow> store" where
  "createSession session st =
     \<lparr>sessions =
        (case List.extract (\<lambda>item. s_id item = s_id session) (sessions st) of
           None \<Rightarrow> session # sessions st
         | Some (before, existing, after) \<Rightarrow>
             before
             @ [session\<lparr>s_jobId := (case s_jobId session of Absent \<Rightarrow> s_jobId existing | j \<Rightarrow> j),
                        s_pinned := (case s_pinned session of
                                       None \<Rightarrow> s_pinned existing | Some b \<Rightarrow> Some b)\<rparr>]
             @ after),
      activeSessionId = Some (s_id session)\<rparr>"

text \<open>
  \<open>registerJob\<close>: \<open>{...session.jobs, [job.id]: job}\<close> is an object literal, so the new job
  map has the own properties of the old one, the job under its identifier (a computed key
  defines an own property, also for \<open>__proto__\<close>), and \<open>Object.prototype\<close> as prototype.
\<close>

definition registerJob :: "string \<Rightarrow> SessionJob \<Rightarrow> ChatSession list \<Rightarrow> ChatSession list" where
  "registerJob sessionId job prev =
     map (\<lambda>session.
            if s_id session = sessionId
            then session\<lparr>s_jobs := set_property (s_jobs session) (j_id job) job,
                         s_jobs_prototype := None\<rparr>
            else session) prev"

record job_payload =
  jp_id :: "string option"
  jp_tool :: "json option"
  jp_model :: "string option"
  jp_createdAt :: "number option"
  jp_status :: "string option"
  jp_progress :: "string option"
  jp_history :: "JobStatusEntry list option"
  jp_videoUrl :: "string option"
  jp_imageUrls :: "string list option"

definition no_job_fields :: job_payload where
  "no_job_fields =
     \<lparr>jp_id = None, jp_tool = None, jp_model = None, jp_createdAt = None, jp_status = None,
      jp_progress = None, jp_history = None, jp_videoUrl = None, jp_imageUrls = None\<rparr>"

definition merge_job :: "SessionJob \<Rightarrow> job_payload \<Rightarrow> SessionJob" where
  "merge_job job payload =
     \<lparr>j_id = or_else (jp_id payload) (j_id job),
      j_tool = or_else (jp_tool payload) (j_tool job),
      j_model = or_else (jp_model payload) (j_model job),
      j_createdAt = or_else (jp_createdAt payload) (j_createdAt job),
      j_status = or_else (jp_status payload) (j_status job),
      j_progress = (case jp_progress payload of None \<Rightarrow> j_progress job | Some p \<Rightarrow> Some p),
      j_history = or_else (jp_history payload) (j_history job),
      j_videoUrl = (case jp_videoUrl payload of None \<Rightarrow> j_videoUrl job | Some u \<Rightarrow> Some u),
      j_imageUrls = (case jp_imageUrls payload of None \<Rightarrow> j_imageUrls job | Some u \<Rightarrow> Some u)\<rparr>"

text \<open>
  The object a payload alone makes: a \<open>SessionJob\<close> only when it has every required field.
\<close>

definition job_of_payload :: "job_payload \<Rightarrow> SessionJob option" where
  "job_of_payload payload =
     (case (jp_id payload, jp_tool payload, jp_model payload, jp_createdAt payload,
            jp_status payload, jp_history payload) of
        (Some i, Some t, Some m, Some c, Some st, Some h) \<Rightarrow>
          Some \<lparr>j_id = i, j_tool = t, j_model = m, j_createdAt = c, j_status = st,
                j_progress = jp_progress payload, j_history = h,
                j_videoUrl = jp_videoUrl payload, j_imageUrls = jp_imageUrls payload\<rparr>
      | _ \<Rightarrow> None)"

text \<open>\<open>prev.map(f)\<close> for an update \<open>f\<close> that may throw: the first throw aborts the map.\<close>

fun map_result :: "('a \<Rightarrow> 'e + 'b) \<Rightarrow> 'a list \<Rightarrow> 'e + 'b list" where
  "map_result f [] = Inr []"
| "map_result f (x # xs) =
     (case f x of
        Inl err \<Rightarrow> Inl err
      | Inr y \<Rightarrow> (case map_result f xs of Inl err \<Rightarrow> Inl err | Inr ys \<Rightarrow> Inr (y # ys)))"

subsection \<open>Reading a job map\<close>

text \<open>
  \<open>updateJob\<close>, \<open>appendJobStatus\<close> and the callbacks of the poller read \<open>session.jobs[jobId]\<close>.
  The read finds an own property of the map first. Otherwise it goes on to the prototype:
  on a map with the prototype of every object literal it finds the members of
  \<open>Object.prototype\<close>; on a map whose prototype is a job it finds that job's fields (each
  field that is not \<open>undefined\<close>, as \<open>job_value\<close> lists them), under \<open>__proto__\<close> the job
  itself, and behind the job the members of \<open>Object.prototype\<close> again. What the two
  updates then test is whether the value is truthy.
\<close>

datatype job_read =
    Job SessionJob
  | FieldValue json
  | PrototypeMember
  | NoValue

definition job_at :: "ChatSession \<Rightarrow> string \<Rightarrow> job_read" where
  "job_at session k =
     (case map_of (s_jobs session) k of
        Some job \<Rightarrow> Job job
      | None \<Rightarrow>
          (case s_jobs_prototype session of
             None \<Rightarrow> if k \<in> set object_prototype_keys then PrototypeMember else NoValue
           | Some prototype \<Rightarrow>
               if k = ''__proto__'' then Job prototype
               else (case field (job_value prototype) k of
                       Some v \<Rightarrow> if truthy v then FieldValue v else NoValue
                     | None \<Rightarrow>
                         if k \<in> set object_prototype_keys then PrototypeMember else NoValue)))"

text \<open>
  The two updates spread the value they have read into a new job. A job spreads into its
  fields and a member of \<open>Object.prototype\<close> into nothing. The remaining case is a truthy
  field of a prototype job: a number or \<open>true\<close> spreads into nothing, a string or an array
  into one property for each index, and an object (only the unchecked \<open>tool\<close> can be one)
  into its own properties. \<open>job_of_object\<close> reads the object \<open>{...props, ...payload}\<close> as a
  \<open>SessionJob\<close> when it is one: no property but the fields of a job, every required field,
  and every field at its type.
\<close>

definition job_field_names :: "string list" where
  "job_field_names =
     [''id'', ''tool'', ''model'', ''createdAt'', ''status'', ''progress'', ''history'',
      ''videoUrl'', ''imageUrls'']"

definition entry_of_object :: "json \<Rightarrow> JobStatusEntry option" where
  "entry_of_object v =
     (case v of
        JObj kvs \<Rightarrow>
          (case (as_string (map_of kvs ''status''), as_number (map_of kvs ''timestamp'')) of
             (Some st, Some t) \<Rightarrow>
               if list_all (\<lambda>k. k \<in> set [''status'', ''progress'', ''timestamp'']) (map fst kvs)
                  \<and> (map_of kvs ''progress'' = None \<or> as_string (map_of kvs ''progress'') \<noteq> None)
               then Some \<lparr>e_status = st, e_progress = as_string (map_of kvs ''progress''),
                          e_timestamp = t\<rparr>
               else None
           | _ \<Rightarrow> None)
      | _ \<Rightarrow> None)"

definition entries_of_array :: "json option \<Rightarrow> JobStatusEntry list option" where
  "entries_of_array v =
     (case v of Some (JArr xs) \<Rightarrow> those (map entry_of_object xs) | _ \<Rightarrow> None)"

definition strings_of_array :: "json option \<Rightarrow> string list option" where
  "strings_of_array v =
     (case v of Some (JArr xs) \<Rightarrow> those (map (\<lambda>x. as_string (Some x)) xs) | _ \<Rightarrow> None)"

text \<open>A field of the result: the payload's value, and the property's value without one.\<close>

definition overridden :: "'a option \<Rightarrow> 'a option \<Rightarrow> 'a option" where
  "overridden payload_value property_value =
     (case payload_value of Some x \<Rightarrow> Some x | None \<Rightarrow> property_value)"

text \<open>
  An optional field: \<open>Some None\<close> when it is missing, \<open>None\<close> when it is there with a value
  of another type.
\<close>

definition optional_field ::
  "'a option \<Rightarrow> json option \<Rightarrow> (json option \<Rightarrow> 'a option) \<Rightarrow> 'a option option" where
  "optional_field payload_value property typed =
     (case payload_value of
        Some x \<Rightarrow> Some (Some x)
      | None \<Rightarrow> (case property of
                   None \<Rightarrow> Some None
                 | Some v \<Rightarrow> map_option Some (typed (Some v))))"

definition job_of_object :: "(string \<times> json) list \<Rightarrow> job_payload \<Rightarrow> SessionJob option" where
  "job_of_object props payload =
     (if \<not> list_all (\<lambda>k. k \<in> set job_field_names) (map fst props) then None
      else
        (case (overridden (jp_id payload) (as_string (map_of props ''id'')),
               overridden (jp_tool payload) (map_of props ''tool''),
               overridden (jp_model payload) (as_string (map_of props ''model'')),
               overridden (jp_createdAt payload) (as_number (map_of props ''createdAt'')),
               overridden (jp_status payload) (as_string (map_of props ''status'')),
               overridden (jp_history payload) (entries_of_array (map_of props ''history'')),
               optional_field (jp_progress payload) (map_of props ''progress'') as_string,
               optional_field (jp_videoUrl payload) (map_of props ''videoUrl'') as_string,
               optional_field (jp_imageUrls payload) (map_of props ''imageUrls'') strings_of_array) of
           (Some i, Some t, Some m, Some c, Some st, Some h, Some p, Some v, Some u) \<Rightarrow>
             Some \<lparr>j_id = i, j_tool = t, j_model = m, j_createdAt = c, j_status = st,
                   j_progress = p, j_history = h, j_videoUrl = v, j_imageUrls = u\<rparr>
         | _ \<Rightarrow> None))"

text \<open>\<open>{...v, ...payload}\<close> for a truthy field value \<open>v\<close> of a prototype job.\<close>

definition job_of_spread :: "json \<Rightarrow> job_payload \<Rightarrow> SessionJob option" where
  "job_of_spread v payload =
     (case v of
        JObj props \<Rightarrow> job_of_object props payload
      | JArr xs \<Rightarrow> if xs = [] then job_of_payload payload else None
      | JStr s \<Rightarrow> if s = [] then job_of_payload payload else None
      | _ \<Rightarrow> job_of_payload payload)"

text \<open>
  \<open>updateJob\<close> returns the session unchanged when the value read is falsy and stores
  \<open>{...job, ...payload}\<close> under the identifier otherwise, in a new job map (an object
  literal, with the own properties of the old map). For a job that is the merged job. For
  a member of \<open>Object.prototype\<close> it is the payload alone, and for a field of a prototype
  job the spread of that value under the payload: both are outside the \<open>SessionJob\<close> type
  unless they happen to be complete (\<open>IllTypedJob\<close>).
\<close>

definition store_job :: "string \<Rightarrow> SessionJob \<Rightarrow> ChatSession \<Rightarrow> ChatSession" where
  "store_job jobId job session =
     session\<lparr>s_jobs := set_property (s_jobs session) jobId job, s_jobs_prototype := None\<rparr>"

definition updateJob_session :: "string \<Rightarrow> job_payload \<Rightarrow> ChatSession \<Rightarrow> js_error + ChatSession" where
  "updateJob_session jobId payload session =
     (case job_at session jobId of
        NoValue \<Rightarrow> Inr session
      | Job job \<Rightarrow> Inr (store_job jobId (merge_job job payload) session)
      | PrototypeMember \<Rightarrow>
          (case job_of_payload payload of
             Some job \<Rightarrow> Inr (store_job jobId job session)
           | None \<Rightarrow> Inl (IllTypedJob jobId))
      | FieldValue v \<Rightarrow>
          (case job_of_spread v payload of
             Some job \<Rightarrow> Inr (store_job jobId job session)
           | None \<Rightarrow> Inl (IllTypedJob jobId)))"

definition updateJob ::
  "string \<Rightarrow> string \<Rightarrow> job_payload \<Rightarrow> ChatSession list \<Rightarrow> js_error + ChatSession list" where
  "updateJob sessionId jobId payload prev =
     map_result
       (\<lambda>session. if s_id session \<noteq> sessionId then Inr session
                   else updateJob_session jobId payload session) prev"

text \<open>
  \<open>appendJobStatus\<close> stores \<open>{...job, status, progress, history: [...job.history, entry]}\<close>.
  The spread of \<open>job.history\<close> throws when that is not iterable: it is \<open>undefined\<close> on a
  member of \<open>Object.prototype\<close> and on a string, a number, \<open>true\<close> or an array read from a
  prototype job. On an object read from there it is the object's \<open>history\<close> property: an
  array gives its elements, a string its characters, anything else throws.
\<close>

definition appended :: "JobStatusEntry \<Rightarrow> SessionJob \<Rightarrow> SessionJob" where
  "appended entry job =
     job\<lparr>j_status := e_status entry, j_progress := e_progress entry,
         j_history := j_history job @ [entry]\<rparr>"

definition history_of_object :: "(string \<times> json) list \<Rightarrow> js_error + JobStatusEntry list option" where
  "history_of_object props =
     (case map_of props ''history'' of
        Some (JArr xs) \<Rightarrow> Inr (those (map entry_of_object xs))
      | Some (JStr s) \<Rightarrow> Inr (if s = [] then Some [] else None)
      | _ \<Rightarrow> Inl (TypeError ''job.history is not iterable''))"

definition appendJobStatus_session ::
  "string \<Rightarrow> JobStatusEntry \<Rightarrow> ChatSession \<Rightarrow> js_error + ChatSession" where
  "appendJobStatus_session jobId entry session =
     (case job_at session jobId of
        NoValue \<Rightarrow> Inr session
      | Job job \<Rightarrow> Inr (store_job jobId (appended entry job) session)
      | PrototypeMember \<Rightarrow> Inl (TypeError ''job.history is not iterable'')
      | FieldValue v \<Rightarrow>
          (case v of
             JObj props \<Rightarrow>
               (case history_of_object props of
                  Inl err \<Rightarrow> Inl err
                | Inr None \<Rightarrow> Inl (IllTypedJob jobId)
                | Inr (Some entries) \<Rightarrow>
                    (case job_of_object (filter (\<lambda>(k, x). k \<noteq> ''progress'') props)
                            (no_job_fields\<lparr>jp_status := Some (e_status entry),
                                           jp_progress := e_progress entry,
                                           jp_history := Some (entries @ [entry])\<rparr>) of
                       Some job \<Rightarrow> Inr (store_job jobId job session)
                     | None \<Rightarrow> Inl (IllTypedJob jobId)))
           | _ \<Rightarrow> Inl (TypeError ''job.history is not iterable'')))"

text \<open>The entry is built before the update is queued; \<open>now\<close> is its \<open>Date.now()\<close>.\<close>

definition appendJobStatus ::
  "int \<Rightarrow> string \<Rightarrow> string \<Rightarrow> string \<Rightarrow> string option \<Rightarrow> ChatSession list
   \<Rightarrow> js_error + ChatSession list" where
  "appendJobStatus now sessionId jobId status progress prev =
     map_result
       (\<lambda>session. if s_id session \<noteq> sessionId then Inr session
                   else appendJobStatus_session jobId
                          \<lparr>e_status = status, e_progress = progress, e_timestamp = Finite now\<rparr>
                          session)
       prev"

text \<open>
  \<open>duplicateSession\<close>: \<open>newId\<close> is what \<open>crypto.randomUUID\<close> (or its fallback) returns and
  \<open>now\<close> is \<open>Date.now()\<close>. The clone's job map \<open>{...source.jobs}\<close> has the own properties of
  the source's and the prototype of an object literal. Nothing happens when no session has
  the identifier.
\<close>

definition duplicateSession :: "string \<Rightarrow> int \<Rightarrow> string \<Rightarrow> store \<Rightarrow> store" where
  "duplicateSession newId now i st =
     (case find (\<lambda>s. s_id s = i) (sessions st) of
        None \<Rightarrow> st
      | Some source \<Rightarrow>
          \<lparr>sessions =
             source\<lparr>s_id := newId, s_createdAt := Finite now,
                    s_prompt := s_prompt source @ '' (copy)'',
                    s_messages := s_messages source, s_jobs := s_jobs source,
                    s_jobs_prototype := None, s_pinned := Some False\<rparr> # sessions st,
           activeSessionId = Some newId\<rparr>)"

section \<open>The status poller (status-polling.tsx) and its callers (video-generator.tsx)\<close>

text \<open>
  The components do not touch the store themselves: they call the provider's operations,
  each of which queues one functional update. An \<open>action\<close> is one such call with its
  arguments; \<open>apply_action\<close> is the update it queues, and \<open>run_actions\<close> applies a sequence
  of them in the order of the calls. An update that throws ends the run.
\<close>

datatype action =
    AppendStatus string string
  | UpdateSession string session_payload
  | AppendJobStatus int string string string "string option"
  | UpdateJob string string job_payload
  | AppendMessage string ChatMessage
  | RegisterJob string SessionJob

fun apply_action :: "action \<Rightarrow> ChatSession list \<Rightarrow> js_error + ChatSession list" where
  "apply_action (AppendStatus i text) ss = Inr (appendStatus i text ss)"
| "apply_action (UpdateSession i payload) ss = Inr (updateSession i payload ss)"
| "apply_action (AppendJobStatus now sessionId jobId status progress) ss =
     appendJobStatus now sessionId jobId status progress ss"
| "apply_action (UpdateJob sessionId jobId payload) ss = updateJob sessionId jobId payload ss"
| "apply_action (AppendMessage i message) ss = Inr (appendMessage i message ss)"
| "apply_action (RegisterJob sessionId job) ss = Inr (registerJob sessionId job ss)"

fun run_actions :: "action list \<Rightarrow> ChatSession list \<Rightarrow> js_error + ChatSession list" where
  "run_actions [] ss = Inr ss"
| "run_actions (a # as) ss =
     (case apply_action a ss of Inl err \<Rightarrow> Inl err | Inr ss' \<Rightarrow> run_actions as ss')"

text \<open>
  The body of \<open>GET /status/{jobId}\<close> (\<open>JobStatus\<close>), and what one query comes to: a response
  that was read, or a failure with the message the \<open>catch\<close> block sees (a rejected fetch,
  or \<open>Failed to fetch status\<close> for a response that is not ok).
\<close>

record JobStatus =
  r_status :: string
  r_progress :: string
  r_video_url :: "string option"
  r_image_urls :: "string list option"

datatype query_result = Failed string | Received JobStatus

text \<open>
  The state of one StatusPolling component: its three state variables and the ref that
  holds the last status key.
\<close>

record poller =
  p_status :: "JobStatus option"
  isPolling :: bool
  failureCount :: nat
  lastStatusRef :: string

definition initial_poller :: poller where
  "initial_poller = \<lparr>p_status = None, isPolling = True, failureCount = 0, lastStatusRef = []\<rparr>"

text \<open>
  What the poller does when a query settles: calls of store operations and calls of the
  two callbacks it was given. The clock is read once for the history entry (\<open>tk_now\<close>) and
  up to twice for the time shown in a log line.
\<close>

datatype event = Store action | OnSuccess JobStatus string | OnError string string

record tick =
  tk_now :: int
  tk_time :: string
  tk_time2 :: string

text \<open>The separators of a log line, as UTF-8: a bullet and an em dash between spaces.\<close>

definition bullet :: string where
  "bullet = [CHR '' '', CHR 0xE2, CHR 0x80, CHR 0xA2, CHR '' '']"

definition dash :: string where
  "dash = [CHR '' '', CHR 0xE2, CHR 0x80, CHR 0x94, CHR '' '']"

text \<open>\<open>status.replace(/_/g, " ")\<close>.\<close>

definition readable :: "string \<Rightarrow> string" where
  "readable status = map (\<lambda>c. if c = CHR ''_'' then CHR '' '' else c) status"

text \<open>\<open>s || d\<close> for a string: the empty string is falsy.\<close>

definition or_default :: "string \<Rightarrow> string \<Rightarrow> string" where
  "or_default s d = (if s = [] then d else s)"

definition status_update :: "string \<Rightarrow> string \<Rightarrow> job_payload" where
  "status_update status progress =
     no_job_fields\<lparr>jp_status := Some status, jp_progress := Some progress\<rparr>"

text \<open>
  The body of \<open>pollStatus\<close> after the \<open>await\<close>, as one closure runs it. The function is
  defined inside the effect, so the \<open>failureCount\<close> it reads is the one of the render whose
  effect issued the query: in \<open>pollStatus sessionId jobId tk res p\<close> the field
  \<open>failureCount p\<close> is that captured value, while \<open>lastStatusRef p\<close> is the ref, which every
  closure shares. The state setters store what the closure computed.
\<close>

definition pollStatus ::
  "string \<Rightarrow> string \<Rightarrow> tick \<Rightarrow> query_result \<Rightarrow> poller \<Rightarrow> poller \<times> event list" where
  "pollStatus sessionId jobId tk res p =
     (case res of
        Received data \<Rightarrow>
          (let statusKey = r_status data @ ''-'' @ r_progress data;
               fresh = (statusKey \<noteq> lastStatusRef p);
               p1 = p\<lparr>p_status := Some data, failureCount := 0,
                      lastStatusRef := (if fresh then statusKey else lastStatusRef p)\<rparr>;
               recorded =
                 [Store (AppendJobStatus (tk_now tk) sessionId jobId (r_status data)
                           (Some (r_progress data))),
                  Store (UpdateJob sessionId jobId (status_update (r_status data) (r_progress data)))]
                 @ (if fresh
                    then [Store (AppendStatus sessionId
                            (tk_time tk @ bullet @ readable (r_status data) @ dash @ r_progress data))]
                    else [])
           in if r_status data = ''COMPLETED'' then
                (p1\<lparr>isPolling := False\<rparr>,
                 recorded
                 @ (case r_video_url data of
                      None \<Rightarrow> []
                    | Some url \<Rightarrow>
                        if url = [] then []
                        else [Store (UpdateSession sessionId (no_session_fields\<lparr>sp_videoUrl := Some (Some url)\<rparr>)),
                              Store (UpdateJob sessionId jobId
                                ((status_update (r_status data) (r_progress data))\<lparr>jp_videoUrl := Some url\<rparr>))])
                 @ (case r_image_urls data of
                      None \<Rightarrow> []
                    | Some urls \<Rightarrow>
                        [Store (UpdateJob sessionId jobId
                           ((status_update (r_status data) (r_progress data))\<lparr>jp_imageUrls := Some urls\<rparr>))])
                 @ [OnSuccess data jobId])
              else if r_status data = ''FAILED'' then
                (p1\<lparr>isPolling := False\<rparr>,
                 recorded
                 @ [Store (UpdateJob sessionId jobId
                      (status_update ''FAILED'' (or_default (r_progress data) ''Generation failed''))),
                    OnError (or_default (r_progress data) ''Generation failed'') jobId,
                    Store (AppendStatus sessionId
                      (tk_time2 tk @ bullet @ ''FAILED'' @ dash
                       @ or_default (r_progress data) ''Generation failed''))])
              else (p1, recorded))
      | Failed message \<Rightarrow>
          (p\<lparr>failureCount := failureCount p + 1,
             isPolling := (if failureCount p + 1 > 10 then False else isPolling p)\<rparr>,
           [Store (AppendStatus sessionId (tk_time tk @ bullet @ ''RETRYING'' @ dash @ message)),
            Store (AppendJobStatus (tk_now tk) sessionId jobId ''RETRYING'' (Some message))]
           @ (if failureCount p + 1 > 10
              then [OnError ''Connection lost. Please try again.'' jobId] else [])))"

subsection \<open>Queries in flight\<close>

text \<open>
  The effect that polls does nothing when \<open>isPolling\<close> is false or the job identifier is
  empty. Otherwise a run of it defines the closure \<open>pollStatus\<close>, starts an interval that
  calls the closure every five seconds, and calls the closure once at once; the cleanup
  before the next run clears the interval. The effect runs at mount and again whenever one
  of its dependencies has changed: the failure counter, or a callback or store operation of
  a parent that has rendered again. Neither a run nor a tick of the interval waits for a
  query that is still in flight.

  A polling component is therefore its state, the failure counter captured by the closure
  of the live interval (\<open>None\<close> when there is no interval), the queries in flight, each with
  the failure counter its closure has captured, the events so far and the number of queries
  issued. It moves in three ways: the effect runs (\<open>Run\<close>), the interval ticks (\<open>Tick\<close>),
  or the \<open>k\<close>-th query in flight settles (\<open>Settle\<close>) and the rest of its closure runs, with
  its own captured counter, also after the component has stopped polling.
\<close>

record polling =
  pl_poller :: poller
  pl_interval :: "nat option"
  pl_inflight :: "nat list"
  pl_events :: "event list"
  pl_queries :: nat

datatype step = Run | Tick | Settle nat tick query_result

definition remove_nth :: "nat \<Rightarrow> 'a list \<Rightarrow> 'a list" where
  "remove_nth k xs = take k xs @ drop (Suc k) xs"

definition poller_step :: "string \<Rightarrow> string \<Rightarrow> step \<Rightarrow> polling \<Rightarrow> polling" where
  "poller_step sessionId jobId x st =
     (case x of
        Run \<Rightarrow>
          if \<not> isPolling (pl_poller st) \<or> jobId = [] then st\<lparr>pl_interval := None\<rparr>
          else st\<lparr>pl_interval := Some (failureCount (pl_poller st)),
                  pl_inflight := pl_inflight st @ [failureCount (pl_poller st)],
                  pl_queries := Suc (pl_queries st)\<rparr>
      | Tick \<Rightarrow>
          (case pl_interval st of
             None \<Rightarrow> st
           | Some captured \<Rightarrow>
               st\<lparr>pl_inflight := pl_inflight st @ [captured],
                  pl_queries := Suc (pl_queries st)\<rparr>)
      | Settle k tk res \<Rightarrow>
          if k < length (pl_inflight st) then
            st\<lparr>pl_poller :=
                  fst (pollStatus sessionId jobId tk res
                         ((pl_poller st)\<lparr>failureCount := pl_inflight st ! k\<rparr>)),
               pl_inflight := remove_nth k (pl_inflight st),
               pl_events :=
                  pl_events st
                  @ snd (pollStatus sessionId jobId tk res
                           ((pl_poller st)\<lparr>failureCount := pl_inflight st ! k\<rparr>))\<rparr>
          else st)"

text \<open>A component that has just been mounted in the state \<open>p\<close>, run on a schedule.\<close>

definition run_schedule :: "string \<Rightarrow> string \<Rightarrow> step list \<Rightarrow> poller \<Rightarrow> polling" where
  "run_schedule sessionId jobId steps p =
     fold (poller_step sessionId jobId) steps
       \<lparr>pl_poller = p, pl_interval = None, pl_inflight = [], pl_events = [], pl_queries = 0\<rparr>"

text \<open>
  The schedule on which no two queries overlap: the effect runs and the query it issues
  settles before the effect runs again, which it does at once, since every settled query
  calls store operations and so changes the dependencies of the effect. \<open>run_poller\<close> runs
  the component on that schedule, given the outcomes of the queries in order, and returns
  its state, its events and the number of queries it has issued.
\<close>

definition serial :: "(tick \<times> query_result) list \<Rightarrow> step list" where
  "serial outcomes = concat (map (\<lambda>(tk, res). [Run, Settle 0 tk res]) outcomes)"

definition run_poller ::
  "string \<Rightarrow> string \<Rightarrow> (tick \<times> query_result) list \<Rightarrow> poller \<Rightarrow> poller \<times> event list \<times> nat" where
  "run_poller sessionId jobId outcomes p =
     (pl_poller (run_schedule sessionId jobId (serial outcomes) p),
      pl_events (run_schedule sessionId jobId (serial outcomes) p),
      pl_queries (run_schedule sessionId jobId (serial outcomes) p))"

subsection \<open>The callbacks\<close>

text \<open>
  The callbacks VideoGenerator passes: \<open>handleJobSuccess\<close> and \<open>handleJobError\<close>, each with
  the session that owned the job when it was submitted. They read the job from the
  sessions of the last render (\<open>h_snapshot\<close>), take its tool and model for the message they
  append, and fall back to the component's own state. The component's local state
  (\<open>activeJobId\<close>, \<open>globalError\<close>) is not part of the store and is left out. \<open>h_String\<close> is
  the conversion a template literal applies to a value that is not a string.
\<close>

record handler_env =
  h_snapshot :: "ChatSession list"
  h_activeJobModel :: "string option"
  h_selectedModel :: string
  h_now :: int
  h_message_id :: string
  h_message_now :: int
  h_String :: "json \<Rightarrow> string"

text \<open>\<open>sessions.find(...)?.jobs[jobId]\<close>, and \<open>job?.tool\<close> and \<open>job?.model\<close> of what it gives.\<close>

definition snapshot_job :: "handler_env \<Rightarrow> string \<Rightarrow> string \<Rightarrow> job_read" where
  "snapshot_job h sessionId jobId =
     (case find (\<lambda>item. s_id item = sessionId) (h_snapshot h) of
        None \<Rightarrow> NoValue
      | Some session \<Rightarrow> job_at session jobId)"

definition tool_of :: "job_read \<Rightarrow> json option" where
  "tool_of job =
     (case job of Job j \<Rightarrow> Some (j_tool j) | FieldValue v \<Rightarrow> field v ''tool'' | _ \<Rightarrow> None)"

definition model_of :: "job_read \<Rightarrow> json option" where
  "model_of job =
     (case job of Job j \<Rightarrow> Some (JStr (j_model j)) | FieldValue v \<Rightarrow> field v ''model'' | _ \<Rightarrow> None)"

text \<open>\<open>job?.model ?? activeJobModel ?? selectedModel\<close>.\<close>

definition job_model :: "handler_env \<Rightarrow> job_read \<Rightarrow> json" where
  "job_model h job =
     nullish_or (model_of job)
       (JStr (case h_activeJobModel h of Some m \<Rightarrow> m | None \<Rightarrow> h_selectedModel h))"

definition assistant_message :: "handler_env \<Rightarrow> string \<Rightarrow> MessageStatus \<Rightarrow> ChatMessage" where
  "assistant_message h content st =
     \<lparr>m_id = h_message_id h, m_role = Assistant, m_content = content, m_tool = None,
      m_model = None, m_attachments = None, m_status = Some st,
      m_timestamp = Finite (h_message_now h), m_videoUrl = None, m_imageUrls = None,
      m_data = None, m_jobId = None\<rparr>"

definition images_text :: "nat \<Rightarrow> string \<Rightarrow> (nat \<Rightarrow> string) \<Rightarrow> string" where
  "images_text n model digits =
     ''Generated '' @ digits n @ '' '' @ (if n > 1 then ''images'' else ''image'')
     @ '' with '' @ model @ ''.''"

definition handleJobSuccess ::
  "handler_env \<Rightarrow> (nat \<Rightarrow> string) \<Rightarrow> JobStatus \<Rightarrow> string option \<Rightarrow> string \<Rightarrow> action list" where
  "handleJobSuccess h digits payload sessionId jobId =
     (case sessionId of
        None \<Rightarrow> []
      | Some sid \<Rightarrow>
          if sid = [] \<or> jobId = [] then []
          else if r_video_url payload \<noteq> None \<and> r_video_url payload \<noteq> Some [] then
            [UpdateJob sid jobId
               ((status_update ''COMPLETED'' (or_default (r_progress payload) ''Assets ready''))
                  \<lparr>jp_videoUrl := r_video_url payload\<rparr>),
             AppendJobStatus (h_now h) sid jobId ''COMPLETED''
               (Some (or_default (r_progress payload) ''Video ready'')),
             AppendMessage sid
               ((assistant_message h ''Your video is ready!'' Success)
                  \<lparr>m_videoUrl := r_video_url payload,
                   m_tool := Some (nullish_or (tool_of (snapshot_job h sid jobId)) (JStr ''video'')),
                   m_model := Some (job_model h (snapshot_job h sid jobId)),
                   m_jobId := Some jobId\<rparr>)]
          else (case r_image_urls payload of
                  None \<Rightarrow> []
                | Some urls \<Rightarrow>
                    if urls = [] then []
                    else
                      [UpdateJob sid jobId
                         ((status_update ''COMPLETED'' (or_default (r_progress payload) ''Assets ready''))
                            \<lparr>jp_imageUrls := Some urls\<rparr>),
                       AppendJobStatus (h_now h) sid jobId ''COMPLETED''
                         (Some (or_default (r_progress payload) ''Images ready'')),
                       AppendMessage sid
                         ((assistant_message h
                             (images_text (length urls)
                                (String_of (h_String h)
                                   (nullish_or (model_of (snapshot_job h sid jobId))
                                      (JStr (h_selectedModel h))))
                                digits)
                             Success)
                            \<lparr>m_imageUrls := Some urls,
                             m_tool := Some (nullish_or (tool_of (snapshot_job h sid jobId))
                                               (JStr ''image'')),
                             m_model := Some (nullish_or (model_of (snapshot_job h sid jobId))
                                                (JStr (h_selectedModel h))),
                             m_jobId := Some jobId\<rparr>)]))"

definition handleJobError ::
  "handler_env \<Rightarrow> string \<Rightarrow> string option \<Rightarrow> string \<Rightarrow> action list" where
  "handleJobError h message sessionId jobId =
     (case sessionId of
        None \<Rightarrow> []
      | Some sid \<Rightarrow>
          if sid = [] \<or> jobId = [] then []
          else
            [UpdateJob sid jobId (status_update ''FAILED'' message),
             AppendJobStatus (h_now h) sid jobId ''FAILED'' (Some message),
             AppendMessage sid
               ((assistant_message h message Error)
                  \<lparr>m_tool := Some (nullish_or (tool_of (snapshot_job h sid jobId)) (JStr ''video'')),
                   m_model := Some (job_model h (snapshot_job h sid jobId)),
                   m_jobId := Some jobId\<rparr>)])"

text \<open>
  What the events of a poller run do to the store, with the two handlers as callbacks;
  \<open>hs\<close> gives the k-th callback call its environment.
\<close>

fun events_actions ::
  "(nat \<Rightarrow> handler_env) \<Rightarrow> (nat \<Rightarrow> string) \<Rightarrow> string option \<Rightarrow> nat \<Rightarrow> event list \<Rightarrow> action list" where
  "events_actions hs digits activeJobSessionId k [] = []"
| "events_actions hs digits activeJobSessionId k (Store a # es) =
     a # events_actions hs digits activeJobSessionId k es"
| "events_actions hs digits activeJobSessionId k (OnSuccess payload jobId # es) =
     handleJobSuccess (hs k) digits payload activeJobSessionId jobId
     @ events_actions hs digits activeJobSessionId (Suc k) es"
| "events_actions hs digits activeJobSessionId k (OnError message jobId # es) =
     handleJobError (hs k) message activeJobSessionId jobId
     @ events_actions hs digits activeJobSessionId (Suc k) es"



subsection \<open>Reading a run\<close>

text \<open>The callback calls among the events of a run.\<close>

fun is_callback :: "event \<Rightarrow> bool" where
  "is_callback (Store a) = False"
| "is_callback (OnSuccess payload jobId) = True"
| "is_callback (OnError message jobId) = True"

definition callbacks :: "event list \<Rightarrow> event list" where
  "callbacks events = filter is_callback events"

text \<open>The poller's own calls of store operations among the events of a run.\<close>

fun store_calls :: "event list \<Rightarrow> action list" where
  "store_calls [] = []"
| "store_calls (Store a # es) = a # store_calls es"
| "store_calls (e # es) = store_calls es"

text \<open>
  The history entries a sequence of calls asks \<open>appendJobStatus\<close> to append to a job, and
  the lines it asks \<open>appendStatus\<close> to add to the log of a session.
\<close>

fun history_calls :: "string \<Rightarrow> string \<Rightarrow> action list \<Rightarrow> JobStatusEntry list" where
  "history_calls sessionId jobId [] = []"
| "history_calls sessionId jobId (AppendJobStatus now i j status progress # as) =
     (if i = sessionId \<and> j = jobId
      then \<lparr>e_status = status, e_progress = progress, e_timestamp = Finite now\<rparr>
           # history_calls sessionId jobId as
      else history_calls sessionId jobId as)"
| "history_calls sessionId jobId (a # as) = history_calls sessionId jobId as"

fun log_calls :: "string \<Rightarrow> action list \<Rightarrow> string list" where
  "log_calls sessionId [] = []"
| "log_calls sessionId (AppendStatus i line # as) =
     (if i = sessionId then line # log_calls sessionId as else log_calls sessionId as)"
| "log_calls sessionId (a # as) = log_calls sessionId as"

text \<open>
  The calls a poller makes for its job \<open>jobId\<close> of the session \<open>sessionId\<close>: it adds log
  lines, sets the video URL of the session, appends to the job's history and updates the
  job's status, progress and URLs. None of them replaces the history of the job or the job
  map of the session.
\<close>

fun poller_call :: "string \<Rightarrow> string \<Rightarrow> action \<Rightarrow> bool" where
  "poller_call sessionId jobId (AppendStatus i line) = (i = sessionId)"
| "poller_call sessionId jobId (UpdateSession i payload) =
     (i = sessionId \<and> sp_id payload = None \<and> sp_jobs payload = None)"
| "poller_call sessionId jobId (AppendJobStatus now i j status progress) =
     (i = sessionId \<and> j = jobId)"
| "poller_call sessionId jobId (UpdateJob i j payload) =
     (i = sessionId \<and> j = jobId \<and> jp_id payload = None \<and> jp_history payload = None)"
| "poller_call sessionId jobId (AppendMessage i message) = False"
| "poller_call sessionId jobId (RegisterJob i job) = False"


text \<open>The (status, progress) pairs a job's history records, oldest first.\<close>

definition observed :: "SessionJob \<Rightarrow> (string \<times> string option) list" where
  "observed job = map (\<lambda>entry. (e_status entry, e_progress entry)) (j_history job)"

text \<open>The job \<open>jobId\<close> of the first session \<open>sessionId\<close>, when an update has succeeded.\<close>

definition job_after :: "js_error + ChatSession list \<Rightarrow> string \<Rightarrow> string \<Rightarrow> SessionJob option" where
  "job_after result sessionId jobId =
     (case result of
        Inl err \<Rightarrow> None
      | Inr ss \<Rightarrow> (case getSessionById ss sessionId of
                    None \<Rightarrow> None
                  | Some s \<Rightarrow> map_of (s_jobs s) jobId))"

definition session_after :: "js_error + ChatSession list \<Rightarrow> string \<Rightarrow> ChatSession option" where
  "session_after result sessionId =
     (case result of Inl err \<Rightarrow> None | Inr ss \<Rightarrow> getSessionById ss sessionId)"

text \<open>
  An action that works on the session \<open>sessionId\<close> and leaves identifiers alone: every
  update visits the sessions with that identifier only.
\<close>

fun targets :: "string \<Rightarrow> action \<Rightarrow> bool" where
  "targets sessionId (AppendStatus i text) = (i = sessionId)"
| "targets sessionId (UpdateSession i payload) = (i = sessionId \<and> sp_id payload = None)"
| "targets sessionId (AppendJobStatus now i jobId status progress) = (i = sessionId)"
| "targets sessionId (UpdateJob i jobId payload) = (i = sessionId)"
| "targets sessionId (AppendMessage i message) = (i = sessionId)"
| "targets sessionId (RegisterJob i job) = (i = sessionId)"

section \<open>Request submission (lib/api.ts, lib/model-config.ts)\<close>

text \<open>
  The tools and the endpoint table are those of \<open>lib/model-config.ts\<close>, the file
  \<open>lib/api.ts\<close> imports (another copy of the table in the repository adds a text tool).
\<close>

datatype ToolType = Video | Image

definition tool_name :: "ToolType \<Rightarrow> string" where
  "tool_name tool = (case tool of Video \<Rightarrow> ''video'' | Image \<Rightarrow> ''image'')"

definition MODEL_CONFIG :: "ToolType \<Rightarrow> (string \<times> string) list" where
  "MODEL_CONFIG tool =
     (case tool of
        Video \<Rightarrow>
          [(''aws-nova-reel'', ''/api/video/nova''),
           (''text-to-video-ms-1.7b'', ''/api/video/ali-vilab/text-to-video-ms-1.7b''),
           (''cerspense/zeroscope_v2_576w'', ''/api/video/cerspense/zeroscope_v2_576w''),
           (''Lightricks/LTX-Video-0.9.7-dev'', ''/api/video/Lightricks/LTX-Video-0.9.7-dev''),
           (''camenduru/potat1'', ''/api/video/camenduru/potat1'')]
      | Image \<Rightarrow>
          [(''stabilityai/stable-diffusion-xl-base-1.0'',
            ''/api/image/stabilityai/stable-diffusion-xl-base-1.0''),
           (''stable-diffusion-v1-5/stable-diffusion-v1-5'',
            ''/api/image/stable-diffusion-v1-5/stable-diffusion-v1-5''),
           (''Lykon/DreamShaper'', ''/api/image/Lykon/DreamShaper''),
           (''CompVis/stable-diffusion-v1-4'', ''/api/image/CompVis/stable-diffusion-v1-4''),
           (''dreamlike-art/dreamlike-photoreal-2.0'',
            ''/api/image/dreamlike-art/dreamlike-photoreal-2.0'')])"

text \<open>
  What \<open>MODEL_CONFIG[tool]?.[model]\<close> evaluates to when it is truthy: the configured path,
  or the member of \<open>Object.prototype\<close> that has the model's name.
\<close>

datatype endpoint = Path string | Member string

record ToolRequestOptions =
  o_tool :: ToolType
  o_model :: string
  o_prompt :: string
  o_files :: "string list"
  o_metadata :: "(string \<times> string) list"

datatype form_part = Field string string | FilePart string string

record request =
  q_base :: string
  q_endpoint :: endpoint
  q_method :: string
  q_body :: "form_part list"

text \<open>
  A response: its \<open>ok\<close> flag and its body, \<open>None\<close> when the body does not parse as JSON. A
  fetch that rejects makes \<open>submitToolRequest\<close> reject with the same error.
\<close>

record response =
  ok :: bool
  body :: "json option"

datatype fetch_result = Rejected string | Responded response

datatype submit_error = ConfigurationError string | RequestError string | FetchError string

record ToolResponse =
  t_jobId :: "string option"
  t_data :: json
  t_endpoint :: endpoint

definition form_data :: "(nat \<Rightarrow> string) \<Rightarrow> ToolRequestOptions \<Rightarrow> form_part list" where
  "form_data digits options =
     [Field ''prompt'' (o_prompt options), Field ''tool'' (tool_name (o_tool options)),
      Field ''model'' (o_model options)]
     @ map (\<lambda>(key, v). Field key v) (o_metadata options)
     @ map (\<lambda>(index, name). FilePart (''file_'' @ digits index) name)
         (enumerate 0 (o_files options))"

text \<open>
  \<open>typeof payload === "object" && payload && key in payload ? String(payload[key]) : d\<close>.
\<close>

definition string_member :: "(json \<Rightarrow> string) \<Rightarrow> json \<Rightarrow> string \<Rightarrow> string option" where
  "string_member str payload key =
     (case payload of
        JObj kvs \<Rightarrow> map_option (String_of str) (map_of kvs key)
      | _ \<Rightarrow> None)"

text \<open>
  \<open>submitToolRequest\<close>, with the network as a parameter: the result is the list of requests
  it issued and what its promise settles to. \<open>base\<close> is \<open>API_BASE_URL\<close>.
\<close>

definition submitToolRequest ::
  "string \<Rightarrow> (request \<Rightarrow> fetch_result) \<Rightarrow> (json \<Rightarrow> string) \<Rightarrow> (nat \<Rightarrow> string)
   \<Rightarrow> ToolRequestOptions \<Rightarrow> request list \<times> (submit_error + ToolResponse)" where
  "submitToolRequest base fetch str digits options =
     (case (case get_property (MODEL_CONFIG (o_tool options)) (o_model options) of
              Own path \<Rightarrow> if path = [] then None else Some (Path path)
            | Inherited \<Rightarrow> Some (Member (o_model options))
            | Missing \<Rightarrow> None) of
        None \<Rightarrow>
          ([], Inl (ConfigurationError
                 (''Model '' @ [CHR 0x22] @ o_model options @ [CHR 0x22] @ '' is not configured for ''
                  @ tool_name (o_tool options) @ ''.'')))
      | Some endpointPath \<Rightarrow>
          (let req = \<lparr>q_base = base, q_endpoint = endpointPath, q_method = ''POST'',
                      q_body = form_data digits options\<rparr>
           in (case fetch req of
                 Rejected err \<Rightarrow> ([req], Inl (FetchError err))
               | Responded res \<Rightarrow>
                   (let payload = (case body res of None \<Rightarrow> JNull | Some v \<Rightarrow> v)
                    in if \<not> ok res then
                         ([req], Inl (RequestError
                            (case string_member str payload ''detail'' of
                               Some message \<Rightarrow> message | None \<Rightarrow> ''Request failed'')))
                       else
                         ([req], Inr \<lparr>t_jobId = string_member str payload ''job_id'',
                                      t_data = payload, t_endpoint = endpointPath\<rparr>)))))"

section \<open>The objects behind a duplicated session\<close>

text \<open>
  In the store model a session is a value, and a copy of a value cannot be told from the
  value. Whether \<open>duplicateSession\<close> copies the jobs and messages of its source or shares
  them is a question about objects, so this section models the objects: a session object
  holds references to its arrays and to its job map, a messages array holds references to
  message objects, and a job map holds references to job objects.
\<close>

type_synonym ref = nat

datatype cell =
    Values "json list"
  | MessageRefs "ref list"
  | JobRefs "(string \<times> ref) list"
  | JobObject SessionJob
  | MessageObject ChatMessage

type_synonym heap = "ref \<Rightarrow> cell option"

record session_object =
  so_id :: string
  so_prompt :: string
  so_tool :: json
  so_model :: string
  so_createdAt :: number
  so_videoUrl :: "string option"
  so_statusHistory :: ref
  so_attachments :: ref
  so_messages :: ref
  so_jobId :: "string nullable"
  so_jobs :: ref
  so_pinned :: "bool option"

text \<open>
  The clone of \<open>duplicateSession\<close>: \<open>{...source, ...}\<close> copies every field of the source, a
  reference as a reference; \<open>[...source.messages]\<close> and \<open>{...source.jobs}\<close> are a new array
  and a new object (at \<open>r_messages\<close> and \<open>r_jobs\<close>, the addresses the allocator hands out)
  with the elements of the old ones.
\<close>

definition duplicate_object ::
  "string \<Rightarrow> int \<Rightarrow> ref \<Rightarrow> ref \<Rightarrow> session_object \<Rightarrow> heap \<Rightarrow> session_object \<times> heap" where
  "duplicate_object newId now r_messages r_jobs source h =
     (source\<lparr>so_id := newId, so_createdAt := Finite now, so_prompt := so_prompt source @ '' (copy)'',
             so_messages := r_messages, so_jobs := r_jobs, so_pinned := Some False\<rparr>,
      h(r_messages := h (so_messages source), r_jobs := h (so_jobs source)))"

text \<open>The job references a job map holds, and the jobs read through them.\<close>

definition job_refs :: "heap \<Rightarrow> ref \<Rightarrow> (string \<times> ref) list" where
  "job_refs h r = (case h r of Some (JobRefs kvs) \<Rightarrow> kvs | _ \<Rightarrow> [])"

definition read_job :: "heap \<Rightarrow> ref \<Rightarrow> string \<Rightarrow> SessionJob option" where
  "read_job h r jobId =
     (case map_of (job_refs h r) jobId of
        None \<Rightarrow> None
      | Some jr \<Rightarrow> (case h jr of Some (JobObject job) \<Rightarrow> Some job | _ \<Rightarrow> None))"

text \<open>
  Two ways to change a job seen through a session: an assignment to a field of the job
  object, and storing another reference under the key in the session's job map.
\<close>

definition assign_job_field :: "ref \<Rightarrow> (SessionJob \<Rightarrow> SessionJob) \<Rightarrow> heap \<Rightarrow> heap" where
  "assign_job_field jr f h =
     (case h jr of Some (JobObject job) \<Rightarrow> h(jr := Some (JobObject (f job))) | _ \<Rightarrow> h)"

definition assign_job_entry :: "ref \<Rightarrow> string \<Rightarrow> ref \<Rightarrow> heap \<Rightarrow> heap" where
  "assign_job_entry r jobId jr h =
     (case h r of Some (JobRefs kvs) \<Rightarrow> h(r := Some (JobRefs (set_property kvs jobId jr))) | _ \<Rightarrow> h)"

section \<open>Invariants\<close>

text \<open>
  The invariant of the data model: in a session, every key of \<open>jobs\<close> is the identifier of
  the job stored under it.
\<close>

definition jobs_keyed :: "ChatSession \<Rightarrow> bool" where
  "jobs_keyed s = (\<forall>(k, job) \<in> set (s_jobs s). j_id job = k)"

text \<open>
  A read \<open>session.jobs[k]\<close> that stays within the map: it finds an own property, or
  nothing that is truthy on the prototype chain.
\<close>

definition reads_own :: "ChatSession \<Rightarrow> string \<Rightarrow> bool" where
  "reads_own s k = (map_of (s_jobs s) k \<noteq> None \<or> job_at s k = NoValue)"

text \<open>
  The shape of what normalisation returns: every field the code defaults is present and
  not \<open>null\<close>, every message has its attachment list and a string for its model, if any,
  and the job keys are distinct and are the jobs' identifiers (never \<open>__proto__\<close>, which the
  accumulator cannot hold as a key).
\<close>

definition normal_message :: "ChatMessage \<Rightarrow> bool" where
  "normal_message m =
     (m_attachments m \<noteq> None \<and> m_tool m \<noteq> Some JNull
      \<and> (case m_model m of None \<Rightarrow> True | Some (JStr s) \<Rightarrow> True | Some v \<Rightarrow> False))"

definition normal_jobs :: "(string \<times> SessionJob) list \<Rightarrow> bool" where
  "normal_jobs jobs =
     (distinct (map fst jobs)
      \<and> (\<forall>(k, job) \<in> set jobs. j_id job = k \<and> j_tool job \<noteq> JNull \<and> k \<noteq> ''__proto__''))"

definition normal_session :: "ChatSession \<Rightarrow> bool" where
  "normal_session s =
     (s_tool s \<noteq> JNull \<and> s_jobId s \<noteq> Absent \<and> s_pinned s \<noteq> None
      \<and> (\<forall>m \<in> set (s_messages s). normal_message m) \<and> normal_jobs (s_jobs s))"

text \<open>
  A session with the job map of an object literal: normalising a session again rebuilds
  its job map as one.
\<close>

definition plain_jobs :: "ChatSession \<Rightarrow> ChatSession" where
  "plain_jobs s = s\<lparr>s_jobs_prototype := None\<rparr>"

section \<open>The bounded status log\<close>

lemma slice_last_length: "length (slice_last n xs) \<le> n"
  by (simp add: slice_last_def)

lemma slice_last_append:
  "slice_last n (slice_last n xs @ ys) = slice_last n (xs @ ys)"
proof (cases "length xs \<le> n")
  case True
  then show ?thesis by (simp add: slice_last_def)
next
  case False
  then have "length xs + length ys - (length xs - n + n) + (length xs - n)
      = length xs + length ys - n" by arith
  then show ?thesis by (simp add: slice_last_def)
qed

lemma slice_last_short: "length xs \<le> n \<Longrightarrow> slice_last n xs = xs"
  by (simp add: slice_last_def)

lemma appendStatus_length: "length (appendStatus i x ss) = length ss"
  by (simp add: appendStatus_def)

lemma appendStatus_id:
  "k < length ss \<Longrightarrow> s_id (appendStatus i x ss ! k) = s_id (ss ! k)"
  by (simp add: appendStatus_def)

lemma appendStatus_hit:
  "k < length ss \<Longrightarrow> s_id (ss ! k) = i \<Longrightarrow>
   s_statusHistory (appendStatus i x ss ! k)
     = slice_last 50 (s_statusHistory (ss ! k) @ [JStr x])"
  by (simp add: appendStatus_def)

lemma appendStatus_miss:
  "k < length ss \<Longrightarrow> s_id (ss ! k) \<noteq> i \<Longrightarrow> appendStatus i x ss ! k = ss ! k"
  by (simp add: appendStatus_def)

lemma appendStatus_fold_length: "length (fold (appendStatus i) xs ss) = length ss"
  by (induction xs arbitrary: ss) (simp_all add: appendStatus_length)

lemma appendStatus_fold_miss:
  "k < length ss \<Longrightarrow> s_id (ss ! k) \<noteq> i \<Longrightarrow> fold (appendStatus i) xs ss ! k = ss ! k"
proof (induction xs arbitrary: ss)
  case Nil
  then show ?case by simp
next
  case (Cons x xs)
  have "fold (appendStatus i) xs (appendStatus i x ss) ! k = appendStatus i x ss ! k"
    using Cons.prems by (intro Cons.IH) (simp_all add: appendStatus_length appendStatus_id)
  then show ?case using Cons.prems by (simp add: appendStatus_miss)
qed

lemma appendStatus_fold_hit:
  "k < length ss \<Longrightarrow> s_id (ss ! k) = i \<Longrightarrow>
   s_statusHistory (fold (appendStatus i) xs ss ! k)
     = slice_last 50 (slice_last 50 (s_statusHistory (ss ! k)) @ map JStr xs) \<or>
   xs = []"
proof (induction xs arbitrary: ss)
  case Nil
  then show ?case by simp
next
  case (Cons x xs)
  let ?ss = "appendStatus i x ss"
  have k: "k < length ?ss" and h: "s_id (?ss ! k) = i"
    using Cons.prems by (simp_all add: appendStatus_length appendStatus_id)
  have first: "s_statusHistory (?ss ! k) = slice_last 50 (s_statusHistory (ss ! k) @ [JStr x])"
    using Cons.prems by (rule appendStatus_hit)
  show ?case
  proof (cases "xs = []")
    case True
    then show ?thesis using first by (simp add: slice_last_append)
  next
    case False
    with Cons.IH [OF k h] have
      "s_statusHistory (fold (appendStatus i) xs ?ss ! k)
         = slice_last 50 (slice_last 50 (s_statusHistory (?ss ! k)) @ map JStr xs)"
      by simp
    also have "\<dots> = slice_last 50 ((s_statusHistory (ss ! k) @ [JStr x]) @ map JStr xs)"
      by (simp only: first slice_last_append)
    finally show ?thesis by (simp add: slice_last_append)
  qed
qed

text \<open>
  C5. For every session and every sequence \<open>xs\<close> of \<open>appendStatus\<close> calls on it, starting
  from a log of at most 50 entries: the log never holds more than 50 entries, and it is
  exactly the last 50 entries of the old log followed by the appended texts, in the order
  they were appended (the oldest entries are the ones dropped). Sessions with another
  identifier are left as they were.
\<close>

theorem appendStatus_keeps_last_50:
  assumes "k < length ss" and "s_id (ss ! k) = i"
    and "length (s_statusHistory (ss ! k)) \<le> 50"
  shows "length (fold (appendStatus i) xs ss) = length ss
       \<and> length (s_statusHistory (fold (appendStatus i) xs ss ! k)) \<le> 50
       \<and> s_statusHistory (fold (appendStatus i) xs ss ! k)
           = drop (length (s_statusHistory (ss ! k) @ map JStr xs) - 50)
               (s_statusHistory (ss ! k) @ map JStr xs)
       \<and> (\<forall>j < length ss. s_id (ss ! j) \<noteq> i \<longrightarrow> fold (appendStatus i) xs ss ! j = ss ! j)"
proof -
  let ?old = "s_statusHistory (ss ! k)"
  have short: "slice_last 50 ?old = ?old"
    using assms(3) by (rule slice_last_short)
  have eq: "s_statusHistory (fold (appendStatus i) xs ss ! k) = slice_last 50 (?old @ map JStr xs)"
  proof (cases "xs = []")
    case True
    then show ?thesis by (simp add: short)
  next
    case False
    then show ?thesis
      using appendStatus_fold_hit [OF assms(1) assms(2), of xs] by (simp add: short)
  qed
  have bound: "length (s_statusHistory (fold (appendStatus i) xs ss ! k)) \<le> 50"
    unfolding eq by (rule slice_last_length)
  have frame: "\<forall>j < length ss. s_id (ss ! j) \<noteq> i \<longrightarrow> fold (appendStatus i) xs ss ! j = ss ! j"
    by (simp add: appendStatus_fold_miss)
  from eq have "s_statusHistory (fold (appendStatus i) xs ss ! k)
      = drop (length (?old @ map JStr xs) - 50) (?old @ map JStr xs)"
    by (simp only: slice_last_def)
  with bound frame show ?thesis
    by (simp only: appendStatus_fold_length simp_thms)
qed

theorem appendStatus_keeps_last_50_witness:
  "length (s_statusHistory (newSession ''s1'' ''p'' (JStr ''video'') ''m'' 0 [])) \<le> 50
   \<and> s_statusHistory (fold (appendStatus ''s1'') (replicate 51 ''tick'' @ [''done''])
        [newSession ''s1'' ''p'' (JStr ''video'') ''m'' 0 []] ! 0)
     = map JStr (replicate 49 ''tick'' @ [''done''])"
  using appendStatus_keeps_last_50 [of 0 "[newSession ''s1'' ''p'' (JStr ''video'') ''m'' 0 []]"
      "''s1''" "replicate 51 ''tick'' @ [''done'']"]
  by (simp add: newSession_def numeral_eq_Suc)

section \<open>Deleting a session\<close>

text \<open>
  C9. \<open>deleteSession i\<close> removes the sessions whose identifier is \<open>i\<close> and nothing else:
  the remaining sessions are the others, unchanged and in their old order, and when the
  identifiers are distinct and \<open>i\<close> is present exactly one session goes. The active
  pointer is cleared when it referenced \<open>i\<close>; when it referenced another identifier, or
  none, it is left as it was.
\<close>

theorem deleteSession_removes_only_that_session:
  "(\<forall>s. s \<in> set (sessions (deleteSession i st)) \<longleftrightarrow> s \<in> set (sessions st) \<and> s_id s \<noteq> i)
   \<and> sessions (deleteSession i st) = filter (\<lambda>s. s_id s \<noteq> i) (sessions st)
   \<and> (distinct (map s_id (sessions st)) \<and> i \<in> s_id ` set (sessions st)
        \<longrightarrow> Suc (length (sessions (deleteSession i st))) = length (sessions st))
   \<and> (activeSessionId st = Some i \<longrightarrow> activeSessionId (deleteSession i st) = None)
   \<and> (activeSessionId st \<noteq> Some i
        \<longrightarrow> activeSessionId (deleteSession i st) = activeSessionId st)"
proof -
  have one: "distinct (map s_id ss) \<Longrightarrow> i \<in> s_id ` set ss
      \<Longrightarrow> Suc (length (filter (\<lambda>s. s_id s \<noteq> i) ss)) = length ss" for ss
  proof (induction ss)
    case Nil
    then show ?case by simp
  next
    case (Cons a ss)
    show ?case
    proof (cases "s_id a = i")
      case True
      with Cons.prems have "\<forall>s \<in> set ss. s_id s \<noteq> i" by (auto simp: image_iff)
      then have "filter (\<lambda>s. s_id s \<noteq> i) ss = ss" by (simp add: filter_id_conv)
      with True show ?thesis by simp
    next
      case False
      with Cons show ?thesis by auto
    qed
  qed
  show ?thesis by (auto simp: deleteSession_def one)
qed

theorem deleteSession_removes_only_that_session_witness:
  "sessions (deleteSession ''a''
      \<lparr>sessions = [newSession ''b'' ''p'' (JStr ''video'') ''m'' 2 [],
                   newSession ''a'' ''q'' (JStr ''image'') ''m'' 1 []],
       activeSessionId = Some ''a''\<rparr>)
     = [newSession ''b'' ''p'' (JStr ''video'') ''m'' 2 []]
   \<and> activeSessionId (deleteSession ''a''
      \<lparr>sessions = [newSession ''b'' ''p'' (JStr ''video'') ''m'' 2 [],
                   newSession ''a'' ''q'' (JStr ''image'') ''m'' 1 []],
       activeSessionId = Some ''a''\<rparr>) = None
   \<and> activeSessionId (deleteSession ''a''
      \<lparr>sessions = [newSession ''b'' ''p'' (JStr ''video'') ''m'' 2 [],
                   newSession ''a'' ''q'' (JStr ''image'') ''m'' 1 []],
       activeSessionId = Some ''b''\<rparr>) = Some ''b''"
  using deleteSession_removes_only_that_session [of "''a''"
      "\<lparr>sessions = [newSession ''b'' ''p'' (JStr ''video'') ''m'' 2 [],
                    newSession ''a'' ''q'' (JStr ''image'') ''m'' 1 []],
        activeSessionId = Some ''a''\<rparr>"]
    deleteSession_removes_only_that_session [of "''a''"
      "\<lparr>sessions = [newSession ''b'' ''p'' (JStr ''video'') ''m'' 2 [],
                    newSession ''a'' ''q'' (JStr ''image'') ''m'' 1 []],
        activeSessionId = Some ''b''\<rparr>"]
  by (simp add: newSession_def)

section \<open>Numbers and stored values\<close>

lemma Finite_le [simp]: "(Finite m \<le> Finite n) = (m \<le> n)"
  by (simp add: less_eq_number_def)

lemma Finite_less [simp]: "(Finite m < Finite n) = (m < n)"
  by (auto simp: less_number_def less_eq_number_def)

lemma uminus_Finite [simp]: "- Finite n = Finite (- n)"
  by (simp add: uminus_number_def)

lemma uminus_infinite [simp]: "- PosInf = NegInf" "- NegInf = PosInf"
  by (simp_all add: uminus_number_def)

lemma infinite_le [simp]:
  "NegInf \<le> a" "a \<le> PosInf" "(PosInf \<le> a) = (a = PosInf)" "(a \<le> NegInf) = (a = NegInf)"
  by (cases a; simp add: less_eq_number_def)+

lemma uminus_le_number: "(- a \<le> - b) = (b \<le> (a :: number))"
  by (cases a; cases b) simp_all

lemma map_of_stringify:
  "map_of (map (map_prod (\<lambda>k. k) stringify) kvs) k = map_option stringify (map_of kvs k)"
  by (induction kvs) auto

lemma field_stringify: "field (stringify (JObj kvs)) k = map_option stringify (map_of kvs k)"
  by (simp add: map_of_stringify)

lemma stringify_finite: "finite_json v \<Longrightarrow> stringify v = v"
proof (induction v)
  case (JArr xs)
  then show ?case by (simp add: list_all_iff map_idI)
next
  case (JObj kvs)
  have "map (map_prod (\<lambda>k. k) stringify) kvs = map (\<lambda>kv. kv) kvs"
  proof (rule map_cong [OF refl])
    fix kv assume kv: "kv \<in> set kvs"
    obtain k v where p: "kv = (k, v)" by (cases kv)
    have "v \<in> Basic_BNFs.snds kv" using p by simp
    moreover have "finite_json v" using JObj.prems kv p by (auto simp: list_all_iff)
    ultimately have "stringify v = v" using JObj.IH kv by blast
    then show "map_prod (\<lambda>k. k) stringify kv = kv" using p by simp
  qed
  then show ?case by simp
qed simp_all

section \<open>Loading from storage\<close>

lemma normalizeSession_persisted:
  "\<exists>s'. normalizeSession e (session_to_json s) = Inr s' \<and> s_id s' = s_id s
        \<and> s_createdAt s' = (if is_finite (s_createdAt s) then s_createdAt s
                             else Finite (session_now e))"
  by (simp add: normalizeSession_def session_to_json_def session_value_def)

lemma normalizeAll_persisted:
  "\<exists>loaded. normalizeAll envs n (map session_to_json mem) = Inr loaded
      \<and> map s_id loaded = map s_id mem
      \<and> map s_createdAt loaded =
          map (\<lambda>(k, s). if is_finite (s_createdAt s) then s_createdAt s
                         else Finite (session_now (envs k))) (enumerate n mem)"
proof (induction mem arbitrary: n)
  case Nil
  then show ?case by simp
next
  case (Cons s mem)
  obtain s' where s': "normalizeSession (envs n) (session_to_json s) = Inr s'"
      "s_id s' = s_id s"
      "s_createdAt s' = (if is_finite (s_createdAt s) then s_createdAt s
                         else Finite (session_now (envs n)))"
    using normalizeSession_persisted by blast
  obtain loaded where l: "normalizeAll envs (Suc n) (map session_to_json mem) = Inr loaded"
      "map s_id loaded = map s_id mem"
      "map s_createdAt loaded =
         map (\<lambda>(k, s). if is_finite (s_createdAt s) then s_createdAt s
                        else Finite (session_now (envs k))) (enumerate (Suc n) mem)"
    using Cons.IH by blast
  show ?case using s' l by simp
qed

lemma sorted_desc_sort_key:
  "sorted_wrt (\<lambda>a b. s_createdAt b \<le> s_createdAt a) (sort_key (\<lambda>s. - s_createdAt s) ss)"
proof -
  have "sorted (map (\<lambda>s. - s_createdAt s) (sort_key (\<lambda>s. - s_createdAt s) ss))"
    by (rule sorted_sort_key)
  then show ?thesis by (simp add: sorted_map uminus_le_number)
qed

lemma readStorage_sorted:
  "sorted_wrt (\<lambda>a b. s_createdAt b \<le> s_createdAt a) (readStorage envs stored)"
proof (cases stored)
  case (Parsed v)
  then show ?thesis
    by (cases v) (simp_all add: sorted_desc_sort_key split: sum.splits)
qed simp_all

text \<open>
  C10. Whatever storage holds, \<open>readStorage\<close> returns its sessions ordered by creation
  timestamp, newest first; when the stored array normalises to \<open>ss\<close> the result holds
  exactly the sessions of \<open>ss\<close>. A collection \<open>mem\<close> written by the provider always loads
  again, every session keeping its identifier and its timestamp (an infinite timestamp,
  which is written as \<open>null\<close>, becomes the clock reading of the load), so the reloaded
  collection is \<open>mem\<close> reordered by timestamp: an in-memory order that is not newest-first
  (a session put in front by \<open>createSession\<close> or \<open>duplicateSession\<close> with an older
  timestamp) is not the order after a reload.
\<close>

theorem readStorage_sorted_newest_first:
  "sorted_wrt (\<lambda>a b. s_createdAt b \<le> s_createdAt a) (readStorage envs stored)
   \<and> (normalizeAll envs 0 xs = Inr ss \<longrightarrow> mset (readStorage envs (Parsed (JArr xs))) = mset ss)
   \<and> (\<exists>loaded. normalizeAll envs 0 (map session_to_json mem) = Inr loaded
         \<and> map s_id loaded = map s_id mem
         \<and> map s_createdAt loaded =
             map (\<lambda>(k, s). if is_finite (s_createdAt s) then s_createdAt s
                            else Finite (session_now (envs k))) (enumerate 0 mem)
         \<and> readStorage envs (persist mem) = sort_key (\<lambda>s. - s_createdAt s) loaded)
   \<and> (\<not> sorted_wrt (\<lambda>a b. b \<le> a) (map s_createdAt mem)
        \<longrightarrow> map s_createdAt (readStorage envs (persist mem)) \<noteq> map s_createdAt mem)"
proof -
  have a: "sorted_wrt (\<lambda>a b. s_createdAt b \<le> s_createdAt a) (readStorage envs stored)"
    by (rule readStorage_sorted)
  have b: "normalizeAll envs 0 xs = Inr ss \<longrightarrow> mset (readStorage envs (Parsed (JArr xs))) = mset ss"
    by simp
  obtain loaded where l: "normalizeAll envs 0 (map session_to_json mem) = Inr loaded"
      "map s_id loaded = map s_id mem"
      "map s_createdAt loaded =
         map (\<lambda>(k, s). if is_finite (s_createdAt s) then s_createdAt s
                        else Finite (session_now (envs k))) (enumerate 0 mem)"
    using normalizeAll_persisted by blast
  have c: "readStorage envs (persist mem) = sort_key (\<lambda>s. - s_createdAt s) loaded"
    using l(1) by (simp add: persist_def)
  have d: "\<not> sorted_wrt (\<lambda>a b. b \<le> a) (map s_createdAt mem)
        \<longrightarrow> map s_createdAt (readStorage envs (persist mem)) \<noteq> map s_createdAt mem"
  proof (intro impI notI)
    assume ns: "\<not> sorted_wrt (\<lambda>a b. b \<le> a) (map s_createdAt mem)"
      and eq: "map s_createdAt (readStorage envs (persist mem)) = map s_createdAt mem"
    have "sorted_wrt (\<lambda>a b. b \<le> a) (map s_createdAt (readStorage envs (persist mem)))"
      using readStorage_sorted [of envs "persist mem"] by (simp add: sorted_wrt_map)
    with eq ns show False by simp
  qed
  from a b l c d show ?thesis by blast
qed

theorem readStorage_sorted_newest_first_witness:
  "\<forall>envs.
     map s_createdAt (sessions
       (createSession (newSession ''late'' ''q'' (JStr ''video'') ''m'' 50 [])
          \<lparr>sessions = [newSession ''early'' ''p'' (JStr ''video'') ''m'' 100 []],
           activeSessionId = None\<rparr>)) = [Finite 50, Finite 100]
   \<and> \<not> sorted_wrt (\<lambda>a b. b \<le> a) [Finite 50, Finite 100]
   \<and> map s_createdAt (readStorage envs (persist (sessions
       (createSession (newSession ''late'' ''q'' (JStr ''video'') ''m'' 50 [])
          \<lparr>sessions = [newSession ''early'' ''p'' (JStr ''video'') ''m'' 100 []],
           activeSessionId = None\<rparr>)))) \<noteq> [Finite 50, Finite 100]
   \<and> map s_id (readStorage envs (persist (sessions
       (createSession (newSession ''late'' ''q'' (JStr ''video'') ''m'' 50 [])
          \<lparr>sessions = [newSession ''early'' ''p'' (JStr ''video'') ''m'' 100 []],
           activeSessionId = None\<rparr>)))) = [''early'', ''late'']"
  using readStorage_sorted_newest_first [of _ "persist (sessions
       (createSession (newSession ''late'' ''q'' (JStr ''video'') ''m'' 50 [])
          \<lparr>sessions = [newSession ''early'' ''p'' (JStr ''video'') ''m'' 100 []],
           activeSessionId = None\<rparr>))" "[]" "[]" "sessions
       (createSession (newSession ''late'' ''q'' (JStr ''video'') ''m'' 50 [])
          \<lparr>sessions = [newSession ''early'' ''p'' (JStr ''video'') ''m'' 100 []],
           activeSessionId = None\<rparr>)"]
  by (simp add: createSession_def newSession_def persist_def session_to_json_def
      session_value_def normalizeSession_def normalizeJobs_def extract_Nil_code
      extract_Cons_code opt_field_def)

section \<open>Normalisation is idempotent\<close>

lemma map_filter_Some_map:
  "(\<And>x. f (g x) = Some x) \<Longrightarrow> List.map_filter f (map g xs) = xs"
  by (induction xs) (simp_all add: map_filter_simps)

lemma map_filter_enumerate_map:
  "(\<And>k x. F k (g x) = Some x) \<Longrightarrow>
   List.map_filter (\<lambda>(k, y). F k y) (enumerate n (map g xs)) = xs"
  by (induction xs arbitrary: n) (simp_all add: map_filter_simps)

lemma map_of_opt_field:
  "map_of (opt_field k' f v) k = (if k = k' then map_option f v else None)"
  by (cases v) (simp_all add: opt_field_def)

lemma map_of_append_if:
  "map_of (xs @ ys) k = (if map_of xs k = None then map_of ys k else map_of xs k)"
  by (cases "map_of xs k") (simp_all add: map_add_def)

lemma if_None_map_option: "(if v = None then None else map_option f v) = map_option f v"
  by (cases v) simp_all

lemmas lookup_simps = map_of_opt_field map_of_append_if if_None_map_option

lemma normalizeAttachment_value: "normalizeAttachment num (attachment_value a) = Some a"
  by (simp add: normalizeAttachment_def attachment_value_def)

lemma as_string_map_JStr: "as_string (map_option JStr v) = v"
  by (cases v) simp_all

lemma normalizeEntry_value: "normalizeEntry now (entry_value entry) = Some entry"
  by (simp add: normalizeEntry_def entry_value_def lookup_simps as_string_map_JStr
        del: map_of_append)

lemma strings_of_JStr: "strings_of (map JStr urls) = urls"
  unfolding strings_of_def by (rule map_filter_Some_map) simp

lemma urls_round_trip:
  "map_option strings_of (as_array (map_option (\<lambda>urls. JArr (map JStr urls)) v)) = v"
  by (cases v) (simp_all add: strings_of_JStr)

lemma normalizeJobHistory_value:
  "normalizeJobHistory now (Some (JArr (map entry_value es))) = es"
  unfolding normalizeJobHistory_def
  by (simp add: map_filter_enumerate_map [where F = "\<lambda>h. normalizeEntry (now h)"] normalizeEntry_value)

lemma normalizeAttachments_value:
  "normalizeAttachments num (Some (JArr (map attachment_value as))) = as"
  unfolding normalizeAttachments_def
  by (simp add: map_filter_Some_map normalizeAttachment_value)

lemma nullish_or_id: "v \<noteq> JNull \<Longrightarrow> nullish_or (Some v) d = v"
  by (cases v) simp_all

lemma normalizeJob_value:
  "j_tool job \<noteq> JNull \<Longrightarrow> normalizeJob e k key (job_value job) = job"
  by (simp add: normalizeJob_def job_value_def lookup_simps as_string_map_JStr
        normalizeJobHistory_value urls_round_trip nullish_or_id
        del: map_of_append)

lemma status_round_trip:
  "(if map_option status_value v = Some (JStr ''success'') then Some Success
    else if map_option status_value v = Some (JStr ''error'') then Some Error
    else if map_option status_value v = Some (JStr ''info'') then Some Info
    else None) = v"
proof (cases v)
  case None
  then show ?thesis by simp
next
  case (Some st)
  then show ?thesis by (cases st) (simp_all add: status_value_def)
qed

lemma attachments_round_trip:
  "v \<noteq> None \<Longrightarrow>
   Some (normalizeAttachments num (map_option (\<lambda>as. JArr (map attachment_value as)) v)) = v"
  by (cases v) (simp_all add: normalizeAttachments_value)

lemma message_fields:
  "field (message_value m) ''id'' = Some (JStr (m_id m))"
  "field (message_value m) ''role'' = Some (role_value (m_role m))"
  "field (message_value m) ''content'' = Some (JStr (m_content m))"
  "field (message_value m) ''tool'' = m_tool m"
  "field (message_value m) ''model'' = m_model m"
  "field (message_value m) ''attachments''
     = map_option (\<lambda>as. JArr (map attachment_value as)) (m_attachments m)"
  "field (message_value m) ''status'' = map_option status_value (m_status m)"
  "field (message_value m) ''timestamp'' = Some (JNum (m_timestamp m))"
  "field (message_value m) ''videoUrl'' = map_option JStr (m_videoUrl m)"
  "field (message_value m) ''imageUrls''
     = map_option (\<lambda>urls. JArr (map JStr urls)) (m_imageUrls m)"
  "field (message_value m) ''data'' = m_data m"
  "field (message_value m) ''jobId'' = map_option JStr (m_jobId m)"
  by (simp_all add: message_value_def lookup_simps option.map_ident del: map_of_append)

lemma is_object_message: "is_object (message_value m)"
  by (simp add: message_value_def)

lemma m_role_round_trip:
  "(if Some (role_value r) = Some (JStr ''assistant'') then Assistant else User) = r"
  by (cases r) (simp_all add: role_value_def)

lemma m_tool_round_trip:
  "v \<noteq> Some JNull \<Longrightarrow>
   (case v of None \<Rightarrow> None | Some JNull \<Rightarrow> None | Some x \<Rightarrow> Some x) = v"
  by (cases v) (simp_all split: json.splits)

lemma m_model_round_trip:
  "(case v of None \<Rightarrow> True | Some (JStr s) \<Rightarrow> True | Some x \<Rightarrow> False) \<Longrightarrow>
   map_option JStr (as_string v) = v"
  by (cases v) (simp_all split: json.splits)

lemma normalizeMessage_value:
  assumes "normal_message m"
  shows "normalizeMessage uuid now num (message_value m) = Some m"
proof -
  have t: "(case m_tool m of None \<Rightarrow> None | Some JNull \<Rightarrow> None | Some x \<Rightarrow> Some x) = m_tool m"
    using assms by (intro m_tool_round_trip) (simp add: normal_message_def)
  have a: "Some (normalizeAttachments num
      (map_option (\<lambda>as. JArr (map attachment_value as)) (m_attachments m))) = m_attachments m"
    using assms by (intro attachments_round_trip) (simp add: normal_message_def)
  have mo: "map_option JStr (as_string (m_model m)) = m_model m"
    using assms by (intro m_model_round_trip) (simp add: normal_message_def)
  show ?thesis
    unfolding normalizeMessage_def message_fields
    by (simp only: is_object_message t a mo as_string_map_JStr urls_round_trip m_role_round_trip
        status_round_trip as_string.simps as_number.simps option.case)
       simp
qed

lemma set_property_fresh:
  "k \<notin> fst ` set acc \<Longrightarrow> set_property acc k v = acc @ [(k, v)]"
  by (induction acc) auto

lemma map_fst_set_property:
  "map fst (set_property acc k v)
     = (if k \<in> fst ` set acc then map fst acc else map fst acc @ [k])"
  by (induction acc) (auto simp: rev_image_eqI)

lemma set_set_property: "set (set_property acc k v) \<subseteq> insert (k, v) (set acc)"
  by (induction acc) (auto split: if_splits)

lemma is_object_job: "is_object (job_value job)"
  by (simp add: job_value_def)

lemma normalizeJobs_fold_value:
  "distinct (map fst (acc @ jobs)) \<Longrightarrow>
   \<forall>(k, job) \<in> set jobs. j_id job = k \<and> j_tool job \<noteq> JNull \<and> k \<noteq> ''__proto__'' \<Longrightarrow>
   fold (normalizeJobs_step e)
     (enumerate n (map (\<lambda>(k, v). (JStr k, v)) (map (\<lambda>(k, job). (k, job_value job)) jobs)))
     (acc, prototype)
   = (acc @ jobs, prototype)"
proof (induction jobs arbitrary: n acc)
  case Nil
  then show ?case by simp
next
  case (Cons kj jobs)
  obtain k job where kj: "kj = (k, job)" by (cases kj)
  from Cons.prems(2) kj have job: "j_id job = k" "j_tool job \<noteq> JNull" "k \<noteq> ''__proto__''"
    by simp_all
  from Cons.prems(1) kj have fresh: "k \<notin> fst ` set acc" by auto
  have step: "normalizeJobs_step e (n, JStr k, job_value job) (acc, prototype)
      = (acc @ [(k, job)], prototype)"
    using job fresh
    by (simp add: normalizeJobs_step_def is_object_job normalizeJob_value set_property_fresh)
  have "fold (normalizeJobs_step e)
     (enumerate (Suc n) (map (\<lambda>(k, v). (JStr k, v)) (map (\<lambda>(k, job). (k, job_value job)) jobs)))
     (acc @ [(k, job)], prototype) = ((acc @ [(k, job)]) @ jobs, prototype)"
    using Cons.prems kj by (intro Cons.IH) auto
  then show ?case using step kj by simp
qed

lemma normalizeJobs_value:
  "normal_jobs jobs \<Longrightarrow>
   normalizeJobs e (Some (JObj (map (\<lambda>(k, job). (k, job_value job)) jobs))) = (jobs, None)"
  using normalizeJobs_fold_value [of "[]" jobs e 0 None]
  by (simp add: normalizeJobs_def normal_jobs_def)

lemma session_fields:
  "field (session_value s) ''id'' = Some (JStr (s_id s))"
  "field (session_value s) ''prompt'' = Some (JStr (s_prompt s))"
  "field (session_value s) ''tool'' = Some (s_tool s)"
  "field (session_value s) ''model'' = Some (JStr (s_model s))"
  "field (session_value s) ''createdAt'' = Some (JNum (s_createdAt s))"
  "field (session_value s) ''videoUrl''
     = Some (case s_videoUrl s of None \<Rightarrow> JNull | Some url \<Rightarrow> JStr url)"
  "field (session_value s) ''statusHistory'' = Some (JArr (s_statusHistory s))"
  "field (session_value s) ''attachments'' = Some (JArr (s_attachments s))"
  "field (session_value s) ''messages'' = Some (JArr (map message_value (s_messages s)))"
  "field (session_value s) ''jobId''
     = (case s_jobId s of Absent \<Rightarrow> None | Null \<Rightarrow> Some JNull | Value j \<Rightarrow> Some (JStr j))"
  "field (session_value s) ''jobs''
     = Some (JObj (map (\<lambda>(k, job). (k, job_value job)) (s_jobs s)))"
  "field (session_value s) ''pinned'' = map_option JBool (s_pinned s)"
  by (simp_all add: session_value_def lookup_simps del: map_of_append split: nullable.splits)

lemma messages_round_trip:
  "\<forall>m \<in> set ms. normal_message m \<Longrightarrow>
   List.map_filter (\<lambda>(k, message). normalizeMessage (U k) (N k) num message)
     (enumerate n (map message_value ms)) = ms"
  by (induction ms arbitrary: n) (simp_all add: map_filter_simps normalizeMessage_value)

lemma normalizeSession_value:
  assumes "normal_session s"
  shows "normalizeSession e (session_value s) = Inr (plain_jobs s)"
proof -
  have ne: "session_value s \<noteq> JNull" by (simp add: session_value_def)
  from assms have tool: "s_tool s \<noteq> JNull" and jid: "s_jobId s \<noteq> Absent"
    and pin: "s_pinned s \<noteq> None" and ms: "\<forall>m \<in> set (s_messages s). normal_message m"
    and jobs: "normal_jobs (s_jobs s)"
    by (simp_all add: normal_session_def)
  have v: "as_string (Some (case s_videoUrl s of None \<Rightarrow> JNull | Some url \<Rightarrow> JStr url)) = s_videoUrl s"
    by (cases "s_videoUrl s") simp_all
  have j: "(case as_string (case s_jobId s of Absent \<Rightarrow> None | Null \<Rightarrow> Some JNull
              | Value j \<Rightarrow> Some (JStr j)) of Some x \<Rightarrow> Value x | None \<Rightarrow> Null) = s_jobId s"
    using jid by (cases "s_jobId s") simp_all
  have p: "Some (case as_boolean (map_option JBool (s_pinned s)) of Some b \<Rightarrow> b | None \<Rightarrow> False)
      = s_pinned s"
    using pin by (cases "s_pinned s") simp_all
  have i: "(case Some (JStr (s_id s)) of None \<Rightarrow> session_uuid e | Some JNull \<Rightarrow> session_uuid e
      | Some v \<Rightarrow> String_of (js_String e) v) = s_id s"
    by simp
  show ?thesis
    unfolding normalizeSession_def session_fields plain_jobs_def
    by (simp only: ne if_False v j p i)
       (simp add: nullish_or_id [OF tool] messages_round_trip [OF ms] normalizeJobs_value [OF jobs])
qed

lemma nullish_or_not_null: "d \<noteq> JNull \<Longrightarrow> nullish_or v d \<noteq> JNull"
  by (cases "(v, d)" rule: nullish_or.cases) simp_all

lemma normal_jobs_set_property:
  assumes "normal_jobs acc" and "j_id job = k" and "j_tool job \<noteq> JNull" and "k \<noteq> ''__proto__''"
  shows "normal_jobs (set_property acc k job)"
proof -
  have d: "distinct (map fst (set_property acc k job))"
    using assms(1) by (simp add: map_fst_set_property normal_jobs_def)
  have "\<forall>(k', job') \<in> set (set_property acc k job).
          j_id job' = k' \<and> j_tool job' \<noteq> JNull \<and> k' \<noteq> ''__proto__''"
    using assms set_set_property [of acc k job] by (auto simp: normal_jobs_def)
  with d show ?thesis by (simp add: normal_jobs_def)
qed

lemma normal_jobs_step:
  "normal_jobs (fst acc) \<Longrightarrow> normal_jobs (fst (normalizeJobs_step e x acc))"
proof -
  assume acc: "normal_jobs (fst acc)"
  obtain k jobId jobValue where x: "x = (k, jobId, jobValue)" by (cases x)
  obtain own prototype where a: "acc = (own, prototype)" by (cases acc)
  have "j_tool (normalizeJob e k jobId jobValue) \<noteq> JNull"
    by (simp add: normalizeJob_def nullish_or_not_null)
  then show ?thesis
    using acc x a by (simp add: normalizeJobs_step_def normal_jobs_set_property)
qed

lemma normal_jobs_fold:
  "normal_jobs (fst acc) \<Longrightarrow> normal_jobs (fst (fold (normalizeJobs_step e) xs acc))"
  by (induction xs arbitrary: acc) (simp_all add: normal_jobs_step)

lemma normal_jobs_normalizeJobs: "normal_jobs (fst (normalizeJobs e v))"
proof -
  have n: "normal_jobs (fst ([], None :: SessionJob option))" by (simp add: normal_jobs_def)
  show ?thesis
  proof (cases v)
    case None
    then show ?thesis using n by (simp add: normalizeJobs_def)
  next
    case (Some x)
    show ?thesis
    proof (cases "is_object x")
      case True
      then show ?thesis
        using Some normal_jobs_fold [OF n, of e "enumerate 0 (job_entries x)"]
        by (simp add: normalizeJobs_def)
    next
      case False
      then show ?thesis using Some n by (simp add: normalizeJobs_def)
    qed
  qed
qed

lemma normal_message_normalizeMessage:
  assumes "normalizeMessage uuid now num message = Some m"
  shows "normal_message m"
proof -
  have obj: "is_object message"
    using assms by (cases "is_object message") (simp_all add: normalizeMessage_def)
  have "m_attachments (the (normalizeMessage uuid now num message)) \<noteq> None"
    using obj by (simp add: normalizeMessage_def)
  moreover have "m_tool (the (normalizeMessage uuid now num message)) \<noteq> Some JNull"
    using obj by (simp add: normalizeMessage_def split: option.splits json.splits)
  moreover have "m_model (the (normalizeMessage uuid now num message))
      = map_option JStr (as_string (field message ''model''))"
    using obj by (simp add: normalizeMessage_def)
  ultimately show ?thesis
    using assms by (cases "as_string (field message ''model'')") (simp_all add: normal_message_def)
qed

lemma in_set_map_filter:
  "m \<in> set (List.map_filter f xs) \<Longrightarrow> \<exists>x \<in> set xs. f x = Some m"
  by (auto simp: List.map_filter_def)

lemma normal_session_normalizeSession:
  assumes "normalizeSession e x = Inr s"
  shows "normal_session s"
proof -
  from assms have s: "s_tool s = nullish_or (field x ''tool'') (JStr ''video'')"
      "s_jobId s = (case as_string (field x ''jobId'') of Some s \<Rightarrow> Value s | None \<Rightarrow> Null)"
      "s_pinned s = Some (case as_boolean (field x ''pinned'') of Some b \<Rightarrow> b | None \<Rightarrow> False)"
      "s_jobs s = fst (normalizeJobs e (field x ''jobs''))"
      "s_messages s = List.map_filter
             (\<lambda>(k, message). normalizeMessage (message_uuid e k) (message_now e k) (js_Number e) message)
             (enumerate 0 (case as_array (field x ''messages'') of Some xs \<Rightarrow> xs | None \<Rightarrow> []))"
    by (auto simp: normalizeSession_def split: if_splits)
  have m: "\<forall>m \<in> set (s_messages s). normal_message m"
    unfolding s(5) by (auto dest!: in_set_map_filter dest: normal_message_normalizeMessage)
  have j: "s_jobId s \<noteq> Absent" unfolding s(2) by (simp split: option.splits)
  show ?thesis
    unfolding normal_session_def
    using m j by (simp add: s(1,3,4) nullish_or_not_null normal_jobs_normalizeJobs)
qed

lemma normalizeAll_normal:
  "normalizeAll envs n xs = Inr ss \<Longrightarrow> \<forall>s \<in> set ss. normal_session s"
proof (induction xs arbitrary: n ss)
  case Nil
  then show ?case by simp
next
  case (Cons x xs)
  then show ?case
    by (auto split: sum.splits dest: normal_session_normalizeSession)
qed

lemma session_to_json_finite: "finite_session s \<Longrightarrow> session_to_json s = session_value s"
  by (simp add: session_to_json_def finite_session_def stringify_finite)

lemma normalizeAll_to_json:
  "\<forall>s \<in> set ss. normal_session s \<Longrightarrow> list_all finite_session ss \<Longrightarrow>
   normalizeAll envs n (map session_to_json ss) = Inr (map plain_jobs ss)"
  by (induction ss arbitrary: n) (simp_all add: normalizeSession_value session_to_json_finite)

lemma readStorage_normal: "\<forall>s \<in> set (readStorage envs stored). normal_session s"
proof (cases stored)
  case (Parsed v)
  show ?thesis
  proof (cases v)
    case (JArr xs)
    show ?thesis
    proof (cases "normalizeAll envs 0 xs")
      case (Inl err)
      with Parsed JArr show ?thesis by simp
    next
      case (Inr ss)
      with Parsed JArr normalizeAll_normal [OF Inr] show ?thesis by simp
    qed
  qed (simp_all add: Parsed)
qed simp_all

text \<open>
  C4. Normalisation is idempotent on sessions held in memory. When \<open>normalizeSession\<close>
  turns a stored record \<open>x\<close> into the session \<open>s\<close>, normalising \<open>s\<close> again gives \<open>s\<close>, its
  job map rebuilt as an object literal, whatever identifiers and clock values the second
  run is offered. Writing \<open>s\<close> to storage and loading it gives the same when every number
  of \<open>s\<close> is finite. Hence a collection of such sessions that was normalised, written to
  storage and loaded is the same collection, sorted newest first, and a collection that
  was loaded from storage, written back and loaded again is the collection of the first
  load, session by session.
\<close>

theorem normalizeSession_idempotent:
  "(normalizeSession e x = Inr s \<longrightarrow> normalizeSession e' (session_value s) = Inr (plain_jobs s))
   \<and> (normalizeSession e x = Inr s \<and> finite_session s
        \<longrightarrow> normalizeSession e' (session_to_json s) = Inr (plain_jobs s))
   \<and> (normalizeAll envs 0 xs = Inr ss \<and> list_all finite_session ss
        \<longrightarrow> readStorage envs' (persist ss)
             = sort_key (\<lambda>s. - s_createdAt s) (map plain_jobs ss))
   \<and> (list_all finite_session (readStorage envs stored)
        \<longrightarrow> readStorage envs' (persist (readStorage envs stored))
             = map plain_jobs (readStorage envs stored))"
proof -
  have a: "normalizeSession e x = Inr s \<longrightarrow> normalizeSession e' (session_value s) = Inr (plain_jobs s)"
    by (simp add: normal_session_normalizeSession normalizeSession_value)
  have b: "normalizeSession e x = Inr s \<and> finite_session s
        \<longrightarrow> normalizeSession e' (session_to_json s) = Inr (plain_jobs s)"
  proof (intro impI, elim conjE)
    assume n: "normalizeSession e x = Inr s" and f: "finite_session s"
    show "normalizeSession e' (session_to_json s) = Inr (plain_jobs s)"
      using normalizeSession_value [OF normal_session_normalizeSession [OF n], of e']
        session_to_json_finite [OF f]
      by simp
  qed
  have c: "normalizeAll envs 0 xs = Inr ss \<and> list_all finite_session ss
        \<longrightarrow> readStorage envs' (persist ss)
             = sort_key (\<lambda>s. - s_createdAt s) (map plain_jobs ss)"
  proof (intro impI, elim conjE)
    assume n: "normalizeAll envs 0 xs = Inr ss" and f: "list_all finite_session ss"
    show "readStorage envs' (persist ss) = sort_key (\<lambda>s. - s_createdAt s) (map plain_jobs ss)"
      using normalizeAll_to_json [OF normalizeAll_normal [OF n] f, of envs' 0]
      by (simp add: persist_def)
  qed
  let ?ss = "readStorage envs stored"
  have d: "list_all finite_session ?ss
        \<longrightarrow> readStorage envs' (persist ?ss) = map plain_jobs ?ss"
  proof
    assume f: "list_all finite_session ?ss"
    have "sorted (map (\<lambda>s. - s_createdAt s) ?ss)"
      using readStorage_sorted [of envs stored] by (simp add: sorted_map uminus_le_number)
    then have srt: "sorted (map (\<lambda>s. - s_createdAt s) (map plain_jobs ?ss))"
      by (simp add: plain_jobs_def comp_def)
    have "readStorage envs' (persist ?ss) = sort_key (\<lambda>s. - s_createdAt s) (map plain_jobs ?ss)"
      using normalizeAll_to_json [OF readStorage_normal f, of envs' 0] by (simp add: persist_def)
    also have "\<dots> = map plain_jobs ?ss" using srt by (rule sort_key_id_if_sorted)
    finally show "readStorage envs' (persist ?ss) = map plain_jobs ?ss" .
  qed
  from a b c d show ?thesis by (intro conjI)
qed

theorem normalizeSession_idempotent_witness:
  "\<forall>e e'. \<exists>s.
     normalizeSession e
       (JObj [(''id'', JStr ''s1''), (''script'', JStr ''hello''), (''unknown'', JBool True),
              (''jobs'', JArr [JObj [(''id'', JStr ''j1'')]])]) = Inr s
     \<and> s_prompt s = ''hello'' \<and> s_pinned s = Some False \<and> map fst (s_jobs s) = [''j1'']
     \<and> finite_session s
     \<and> normalizeSession e' (session_value s) = Inr (plain_jobs s)
     \<and> normalizeSession e' (session_to_json s) = Inr (plain_jobs s)
     \<and> readStorage (\<lambda>k. e') (persist [s]) = [plain_jobs s]
     \<and> readStorage (\<lambda>k. e') (persist (readStorage (\<lambda>k. e) (Parsed (JArr
          [JObj [(''id'', JStr ''s1''), (''script'', JStr ''hello''), (''unknown'', JBool True),
                 (''jobs'', JArr [JObj [(''id'', JStr ''j1'')]])]])))) = [plain_jobs s]"
proof (intro allI)
  fix e e'
  let ?x = "JObj [(''id'', JStr ''s1''), (''script'', JStr ''hello''), (''unknown'', JBool True),
              (''jobs'', JArr [JObj [(''id'', JStr ''j1'')]])]"
  define s where "s = projr (normalizeSession e ?x)"
  have s: "normalizeSession e ?x = Inr s"
    unfolding s_def by (simp add: normalizeSession_def)
  have p1: "s_prompt s = ''hello''"
    unfolding s_def by (simp add: normalizeSession_def)
  have p2: "s_pinned s = Some False"
    unfolding s_def by (simp add: normalizeSession_def)
  have p3: "map fst (s_jobs s) = [''j1'']"
    unfolding s_def
    by (simp add: normalizeSession_def normalizeJobs_def normalizeJobs_step_def normalizeJob_def
        map_filter_simps)
  have f: "finite_session s"
    unfolding s_def
    by (simp add: finite_session_def session_value_def normalizeSession_def normalizeJobs_def
        normalizeJobs_step_def normalizeJob_def normalizeJobHistory_def job_value_def
        map_filter_simps opt_field_def)
  have all: "normalizeAll (\<lambda>k. e) 0 [?x] = Inr [s]" using s by simp
  have rs: "readStorage (\<lambda>k. e) (Parsed (JArr [?x])) = [s]" using s by simp
  note t = normalizeSession_idempotent [of e ?x s e' "\<lambda>k. e" "[?x]" "[s]" "\<lambda>k. e'"
      "Parsed (JArr [?x])"]
  have r1: "normalizeSession e' (session_value s) = Inr (plain_jobs s)"
    using t s by (simp only: simp_thms)
  have r2: "normalizeSession e' (session_to_json s) = Inr (plain_jobs s)"
    using t s f by (simp only: simp_thms)
  have r3: "readStorage (\<lambda>k. e') (persist [s]) = [plain_jobs s]"
    using t all f by simp
  have r4: "readStorage (\<lambda>k. e') (persist (readStorage (\<lambda>k. e) (Parsed (JArr [?x]))))
      = [plain_jobs s]"
    using t f unfolding rs by simp
  show "\<exists>s. normalizeSession e ?x = Inr s
     \<and> s_prompt s = ''hello'' \<and> s_pinned s = Some False \<and> map fst (s_jobs s) = [''j1'']
     \<and> finite_session s
     \<and> normalizeSession e' (session_value s) = Inr (plain_jobs s)
     \<and> normalizeSession e' (session_to_json s) = Inr (plain_jobs s)
     \<and> readStorage (\<lambda>k. e') (persist [s]) = [plain_jobs s]
     \<and> readStorage (\<lambda>k. e') (persist (readStorage (\<lambda>k. e) (Parsed (JArr [?x]))))
         = [plain_jobs s]"
    by (rule exI [of _ s]) (simp only: s p1 p2 p3 f r1 r2 r3 r4 simp_thms)
qed

text \<open>
  A stored record whose creation timestamp is a literal too large for a double loads as a
  session with an infinite timestamp. That session is written back with \<open>null\<close> for its
  timestamp, and the next load gives it the reading of the clock instead.
\<close>

theorem infinite_timestamp_not_reloaded:
  "\<forall>e e'. \<exists>s s'.
     normalizeSession e (JObj [(''id'', JStr ''s1''), (''createdAt'', JNum PosInf)]) = Inr s
     \<and> s_createdAt s = PosInf
     \<and> field (session_to_json s) ''createdAt'' = Some JNull
     \<and> normalizeSession e' (session_to_json s) = Inr s'
     \<and> s_createdAt s' = Finite (session_now e')
     \<and> s' \<noteq> plain_jobs s"
proof (intro allI)
  fix e e'
  let ?x = "JObj [(''id'', JStr ''s1''), (''createdAt'', JNum PosInf)]"
  define s where "s = projr (normalizeSession e ?x)"
  define s' where "s' = projr (normalizeSession e' (session_to_json s))"
  have s: "normalizeSession e ?x = Inr s"
    unfolding s_def by (simp add: normalizeSession_def)
  have c: "s_createdAt s = PosInf"
    unfolding s_def by (simp add: normalizeSession_def)
  have w: "field (session_to_json s) ''createdAt'' = Some JNull"
    using c by (simp add: session_to_json_def session_value_def)
  have s': "normalizeSession e' (session_to_json s) = Inr s'"
    unfolding s'_def by (simp add: normalizeSession_def session_to_json_def session_value_def)
  have c': "s_createdAt s' = Finite (session_now e')"
    unfolding s'_def using w by (simp add: normalizeSession_def session_to_json_def session_value_def)
  have ne: "s' \<noteq> plain_jobs s"
  proof
    assume "s' = plain_jobs s"
    then have "s_createdAt s' = s_createdAt s" by (simp add: plain_jobs_def)
    with c c' show False by simp
  qed
  show "\<exists>s s'. normalizeSession e ?x = Inr s \<and> s_createdAt s = PosInf
     \<and> field (session_to_json s) ''createdAt'' = Some JNull
     \<and> normalizeSession e' (session_to_json s) = Inr s'
     \<and> s_createdAt s' = Finite (session_now e') \<and> s' \<noteq> plain_jobs s"
    by (rule exI [of _ s], rule exI [of _ s']) (simp only: s c w s' c' ne simp_thms)
qed

section \<open>Giving up after repeated failures\<close>








text \<open>
  On any schedule, a query that fails calls the error callback exactly when the failure
  counter its closure has captured is ten or more.
\<close>

lemma failed_query_callback:
  "callbacks (pl_events (poller_step sessionId jobId (Settle k tk (Failed m)) st))
     = callbacks (pl_events st)
       @ (if k < length (pl_inflight st) \<and> 10 \<le> pl_inflight st ! k
          then [OnError ''Connection lost. Please try again.'' jobId] else [])"
  by (simp add: poller_step_def pollStatus_def callbacks_def)




section \<open>The store under a sequence of calls\<close>

lemma map_of_set_property:
  "map_of (set_property kvs k v) k' = (if k' = k then Some v else map_of kvs k')"
  by (induction kvs) auto

lemma job_at_own: "map_of (s_jobs s) jobId = Some job \<Longrightarrow> job_at s jobId = Job job"
  by (simp add: job_at_def)

lemma job_at_store_job: "job_at (store_job jobId job s) jobId = Job job"
  by (simp add: job_at_def store_job_def map_of_set_property)

lemma appendJobStatus_session_own:
  "map_of (s_jobs s) jobId = Some job \<Longrightarrow>
   appendJobStatus_session jobId entry s = Inr (store_job jobId (appended entry job) s)"
  by (simp add: appendJobStatus_session_def job_at_own)

lemma updateJob_session_own:
  "map_of (s_jobs s) jobId = Some job \<Longrightarrow>
   updateJob_session jobId payload s = Inr (store_job jobId (merge_job job payload) s)"
  by (simp add: updateJob_session_def job_at_own)

lemma store_job_simps [simp]:
  "s_id (store_job jobId job s) = s_id s"
  "map_of (s_jobs (store_job jobId job s)) k = (if k = jobId then Some job else map_of (s_jobs s) k)"
  "s_statusHistory (store_job jobId job s) = s_statusHistory s"
  "s_videoUrl (store_job jobId job s) = s_videoUrl s"
  "s_messages (store_job jobId job s) = s_messages s"
  by (simp_all add: store_job_def map_of_set_property)

lemma map_result_id: "\<forall>y \<in> set ys. f y = Inr y \<Longrightarrow> map_result f ys = Inr ys"
  by (induction ys) simp_all

lemma map_result_focus:
  "\<forall>x \<in> set xs. f x = Inr x \<Longrightarrow> \<forall>y \<in> set ys. f y = Inr y \<Longrightarrow> f s = Inr s' \<Longrightarrow>
   map_result f (xs @ [s] @ ys) = Inr (xs @ [s'] @ ys)"
  by (induction xs) (simp_all add: map_result_id)

lemma map_result_single: "map_result f [s] = Inr [s'] \<Longrightarrow> f s = Inr s'"
  by (cases "f s") simp_all

lemma cond_map_id:
  "\<forall>x \<in> set xs. s_id x \<noteq> i \<Longrightarrow>
   map (\<lambda>session. if s_id session = i then h session else session) xs = xs"
  by (induction xs) simp_all

lemma cond_map_focus:
  "\<forall>x \<in> set xs. s_id x \<noteq> i \<Longrightarrow> \<forall>y \<in> set ys. s_id y \<noteq> i \<Longrightarrow>
   map (\<lambda>session. if s_id session = i then h session else session) (xs @ [s] @ ys)
     = xs @ map (\<lambda>session. if s_id session = i then h session else session) [s] @ ys"
  by (simp add: cond_map_id)

lemma apply_action_focus:
  assumes "targets sid a" and "\<forall>x \<in> set xs. s_id x \<noteq> sid" and "\<forall>y \<in> set ys. s_id y \<noteq> sid"
    and "apply_action a [s] = Inr [s']"
  shows "apply_action a (xs @ [s] @ ys) = Inr (xs @ [s'] @ ys)"
proof (cases a)
  case (AppendStatus i t)
  with assms(1) have i: "i = sid" by simp
  show ?thesis
    using assms(4) unfolding AppendStatus i apply_action.simps appendStatus_def
    by (simp only: cond_map_focus [OF assms(2,3)]) simp
next
  case (UpdateSession i payload)
  with assms(1) have i: "i = sid" by simp
  show ?thesis
    using assms(4) unfolding UpdateSession i apply_action.simps updateSession_def
    by (simp only: cond_map_focus [OF assms(2,3)]) simp
next
  case (AppendJobStatus now i jobId st pr)
  with assms(1) have i: "i = sid" by simp
  let ?f = "\<lambda>session. if s_id session \<noteq> sid then Inr session
                   else appendJobStatus_session jobId
                          \<lparr>e_status = st, e_progress = pr, e_timestamp = Finite now\<rparr> session"
  have "?f s = Inr s'"
    using assms(4) unfolding AppendJobStatus i apply_action.simps appendJobStatus_def
    by (rule map_result_single)
  moreover have "\<forall>x \<in> set xs. ?f x = Inr x" "\<forall>y \<in> set ys. ?f y = Inr y"
    using assms(2,3) by simp_all
  ultimately have "map_result ?f (xs @ [s] @ ys) = Inr (xs @ [s'] @ ys)"
    by (intro map_result_focus)
  then show ?thesis
    unfolding AppendJobStatus i apply_action.simps appendJobStatus_def .
next
  case (UpdateJob i jobId payload)
  with assms(1) have i: "i = sid" by simp
  let ?f = "\<lambda>session. if s_id session \<noteq> sid then Inr session
                   else updateJob_session jobId payload session"
  have "?f s = Inr s'"
    using assms(4) unfolding UpdateJob i apply_action.simps updateJob_def
    by (rule map_result_single)
  moreover have "\<forall>x \<in> set xs. ?f x = Inr x" "\<forall>y \<in> set ys. ?f y = Inr y"
    using assms(2,3) by simp_all
  ultimately have "map_result ?f (xs @ [s] @ ys) = Inr (xs @ [s'] @ ys)"
    by (intro map_result_focus)
  then show ?thesis
    unfolding UpdateJob i apply_action.simps updateJob_def .
next
  case (AppendMessage i m)
  with assms(1) have i: "i = sid" by simp
  show ?thesis
    using assms(4) unfolding AppendMessage i apply_action.simps appendMessage_def
    by (simp only: cond_map_focus [OF assms(2,3)]) simp
next
  case (RegisterJob i job)
  with assms(1) have i: "i = sid" by simp
  show ?thesis
    using assms(4) unfolding RegisterJob i apply_action.simps registerJob_def
    by (simp only: cond_map_focus [OF assms(2,3)]) simp
qed

lemma map_result_single_shape: "map_result f [s] = Inr ss' \<Longrightarrow> \<exists>s'. ss' = [s']"
  by (cases "f s") auto

lemma apply_action_single:
  assumes "apply_action a [s] = Inr ss'"
  shows "\<exists>s'. ss' = [s']"
proof (cases a)
  case (AppendJobStatus now i jobId st pr)
  show ?thesis
    using assms unfolding AppendJobStatus apply_action.simps appendJobStatus_def
    by (rule map_result_single_shape)
next
  case (UpdateJob i jobId payload)
  show ?thesis
    using assms unfolding UpdateJob apply_action.simps updateJob_def
    by (rule map_result_single_shape)
next
  case (AppendStatus i t)
  with assms show ?thesis by (auto simp: appendStatus_def)
next
  case (UpdateSession i payload)
  with assms show ?thesis by (auto simp: updateSession_def)
next
  case (AppendMessage i m)
  with assms show ?thesis by (auto simp: appendMessage_def)
next
  case (RegisterJob i job)
  with assms show ?thesis by (auto simp: registerJob_def)
qed

lemma run_actions_focus:
  "\<forall>a \<in> set acts. targets sid a \<Longrightarrow> \<forall>x \<in> set xs. s_id x \<noteq> sid \<Longrightarrow>
   \<forall>y \<in> set ys. s_id y \<noteq> sid \<Longrightarrow>
   run_actions acts [s] = Inr [s'] \<Longrightarrow>
   run_actions acts (xs @ [s] @ ys) = Inr (xs @ [s'] @ ys)"
proof (induction acts arbitrary: s)
  case Nil
  then show ?case by simp
next
  case (Cons a acts)
  from Cons.prems(4) obtain ss1 where a1: "apply_action a [s] = Inr ss1"
      and rest: "run_actions acts ss1 = Inr [s']"
    by (cases "apply_action a [s]") simp_all
  from apply_action_single [OF a1] obtain s1 where ss1: "ss1 = [s1]" by blast
  have t: "targets sid a" using Cons.prems(1) by simp
  have "apply_action a (xs @ [s] @ ys) = Inr (xs @ [s1] @ ys)"
    using a1 unfolding ss1 by (rule apply_action_focus [OF t Cons.prems(2,3)])
  moreover have "run_actions acts (xs @ [s1] @ ys) = Inr (xs @ [s'] @ ys)"
    using Cons.prems(1,2,3) rest ss1 by (intro Cons.IH) simp_all
  ultimately show ?case by simp
qed

lemma store_calls_append: "store_calls (es @ fs) = store_calls es @ store_calls fs"
  by (induction es rule: store_calls.induct) simp_all

lemma history_calls_append:
  "history_calls sid jid (as @ bs) = history_calls sid jid as @ history_calls sid jid bs"
  by (induction sid jid as rule: history_calls.induct) simp_all

lemma poller_call_targets: "poller_call sid jid a \<Longrightarrow> targets sid a"
  by (cases a) simp_all

text \<open>The calls of a poller, applied to a session that holds the job.\<close>

lemma poller_call_step:
  assumes "poller_call sid jid a" and "s_id s = sid" and "map_of (s_jobs s) jid = Some job"
  shows "\<exists>s' job'. apply_action a [s] = Inr [s'] \<and> s_id s' = sid
           \<and> map_of (s_jobs s') jid = Some job'
           \<and> j_history job' = j_history job @ history_calls sid jid [a]"
proof (cases a)
  case (AppendStatus i t)
  with assms show ?thesis by (simp add: appendStatus_def)
next
  case (UpdateSession i payload)
  with assms show ?thesis by (simp add: updateSession_def merge_session_def or_else_def)
next
  case (AppendJobStatus now i j st pr)
  with assms show ?thesis
    by (simp add: appendJobStatus_def appendJobStatus_session_own appended_def)
next
  case (UpdateJob i j payload)
  with assms show ?thesis
    by (simp add: updateJob_def updateJob_session_own merge_job_def or_else_def)
next
  case (AppendMessage i m)
  with assms show ?thesis by simp
next
  case (RegisterJob i j)
  with assms show ?thesis by simp
qed

lemma poller_calls_run:
  "\<forall>a \<in> set acts. poller_call sid jid a \<Longrightarrow> s_id s = sid \<Longrightarrow>
   map_of (s_jobs s) jid = Some job \<Longrightarrow>
   \<exists>s' job'. run_actions acts [s] = Inr [s'] \<and> s_id s' = sid
      \<and> map_of (s_jobs s') jid = Some job'
      \<and> j_history job' = j_history job @ history_calls sid jid acts"
proof (induction acts arbitrary: s job)
  case Nil
  then show ?case by simp
next
  case (Cons a acts)
  have pa: "poller_call sid jid a" using Cons.prems(1) by simp
  from poller_call_step [OF pa Cons.prems(2,3)]
  obtain s1 job1 where s1: "apply_action a [s] = Inr [s1]" "s_id s1 = sid"
      "map_of (s_jobs s1) jid = Some job1"
      "j_history job1 = j_history job @ history_calls sid jid [a]"
    by blast
  have rest: "\<forall>a \<in> set acts. poller_call sid jid a" using Cons.prems(1) by simp
  from Cons.IH [OF rest s1(2,3)]
  obtain s' job' where s': "run_actions acts [s1] = Inr [s']" "s_id s' = sid"
      "map_of (s_jobs s') jid = Some job'"
      "j_history job' = j_history job1 @ history_calls sid jid acts"
    by blast
  have h: "history_calls sid jid (a # acts)
      = history_calls sid jid [a] @ history_calls sid jid acts"
    using history_calls_append [of sid jid "[a]" acts] by simp
  show ?case using s1 s' h by simp
qed

text \<open>What one settled query asks the store to record.\<close>

lemma pollStatus_history_calls:
  "history_calls sid jid (store_calls (snd (pollStatus sid jid tk res p)))
     = [case res of
          Received data \<Rightarrow> \<lparr>e_status = r_status data, e_progress = Some (r_progress data),
                             e_timestamp = Finite (tk_now tk)\<rparr>
        | Failed message \<Rightarrow> \<lparr>e_status = ''RETRYING'', e_progress = Some message,
                              e_timestamp = Finite (tk_now tk)\<rparr>]"
  by (cases res)
     (simp_all add: pollStatus_def Let_def store_calls_append history_calls_append
        split: option.splits)

lemma pollStatus_poller_calls:
  "\<forall>a \<in> set (store_calls (snd (pollStatus sid jid tk res p))). poller_call sid jid a"
  by (cases res)
     (auto simp: pollStatus_def Let_def store_calls_append status_update_def no_job_fields_def
        no_session_fields_def split: option.splits if_splits)

lemma poller_step_invariant:
  assumes "\<forall>a \<in> set (store_calls (pl_events st)). poller_call sid jid a"
    and "length (history_calls sid jid (store_calls (pl_events st))) + length (pl_inflight st)
           = pl_queries st"
  shows "(\<forall>a \<in> set (store_calls (pl_events (poller_step sid jid x st))). poller_call sid jid a)
     \<and> length (history_calls sid jid (store_calls (pl_events (poller_step sid jid x st))))
         + length (pl_inflight (poller_step sid jid x st))
       = pl_queries (poller_step sid jid x st)"
proof (cases x)
  case Run
  then show ?thesis using assms by (simp add: poller_step_def)
next
  case Tick
  then show ?thesis using assms by (simp add: poller_step_def split: option.splits)
next
  case (Settle k tk res)
  show ?thesis
  proof (cases "k < length (pl_inflight st)")
    case True
    have l: "length (remove_nth k (pl_inflight st)) = length (pl_inflight st) - 1"
      using True by (simp add: remove_nth_def)
    show ?thesis
      using assms True l pollStatus_poller_calls [of sid jid tk res]
      by (auto simp: Settle poller_step_def store_calls_append history_calls_append
          pollStatus_history_calls)
  next
    case False
    then show ?thesis using assms by (simp add: Settle poller_step_def)
  qed
qed

lemma schedule_invariant:
  assumes "\<forall>a \<in> set (store_calls (pl_events st)). poller_call sid jid a"
    and "length (history_calls sid jid (store_calls (pl_events st))) + length (pl_inflight st)
           = pl_queries st"
  shows "(\<forall>a \<in> set (store_calls (pl_events (fold (poller_step sid jid) steps st))).
            poller_call sid jid a)
     \<and> length (history_calls sid jid (store_calls (pl_events (fold (poller_step sid jid) steps st))))
         + length (pl_inflight (fold (poller_step sid jid) steps st))
       = pl_queries (fold (poller_step sid jid) steps st)"
  using assms
proof (induction steps arbitrary: st)
  case Nil
  then show ?case by simp
next
  case (Cons x steps)
  from poller_step_invariant [OF Cons.prems, of x]
  have a: "\<forall>a \<in> set (store_calls (pl_events (poller_step sid jid x st))). poller_call sid jid a"
    and b: "length (history_calls sid jid (store_calls (pl_events (poller_step sid jid x st))))
         + length (pl_inflight (poller_step sid jid x st))
       = pl_queries (poller_step sid jid x st)"
    by simp_all
  from Cons.IH [OF a b] show ?case by simp
qed

section \<open>Recording job statuses\<close>

text \<open>
  \<open>appendJobStatus\<close> has no check against the last entry, and the poller calls it on every
  response, outside the comparison with the last observed key. Two calls with one pair
  leave two equal entries next to each other, and so do two polls that see one status.
\<close>

theorem appendJobStatus_duplicates_counterexample:
  "map_option observed
     (job_after
        (run_actions
           [RegisterJob ''s1''
              \<lparr>j_id = ''j1'', j_tool = JStr ''video'', j_model = ''m'', j_createdAt = Finite 0,
               j_status = ''QUEUED'', j_progress = None, j_history = [], j_videoUrl = None,
               j_imageUrls = None\<rparr>,
            AppendJobStatus 1 ''s1'' ''j1'' ''QUEUED'' (Some ''waiting''),
            AppendJobStatus 2 ''s1'' ''j1'' ''QUEUED'' (Some ''waiting'')]
           [newSession ''s1'' ''p'' (JStr ''video'') ''m'' 0 []])
        ''s1'' ''j1'')
     = Some [(''QUEUED'', Some ''waiting''), (''QUEUED'', Some ''waiting'')]
   \<and> map_option observed
     (job_after
        (run_actions
           (RegisterJob ''s1''
              \<lparr>j_id = ''j1'', j_tool = JStr ''video'', j_model = ''m'', j_createdAt = Finite 0,
               j_status = ''QUEUED'', j_progress = None, j_history = [], j_videoUrl = None,
               j_imageUrls = None\<rparr>
            # events_actions
                (\<lambda>k. \<lparr>h_snapshot = [], h_activeJobModel = None, h_selectedModel = ''m'',
                       h_now = 0, h_message_id = ''x'', h_message_now = 0,
                       h_String = (\<lambda>v. ''value'')\<rparr>)
                (\<lambda>n. ''1'') (Some ''s1'') 0
                (fst (snd (run_poller ''s1'' ''j1''
                   [(\<lparr>tk_now = 1, tk_time = ''12:00'', tk_time2 = ''12:00''\<rparr>,
                     Received \<lparr>r_status = ''QUEUED'', r_progress = ''waiting'',
                               r_video_url = None, r_image_urls = None\<rparr>),
                    (\<lparr>tk_now = 2, tk_time = ''12:05'', tk_time2 = ''12:05''\<rparr>,
                     Received \<lparr>r_status = ''QUEUED'', r_progress = ''waiting'',
                               r_video_url = None, r_image_urls = None\<rparr>)]
                   initial_poller))))
           [newSession ''s1'' ''p'' (JStr ''video'') ''m'' 0 []])
        ''s1'' ''j1'')
     = Some [(''QUEUED'', Some ''waiting''), (''QUEUED'', Some ''waiting'')]"
  by (simp add: observed_def job_after_def getSessionById_def newSession_def registerJob_def
      appendJobStatus_def appendJobStatus_session_def job_at_def store_job_def appended_def
      updateJob_def updateJob_session_def merge_job_def or_else_def status_update_def
      no_job_fields_def appendStatus_def run_poller_def run_schedule_def serial_def
      poller_step_def remove_nth_def pollStatus_def initial_poller_def Let_def slice_last_def)

text \<open>
  C1, as the code has it. On a job that is an own entry of its session's job map,
  \<open>appendJobStatus\<close> appends one entry at every call, whatever the last entry is, and sets
  the job's status and progress. A poller calls it exactly once for every query that
  settles, with the received pair or with \<open>RETRYING\<close> and the error message, whatever the
  last observed key: on any schedule of queries the calls recorded so far and the queries
  still in flight add up to the queries issued, and the poller's own calls make the job's
  history grow by exactly those entries. The callbacks record one more entry:
  \<open>handleJobError\<close> always, \<open>handleJobSuccess\<close> when the payload has a video URL or images.
  What the comparison with the last observed key guards is the session's status log: a
  response adds its line exactly when the key \<open>status-progress\<close> differs from the last
  observed key, a \<open>FAILED\<close> response adds a second line without a check, and so does a
  failed query its \<open>RETRYING\<close> line.
\<close>

theorem polling_appends_every_status:
  assumes "map_of (s_jobs s) jobId = Some job" and "s_id s = sessionId"
    and "\<forall>x \<in> set xs. s_id x \<noteq> sessionId" and "\<forall>y \<in> set ys. s_id y \<noteq> sessionId"
  shows "(\<exists>s' job'.
      appendJobStatus now sessionId jobId st pr (xs @ [s] @ ys) = Inr (xs @ [s'] @ ys)
      \<and> map_of (s_jobs s') jobId = Some job'
      \<and> j_history job'
          = j_history job @ [\<lparr>e_status = st, e_progress = pr, e_timestamp = Finite now\<rparr>]
      \<and> j_status job' = st \<and> j_progress job' = pr)
   \<and> length (history_calls sessionId jobId
               (store_calls (pl_events (run_schedule sessionId jobId steps p))))
       + length (pl_inflight (run_schedule sessionId jobId steps p))
     = pl_queries (run_schedule sessionId jobId steps p)
   \<and> (\<exists>s' job'.
      run_actions (store_calls (pl_events (run_schedule sessionId jobId steps p)))
        (xs @ [s] @ ys) = Inr (xs @ [s'] @ ys)
      \<and> map_of (s_jobs s') jobId = Some job'
      \<and> j_history job'
          = j_history job
            @ history_calls sessionId jobId
                (store_calls (pl_events (run_schedule sessionId jobId steps p))))
   \<and> history_calls sessionId jobId
        (store_calls (snd (pollStatus sessionId jobId tk (Received data) p)))
       = [\<lparr>e_status = r_status data, e_progress = Some (r_progress data),
           e_timestamp = Finite (tk_now tk)\<rparr>]
   \<and> history_calls sessionId jobId
        (store_calls (snd (pollStatus sessionId jobId tk (Failed message) p)))
       = [\<lparr>e_status = ''RETRYING'', e_progress = Some message,
           e_timestamp = Finite (tk_now tk)\<rparr>]
   \<and> log_calls sessionId (store_calls (snd (pollStatus sessionId jobId tk (Received data) p)))
       = (if r_status data @ ''-'' @ r_progress data \<noteq> lastStatusRef p
          then [tk_time tk @ bullet @ readable (r_status data) @ dash @ r_progress data]
          else [])
         @ (if r_status data = ''FAILED''
            then [tk_time2 tk @ bullet @ ''FAILED'' @ dash
                  @ or_default (r_progress data) ''Generation failed'']
            else [])
   \<and> lastStatusRef (fst (pollStatus sessionId jobId tk (Received data) p))
       = r_status data @ ''-'' @ r_progress data
   \<and> log_calls sessionId (store_calls (snd (pollStatus sessionId jobId tk (Failed message) p)))
       = [tk_time tk @ bullet @ ''RETRYING'' @ dash @ message]
   \<and> history_calls sessionId jobId (handleJobError h message (Some sessionId) jobId)
       = (if sessionId = [] \<or> jobId = [] then []
          else [\<lparr>e_status = ''FAILED'', e_progress = Some message,
                 e_timestamp = Finite (h_now h)\<rparr>])
   \<and> history_calls sessionId jobId (handleJobSuccess h digits data (Some sessionId) jobId)
       = (if sessionId = [] \<or> jobId = [] then []
          else if r_video_url data \<noteq> None \<and> r_video_url data \<noteq> Some []
          then [\<lparr>e_status = ''COMPLETED'',
                 e_progress = Some (or_default (r_progress data) ''Video ready''),
                 e_timestamp = Finite (h_now h)\<rparr>]
          else if r_image_urls data \<noteq> None \<and> r_image_urls data \<noteq> Some []
          then [\<lparr>e_status = ''COMPLETED'',
                 e_progress = Some (or_default (r_progress data) ''Images ready''),
                 e_timestamp = Finite (h_now h)\<rparr>]
          else [])"
proof -
  let ?run = "run_schedule sessionId jobId steps p"
  let ?calls = "store_calls (pl_events ?run)"
  have once: "\<exists>s' job'.
      appendJobStatus now sessionId jobId st pr (xs @ [s] @ ys) = Inr (xs @ [s'] @ ys)
      \<and> map_of (s_jobs s') jobId = Some job'
      \<and> j_history job'
          = j_history job @ [\<lparr>e_status = st, e_progress = pr, e_timestamp = Finite now\<rparr>]
      \<and> j_status job' = st \<and> j_progress job' = pr"
  proof -
    let ?entry = "\<lparr>e_status = st, e_progress = pr, e_timestamp = Finite now\<rparr>"
    let ?s' = "store_job jobId (appended ?entry job) s"
    have "apply_action (AppendJobStatus now sessionId jobId st pr) [s] = Inr [?s']"
      using assms(1,2) by (simp add: appendJobStatus_def appendJobStatus_session_own)
    from apply_action_focus [OF _ assms(3,4) this]
    have "appendJobStatus now sessionId jobId st pr (xs @ [s] @ ys) = Inr (xs @ [?s'] @ ys)"
      by simp
    moreover have "map_of (s_jobs ?s') jobId = Some (appended ?entry job)" by simp
    moreover have "j_history (appended ?entry job) = j_history job @ [?entry]"
      "j_status (appended ?entry job) = st" "j_progress (appended ?entry job) = pr"
      by (simp_all add: appended_def)
    ultimately show ?thesis by blast
  qed
  have inv: "(\<forall>a \<in> set ?calls. poller_call sessionId jobId a)
     \<and> length (history_calls sessionId jobId ?calls) + length (pl_inflight ?run) = pl_queries ?run"
    unfolding run_schedule_def by (rule schedule_invariant) simp_all
  then have count: "length (history_calls sessionId jobId ?calls) + length (pl_inflight ?run)
      = pl_queries ?run"
    by simp
  have grow: "\<exists>s' job'.
      run_actions ?calls (xs @ [s] @ ys) = Inr (xs @ [s'] @ ys)
      \<and> map_of (s_jobs s') jobId = Some job'
      \<and> j_history job' = j_history job @ history_calls sessionId jobId ?calls"
  proof -
    have pc: "\<forall>a \<in> set ?calls. poller_call sessionId jobId a" using inv by simp
    from poller_calls_run [OF pc assms(2,1)]
    obtain s' job' where r: "run_actions ?calls [s] = Inr [s']"
        "map_of (s_jobs s') jobId = Some job'"
        "j_history job' = j_history job @ history_calls sessionId jobId ?calls"
      by blast
    have t: "\<forall>a \<in> set ?calls. targets sessionId a"
      using pc by (auto intro: poller_call_targets)
    have "run_actions ?calls (xs @ [s] @ ys) = Inr (xs @ [s'] @ ys)"
      by (rule run_actions_focus [OF t assms(3,4) r(1)])
    with r(2,3) show ?thesis by blast
  qed
  have h1: "history_calls sessionId jobId
        (store_calls (snd (pollStatus sessionId jobId tk (Received data) p)))
       = [\<lparr>e_status = r_status data, e_progress = Some (r_progress data),
           e_timestamp = Finite (tk_now tk)\<rparr>]"
    by (simp add: pollStatus_history_calls)
  have h2: "history_calls sessionId jobId
        (store_calls (snd (pollStatus sessionId jobId tk (Failed message) p)))
       = [\<lparr>e_status = ''RETRYING'', e_progress = Some message,
           e_timestamp = Finite (tk_now tk)\<rparr>]"
    by (simp add: pollStatus_history_calls)
  have l1: "log_calls sessionId (store_calls (snd (pollStatus sessionId jobId tk (Received data) p)))
       = (if r_status data @ ''-'' @ r_progress data \<noteq> lastStatusRef p
          then [tk_time tk @ bullet @ readable (r_status data) @ dash @ r_progress data]
          else [])
         @ (if r_status data = ''FAILED''
            then [tk_time2 tk @ bullet @ ''FAILED'' @ dash
                  @ or_default (r_progress data) ''Generation failed'']
            else [])"
    by (simp add: pollStatus_def Let_def store_calls_append split: option.splits)
  have r1: "lastStatusRef (fst (pollStatus sessionId jobId tk (Received data) p))
       = r_status data @ ''-'' @ r_progress data"
    by (simp add: pollStatus_def Let_def)
  have l2: "log_calls sessionId (store_calls (snd (pollStatus sessionId jobId tk (Failed message) p)))
       = [tk_time tk @ bullet @ ''RETRYING'' @ dash @ message]"
    by (simp add: pollStatus_def)
  have e: "history_calls sessionId jobId (handleJobError h message (Some sessionId) jobId)
       = (if sessionId = [] \<or> jobId = [] then []
          else [\<lparr>e_status = ''FAILED'', e_progress = Some message,
                 e_timestamp = Finite (h_now h)\<rparr>])"
    by (simp add: handleJobError_def)
  have su: "history_calls sessionId jobId (handleJobSuccess h digits data (Some sessionId) jobId)
       = (if sessionId = [] \<or> jobId = [] then []
          else if r_video_url data \<noteq> None \<and> r_video_url data \<noteq> Some []
          then [\<lparr>e_status = ''COMPLETED'',
                 e_progress = Some (or_default (r_progress data) ''Video ready''),
                 e_timestamp = Finite (h_now h)\<rparr>]
          else if r_image_urls data \<noteq> None \<and> r_image_urls data \<noteq> Some []
          then [\<lparr>e_status = ''COMPLETED'',
                 e_progress = Some (or_default (r_progress data) ''Images ready''),
                 e_timestamp = Finite (h_now h)\<rparr>]
          else [])"
    by (cases "r_image_urls data") (auto simp: handleJobSuccess_def)
  from once count grow h1 h2 l1 r1 l2 e su show ?thesis by (intro conjI)
qed

theorem polling_appends_every_status_witness:
  "map_of (s_jobs ((newSession ''s1'' ''p'' (JStr ''video'') ''m'' 0 [])
          \<lparr>s_jobs := [(''j1'',
             \<lparr>j_id = ''j1'', j_tool = JStr ''video'', j_model = ''m'', j_createdAt = Finite 0,
              j_status = ''QUEUED'', j_progress = Some ''waiting'',
              j_history = [\<lparr>e_status = ''QUEUED'', e_progress = Some ''waiting'',
                            e_timestamp = Finite 0\<rparr>],
              j_videoUrl = None, j_imageUrls = None\<rparr>)]\<rparr>)) ''j1'' \<noteq> None
   \<and> s_id (newSession ''s0'' ''q'' (JStr ''video'') ''m'' 0 []) \<noteq> ''s1''
   \<and> (\<exists>s' job'.
        appendJobStatus 5 ''s1'' ''j1'' ''QUEUED'' (Some ''waiting'')
          [newSession ''s0'' ''q'' (JStr ''video'') ''m'' 0 [],
           (newSession ''s1'' ''p'' (JStr ''video'') ''m'' 0 [])
          \<lparr>s_jobs := [(''j1'',
             \<lparr>j_id = ''j1'', j_tool = JStr ''video'', j_model = ''m'', j_createdAt = Finite 0,
              j_status = ''QUEUED'', j_progress = Some ''waiting'',
              j_history = [\<lparr>e_status = ''QUEUED'', e_progress = Some ''waiting'',
                            e_timestamp = Finite 0\<rparr>],
              j_videoUrl = None, j_imageUrls = None\<rparr>)]\<rparr>]
          = Inr [newSession ''s0'' ''q'' (JStr ''video'') ''m'' 0 [], s']
        \<and> map_of (s_jobs s') ''j1'' = Some job'
        \<and> observed job' = [(''QUEUED'', Some ''waiting''), (''QUEUED'', Some ''waiting'')])"
proof -
  let ?other = "newSession ''s0'' ''q'' (JStr ''video'') ''m'' 0 []"
  let ?job = "\<lparr>j_id = ''j1'', j_tool = JStr ''video'', j_model = ''m'', j_createdAt = Finite 0,
              j_status = ''QUEUED'', j_progress = Some ''waiting'',
              j_history = [\<lparr>e_status = ''QUEUED'', e_progress = Some ''waiting'',
                            e_timestamp = Finite 0\<rparr>],
              j_videoUrl = None, j_imageUrls = None\<rparr>"
  let ?s = "(newSession ''s1'' ''p'' (JStr ''video'') ''m'' 0 [])\<lparr>s_jobs := [(''j1'', ?job)]\<rparr>"
  have h1: "map_of (s_jobs ?s) ''j1'' = Some ?job" by simp
  have h2: "s_id ?s = ''s1''" by (simp add: newSession_def)
  have h3: "\<forall>x \<in> set [?other]. s_id x \<noteq> ''s1''" by (simp add: newSession_def)
  have h4: "\<forall>y \<in> set ([] :: ChatSession list). s_id y \<noteq> ''s1''" by simp
  from polling_appends_every_status [OF h1 h2 h3 h4,
      where now = 5 and st = "''QUEUED''" and pr = "Some ''waiting''", THEN conjunct1]
  obtain s' job' where r:
      "appendJobStatus 5 ''s1'' ''j1'' ''QUEUED'' (Some ''waiting'') ([?other] @ [?s] @ [])
         = Inr ([?other] @ [s'] @ [])"
      "map_of (s_jobs s') ''j1'' = Some job'"
      "j_history job' = j_history ?job
         @ [\<lparr>e_status = ''QUEUED'', e_progress = Some ''waiting'', e_timestamp = Finite 5\<rparr>]"
    by blast
  from r(3) have o: "observed job' = [(''QUEUED'', Some ''waiting''), (''QUEUED'', Some ''waiting'')]"
    by (simp add: observed_def)
  from h1 have n: "map_of (s_jobs ?s) ''j1'' \<noteq> None" by simp
  have d: "s_id ?other \<noteq> ''s1''" by (simp add: newSession_def)
  from r(1) have r1: "appendJobStatus 5 ''s1'' ''j1'' ''QUEUED'' (Some ''waiting'') [?other, ?s]
      = Inr [?other, s']"
    by simp
  from r1 r(2) o have "\<exists>s' job'.
        appendJobStatus 5 ''s1'' ''j1'' ''QUEUED'' (Some ''waiting'') [?other, ?s] = Inr [?other, s']
        \<and> map_of (s_jobs s') ''j1'' = Some job'
        \<and> observed job' = [(''QUEUED'', Some ''waiting''), (''QUEUED'', Some ''waiting'')]"
    by blast
  with n d show ?thesis by (simp only: simp_thms)
qed

section \<open>A video job from submission to completion\<close>







section \<open>Job keys and job identifiers\<close>

lemma keyed_set_property:
  "\<forall>(k', job') \<in> set kvs. j_id job' = k' \<Longrightarrow> j_id job = k \<Longrightarrow>
   \<forall>(k', job') \<in> set (set_property kvs k job). j_id job' = k'"
  using set_set_property [of kvs k job] by auto

lemma keyed_lookup:
  "\<forall>(k', job') \<in> set kvs. j_id job' = k' \<Longrightarrow> map_of kvs k = Some job \<Longrightarrow> j_id job = k"
  by (auto dest: map_of_SomeD)

lemma jobs_keyed_store_job:
  assumes "jobs_keyed s" and "j_id job = k"
  shows "jobs_keyed (store_job k job s)"
proof -
  have "\<forall>(k', job') \<in> set (set_property (s_jobs s) k job). j_id job' = k'"
    using assms(1) [unfolded jobs_keyed_def] assms(2) by (rule keyed_set_property)
  then show ?thesis by (simp add: jobs_keyed_def store_job_def)
qed

lemma jobs_keyed_appendJobStatus_session:
  assumes "jobs_keyed s" and "reads_own s jobId"
  shows "\<exists>s'. appendJobStatus_session jobId entry s = Inr s' \<and> jobs_keyed s'"
proof (cases "map_of (s_jobs s) jobId")
  case None
  with assms(2) have "job_at s jobId = NoValue" by (simp add: reads_own_def)
  then have "appendJobStatus_session jobId entry s = Inr s"
    by (simp add: appendJobStatus_session_def)
  with assms(1) show ?thesis by simp
next
  case (Some job)
  have i: "j_id job = jobId"
    using assms(1) [unfolded jobs_keyed_def] Some by (rule keyed_lookup)
  have "j_id (appended entry job) = jobId" using i by (simp add: appended_def)
  from jobs_keyed_store_job [OF assms(1) this] appendJobStatus_session_own [OF Some, of entry]
  show ?thesis by simp
qed

lemma jobs_keyed_updateJob_session:
  assumes "jobs_keyed s" and "reads_own s jobId" and "jp_id payload = None"
  shows "\<exists>s'. updateJob_session jobId payload s = Inr s' \<and> jobs_keyed s'"
proof (cases "map_of (s_jobs s) jobId")
  case None
  with assms(2) have "job_at s jobId = NoValue" by (simp add: reads_own_def)
  then have "updateJob_session jobId payload s = Inr s"
    by (simp add: updateJob_session_def)
  with assms(1) show ?thesis by simp
next
  case (Some job)
  have "j_id job = jobId"
    using assms(1) [unfolded jobs_keyed_def] Some by (rule keyed_lookup)
  then have i: "j_id (merge_job job payload) = jobId"
    using assms(3) by (simp add: merge_job_def or_else_def)
  from jobs_keyed_store_job [OF assms(1) i] updateJob_session_own [OF Some, of payload]
  show ?thesis by simp
qed

lemma map_result_total:
  "list_all (\<lambda>x. \<exists>y. f x = Inr y \<and> Q y) xs \<Longrightarrow>
   \<exists>ys. map_result f xs = Inr ys \<and> list_all Q ys"
proof (induction xs)
  case Nil
  then show ?case by simp
next
  case (Cons x xs)
  from Cons.prems obtain y where y: "f x = Inr y" "Q y" by auto
  from Cons.prems have "list_all (\<lambda>x. \<exists>y. f x = Inr y \<and> Q y) xs" by simp
  from Cons.IH [OF this] obtain ys where ys: "map_result f xs = Inr ys" "list_all Q ys"
    by blast
  show ?case using y ys by simp
qed

lemma jobs_keyed_normalizeSession: "normalizeSession e x = Inr s \<Longrightarrow> jobs_keyed s"
  using normal_session_normalizeSession [of e x s]
  by (auto simp: normal_session_def normal_jobs_def jobs_keyed_def)

lemma jobs_keyed_normalizeAll:
  "normalizeAll envs n xs = Inr ss \<Longrightarrow> list_all jobs_keyed ss"
proof (induction xs arbitrary: n ss)
  case Nil
  then show ?case by simp
next
  case (Cons x xs)
  from Cons.prems obtain s ss' where s: "normalizeSession (envs n) x = Inr s"
      and ss': "normalizeAll envs (Suc n) xs = Inr ss'" and ss: "ss = s # ss'"
    by (cases "normalizeSession (envs n) x"; cases "normalizeAll envs (Suc n) xs") auto
  from jobs_keyed_normalizeSession [OF s] Cons.IH [OF ss'] ss show ?case by simp
qed

lemma jobs_keyed_readStorage: "list_all jobs_keyed (readStorage envs stored)"
proof (cases stored)
  case (Parsed v)
  show ?thesis
  proof (cases v)
    case (JArr xs)
    show ?thesis
    proof (cases "normalizeAll envs 0 xs")
      case (Inl err)
      with Parsed JArr show ?thesis by simp
    next
      case (Inr ss)
      with Parsed JArr jobs_keyed_normalizeAll [OF Inr] show ?thesis
        by (simp add: list_all_iff)
    qed
  qed (simp_all add: Parsed)
qed simp_all

lemma jobs_keyed_createSession:
  assumes "list_all jobs_keyed (sessions st)" and "jobs_keyed session"
  shows "list_all jobs_keyed (sessions (createSession session st))"
proof (cases "List.extract (\<lambda>item. s_id item = s_id session) (sessions st)")
  case None
  with assms show ?thesis by (simp add: createSession_def)
next
  case (Some t)
  obtain before existing after where t: "t = (before, existing, after)" by (cases t)
  from Some t have "sessions st = before @ existing # after"
    by (simp add: extract_Some_iff)
  with assms(1) have "list_all jobs_keyed before" "list_all jobs_keyed after" by simp_all
  with assms(2) Some t show ?thesis
    by (simp add: createSession_def jobs_keyed_def)
qed

text \<open>
  \<open>updateJob\<close> merges whatever the payload carries, and \<open>Partial<SessionJob>\<close> has an \<open>id\<close>
  field: a payload with an identifier leaves a job whose \<open>id\<close> is not the key it is stored
  under. (\<open>createSession\<close> likewise stores the job map it is given as it is.)
\<close>

theorem job_keys_counterexample:
  "map_option jobs_keyed
     (session_after
        (updateJob ''s1'' ''j1'' (no_job_fields\<lparr>jp_id := Some ''j2''\<rparr>)
           (registerJob ''s1''
              \<lparr>j_id = ''j1'', j_tool = JStr ''video'', j_model = ''m'', j_createdAt = Finite 0,
               j_status = ''QUEUED'', j_progress = None, j_history = [], j_videoUrl = None,
               j_imageUrls = None\<rparr>
              (sessions (createSession (newSession ''s1'' ''p'' (JStr ''video'') ''m'' 0 [])
                 \<lparr>sessions = [], activeSessionId = None\<rparr>))))
        ''s1'')
     = Some False"
  by (simp add: session_after_def getSessionById_def createSession_def newSession_def
      registerJob_def updateJob_def updateJob_session_def job_at_def store_job_def merge_job_def
      or_else_def no_job_fields_def jobs_keyed_def extract_Nil_code)

text \<open>
  What the invariant does not cover. A stored job map with a job under \<open>__proto__\<close> loads
  as a map with no own entry and that job as its prototype. A read of the map under the
  name of a job field then finds the field of that job: \<open>updateJob\<close> on \<open>model\<close> stores the
  payload spread over a string, which has no \<open>id\<close>, and \<open>appendJobStatus\<close> on \<open>tool\<close>, when
  the stored tool is an object with a \<open>history\<close>, stores that object with the new status,
  which has no \<open>id\<close> either.
\<close>

lemma prototype_job_reads:
  "\<forall>e. \<exists>s job.
     normalizeSession e
       (JObj [(''id'', JStr ''s1''),
              (''jobs'', JObj [(''__proto__'',
                 JObj [(''tool'', JObj [(''history'', JArr [])]), (''model'', JStr ''m'')])])])
       = Inr s
     \<and> s_jobs s = [] \<and> s_jobs_prototype s = Some job \<and> j_id job = ''__proto__''
     \<and> job_at s ''model'' = FieldValue (JStr ''m'')
     \<and> job_at s ''tool'' = FieldValue (JObj [(''history'', JArr [])])
     \<and> job_at s ''__proto__'' = Job job
     \<and> job_at s ''j1'' = NoValue
     \<and> updateJob_session ''model'' (status_update ''COMPLETED'' ''done'') s
         = Inl (IllTypedJob ''model'')
     \<and> appendJobStatus_session ''tool''
          \<lparr>e_status = ''QUEUED'', e_progress = None, e_timestamp = Finite 0\<rparr> s
         = Inl (IllTypedJob ''tool'')
     \<and> appendJobStatus_session ''model''
          \<lparr>e_status = ''QUEUED'', e_progress = None, e_timestamp = Finite 0\<rparr> s
         = Inl (TypeError ''job.history is not iterable'')"
proof
  fix e :: env
  let ?x = "JObj [(''id'', JStr ''s1''),
              (''jobs'', JObj [(''__proto__'',
                 JObj [(''tool'', JObj [(''history'', JArr [])]), (''model'', JStr ''m'')])])]"
  let ?job = "\<lparr>j_id = ''__proto__'', j_tool = JObj [(''history'', JArr [])], j_model = ''m'',
               j_createdAt = Finite (job_now e 0), j_status = ''QUEUED'', j_progress = None,
               j_history = [], j_videoUrl = None, j_imageUrls = None\<rparr>"
  define s where "s = projr (normalizeSession e ?x)"
  have s: "normalizeSession e ?x = Inr s"
    unfolding s_def by (simp add: normalizeSession_def)
  have jobs: "s_jobs s = []" "s_jobs_prototype s = Some ?job"
    unfolding s_def
    by (simp_all add: normalizeSession_def normalizeJobs_def normalizeJobs_step_def
        normalizeJob_def normalizeJobHistory_def)
  have r1: "job_at s ''model'' = FieldValue (JStr ''m'')"
    and r2: "job_at s ''tool'' = FieldValue (JObj [(''history'', JArr [])])"
    and r3: "job_at s ''__proto__'' = Job ?job"
    and r4: "job_at s ''j1'' = NoValue"
    by (simp_all add: job_at_def jobs job_value_def opt_field_def object_prototype_keys_def)
  have u: "updateJob_session ''model'' (status_update ''COMPLETED'' ''done'') s
         = Inl (IllTypedJob ''model'')"
    by (simp add: updateJob_session_def r1 job_of_spread_def)
  have a1: "appendJobStatus_session ''tool''
          \<lparr>e_status = ''QUEUED'', e_progress = None, e_timestamp = Finite 0\<rparr> s
         = Inl (IllTypedJob ''tool'')"
    by (simp add: appendJobStatus_session_def r2 history_of_object_def job_of_object_def
        job_field_names_def overridden_def optional_field_def no_job_fields_def)
  have a2: "appendJobStatus_session ''model''
          \<lparr>e_status = ''QUEUED'', e_progress = None, e_timestamp = Finite 0\<rparr> s
         = Inl (TypeError ''job.history is not iterable'')"
    by (simp add: appendJobStatus_session_def r1)
  show "\<exists>s job. normalizeSession e ?x = Inr s
     \<and> s_jobs s = [] \<and> s_jobs_prototype s = Some job \<and> j_id job = ''__proto__''
     \<and> job_at s ''model'' = FieldValue (JStr ''m'')
     \<and> job_at s ''tool'' = FieldValue (JObj [(''history'', JArr [])])
     \<and> job_at s ''__proto__'' = Job job
     \<and> job_at s ''j1'' = NoValue
     \<and> updateJob_session ''model'' (status_update ''COMPLETED'' ''done'') s
         = Inl (IllTypedJob ''model'')
     \<and> appendJobStatus_session ''tool''
          \<lparr>e_status = ''QUEUED'', e_progress = None, e_timestamp = Finite 0\<rparr> s
         = Inl (IllTypedJob ''tool'')
     \<and> appendJobStatus_session ''model''
          \<lparr>e_status = ''QUEUED'', e_progress = None, e_timestamp = Finite 0\<rparr> s
         = Inl (TypeError ''job.history is not iterable'')"
    by (rule exI [of _ s], rule exI [of _ ?job]) (simp add: s jobs r1 r2 r3 r4 u a1 a2)
qed

text \<open>
  C8, as the code has it. Normalisation on load returns sessions whose job keys are the
  jobs' identifiers. \<open>registerJob\<close> keeps that invariant. \<open>appendJobStatus\<close> keeps it, and
  \<open>updateJob\<close> keeps it when the payload carries no \<open>id\<close> (the components pass status,
  progress and result fields only), whenever the read \<open>session.jobs[jobId]\<close> of every
  session they update stays within the map: it finds an own entry, or nothing truthy
  behind the map. Then neither of them fails. \<open>createSession\<close> keeps the invariant when
  the session it is given has it (a new session has no jobs).
\<close>

theorem job_keys_preserved:
  "(normalizeSession e x = Inr s \<longrightarrow> jobs_keyed s)
   \<and> list_all jobs_keyed (readStorage envs stored)
   \<and> (list_all jobs_keyed ss \<longrightarrow> list_all jobs_keyed (registerJob sessionId job ss))
   \<and> (list_all jobs_keyed ss \<and> list_all (\<lambda>s. s_id s = sessionId \<longrightarrow> reads_own s jobId) ss
        \<longrightarrow> (\<exists>ss1. appendJobStatus now sessionId jobId status progress ss = Inr ss1
                \<and> list_all jobs_keyed ss1))
   \<and> (list_all jobs_keyed ss \<and> list_all (\<lambda>s. s_id s = sessionId \<longrightarrow> reads_own s jobId) ss
        \<and> jp_id payload = None
        \<longrightarrow> (\<exists>ss2. updateJob sessionId jobId payload ss = Inr ss2 \<and> list_all jobs_keyed ss2))
   \<and> (list_all jobs_keyed (sessions st) \<and> jobs_keyed session
        \<longrightarrow> list_all jobs_keyed (sessions (createSession session st)))"
proof -
  have a: "normalizeSession e x = Inr s \<longrightarrow> jobs_keyed s"
    by (simp add: jobs_keyed_normalizeSession)
  have b: "list_all jobs_keyed ss \<longrightarrow> list_all jobs_keyed (registerJob sessionId job ss)"
  proof
    assume k: "list_all jobs_keyed ss"
    have "jobs_keyed (store_job (j_id job) job s')" if "jobs_keyed s'" for s'
      using that by (rule jobs_keyed_store_job) simp
    then show "list_all jobs_keyed (registerJob sessionId job ss)"
      using k by (auto simp: registerJob_def list_all_iff store_job_def)
  qed
  have c: "list_all jobs_keyed ss \<and> list_all (\<lambda>s. s_id s = sessionId \<longrightarrow> reads_own s jobId) ss
        \<longrightarrow> (\<exists>ss1. appendJobStatus now sessionId jobId status progress ss = Inr ss1
                \<and> list_all jobs_keyed ss1)"
  proof (intro impI, elim conjE)
    assume k: "list_all jobs_keyed ss"
      and o: "list_all (\<lambda>s. s_id s = sessionId \<longrightarrow> reads_own s jobId) ss"
    let ?f = "\<lambda>session. if s_id session \<noteq> sessionId then Inr session
                   else appendJobStatus_session jobId
                          \<lparr>e_status = status, e_progress = progress, e_timestamp = Finite now\<rparr>
                          session"
    have "list_all (\<lambda>x. \<exists>y. ?f x = Inr y \<and> jobs_keyed y) ss"
      using k o by (auto simp: list_all_iff intro: jobs_keyed_appendJobStatus_session)
    from map_result_total [OF this]
    show "\<exists>ss1. appendJobStatus now sessionId jobId status progress ss = Inr ss1
                \<and> list_all jobs_keyed ss1"
      by (simp add: appendJobStatus_def)
  qed
  have d: "list_all jobs_keyed ss \<and> list_all (\<lambda>s. s_id s = sessionId \<longrightarrow> reads_own s jobId) ss
        \<and> jp_id payload = None
        \<longrightarrow> (\<exists>ss2. updateJob sessionId jobId payload ss = Inr ss2 \<and> list_all jobs_keyed ss2)"
  proof (intro impI, elim conjE)
    assume k: "list_all jobs_keyed ss"
      and o: "list_all (\<lambda>s. s_id s = sessionId \<longrightarrow> reads_own s jobId) ss"
      and p: "jp_id payload = None"
    let ?f = "\<lambda>session. if s_id session \<noteq> sessionId then Inr session
                   else updateJob_session jobId payload session"
    have "list_all (\<lambda>x. \<exists>y. ?f x = Inr y \<and> jobs_keyed y) ss"
      using k o by (auto simp: list_all_iff intro: jobs_keyed_updateJob_session [OF _ _ p])
    from map_result_total [OF this]
    show "\<exists>ss2. updateJob sessionId jobId payload ss = Inr ss2 \<and> list_all jobs_keyed ss2"
      by (simp add: updateJob_def)
  qed
  have f: "list_all jobs_keyed (sessions st) \<and> jobs_keyed session
        \<longrightarrow> list_all jobs_keyed (sessions (createSession session st))"
    by (simp add: jobs_keyed_createSession)
  from a jobs_keyed_readStorage [of envs stored] b c d f show ?thesis by (intro conjI)
qed

theorem job_keys_preserved_witness:
  "list_all jobs_keyed
     (registerJob ''s1''
              \<lparr>j_id = ''j1'', j_tool = JStr ''video'', j_model = ''m'', j_createdAt = Finite 0,
               j_status = ''QUEUED'', j_progress = None, j_history = [], j_videoUrl = None,
               j_imageUrls = None\<rparr>
              [newSession ''s1'' ''p'' (JStr ''video'') ''m'' 0 []])
   \<and> jp_id (status_update ''COMPLETED'' ''done'') = None
   \<and> (\<exists>ss2. updateJob ''s1'' ''j1'' (status_update ''COMPLETED'' ''done'')
          (registerJob ''s1''
              \<lparr>j_id = ''j1'', j_tool = JStr ''video'', j_model = ''m'', j_createdAt = Finite 0,
               j_status = ''QUEUED'', j_progress = None, j_history = [], j_videoUrl = None,
               j_imageUrls = None\<rparr>
              [newSession ''s1'' ''p'' (JStr ''video'') ''m'' 0 []]) = Inr ss2
        \<and> list_all jobs_keyed ss2)
   \<and> (\<exists>ss1. appendJobStatus 3 ''s1'' ''j1'' ''QUEUED'' (Some ''waiting'')
          (registerJob ''s1''
              \<lparr>j_id = ''j1'', j_tool = JStr ''video'', j_model = ''m'', j_createdAt = Finite 0,
               j_status = ''QUEUED'', j_progress = None, j_history = [], j_videoUrl = None,
               j_imageUrls = None\<rparr>
              [newSession ''s1'' ''p'' (JStr ''video'') ''m'' 0 []]) = Inr ss1
        \<and> list_all jobs_keyed ss1)"
proof -
  let ?ss = "(registerJob ''s1''
              \<lparr>j_id = ''j1'', j_tool = JStr ''video'', j_model = ''m'', j_createdAt = Finite 0,
               j_status = ''QUEUED'', j_progress = None, j_history = [], j_videoUrl = None,
               j_imageUrls = None\<rparr>
              [newSession ''s1'' ''p'' (JStr ''video'') ''m'' 0 []])"
  have k: "list_all jobs_keyed ?ss"
    by (simp add: registerJob_def newSession_def jobs_keyed_def)
  have o: "list_all (\<lambda>s. s_id s = ''s1'' \<longrightarrow> reads_own s ''j1'') ?ss"
    by (simp add: registerJob_def newSession_def reads_own_def)
  have p: "jp_id (status_update ''COMPLETED'' ''done'') = None"
    by (simp add: status_update_def no_job_fields_def)
  note t = job_keys_preserved [where ss = ?ss and payload = "status_update ''COMPLETED'' ''done''"
      and sessionId = "''s1''" and jobId = "''j1''" and now = 3 and status = "''QUEUED''"
      and progress = "Some ''waiting''"]
  from t k o p
  have u: "\<exists>ss2. updateJob ''s1'' ''j1'' (status_update ''COMPLETED'' ''done'') ?ss = Inr ss2
        \<and> list_all jobs_keyed ss2"
    by (simp only: simp_thms)
  from t k o
  have a: "\<exists>ss1. appendJobStatus 3 ''s1'' ''j1'' ''QUEUED'' (Some ''waiting'') ?ss = Inr ss1
        \<and> list_all jobs_keyed ss1"
    by (simp only: simp_thms)
  from k p u a show ?thesis by (simp only: simp_thms)
qed

section \<open>Submitting a request\<close>

text \<open>
  What \<open>submitToolRequest\<close> does for a model that is neither configured nor the name of
  an inherited member, and for a configured one once the response is in.
\<close>

lemma submitToolRequest_unconfigured:
  assumes "map_of (MODEL_CONFIG (o_tool options)) (o_model options) = None"
    and "o_model options \<notin> set object_prototype_keys"
  shows "submitToolRequest base fetch str digits options
     = ([], Inl (ConfigurationError
                 (''Model '' @ [CHR 0x22] @ o_model options @ [CHR 0x22]
                  @ '' is not configured for '' @ tool_name (o_tool options) @ ''.'')))"
  using assms by (simp add: submitToolRequest_def get_property_def)

lemma MODEL_CONFIG_paths: "map_of (MODEL_CONFIG tool) model = Some path \<Longrightarrow> path \<noteq> []"
  by (cases tool) (auto simp: MODEL_CONFIG_def split: if_splits)

lemma submitToolRequest_configured:
  assumes "map_of (MODEL_CONFIG (o_tool options)) (o_model options) = Some path"
    and "fetch \<lparr>q_base = base, q_endpoint = Path path, q_method = ''POST'',
                 q_body = form_data digits options\<rparr> = Responded res"
  shows "submitToolRequest base fetch str digits options
     = ([\<lparr>q_base = base, q_endpoint = Path path, q_method = ''POST'',
           q_body = form_data digits options\<rparr>],
        if \<not> ok res
        then Inl (RequestError
               (case body res of
                  Some (JObj kvs) \<Rightarrow>
                    (case map_of kvs ''detail'' of
                       Some detail \<Rightarrow> String_of str detail | None \<Rightarrow> ''Request failed'')
                | _ \<Rightarrow> ''Request failed''))
        else Inr \<lparr>t_jobId =
                     (case body res of
                        Some (JObj kvs) \<Rightarrow> map_option (String_of str) (map_of kvs ''job_id'')
                      | _ \<Rightarrow> None),
                   t_data = (case body res of None \<Rightarrow> JNull | Some v \<Rightarrow> v),
                   t_endpoint = Path path\<rparr>)"
  using assms MODEL_CONFIG_paths [OF assms(1)]
  by (simp add: submitToolRequest_def get_property_def string_member_def Let_def
      split: option.splits json.splits)

text \<open>
  C7. The claim asks for a configuration error, and no request, whenever the pair has no
  entry in \<open>MODEL_CONFIG\<close>. The guard tests the value of \<open>MODEL_CONFIG[tool]?.[model]\<close> for
  truthiness, and for a model named like a member of \<open>Object.prototype\<close> that value is the
  member: \<open>constructor\<close> has no entry for the video tool, and yet the request is issued, to
  the address made from that member, and whatever the network answers the result is not
  the configuration error.
\<close>

theorem submitToolRequest_inherited_member:
  "map_of (MODEL_CONFIG Video) ''constructor'' = None
   \<and> fst (submitToolRequest base fetch str digits
        \<lparr>o_tool = Video, o_model = ''constructor'', o_prompt = prompt, o_files = [],
         o_metadata = []\<rparr>)
     = [\<lparr>q_base = base, q_endpoint = Member ''constructor'', q_method = ''POST'',
         q_body = [Field ''prompt'' prompt, Field ''tool'' ''video'',
                   Field ''model'' ''constructor'']\<rparr>]
   \<and> (\<forall>message. snd (submitToolRequest base fetch str digits
        \<lparr>o_tool = Video, o_model = ''constructor'', o_prompt = prompt, o_files = [],
         o_metadata = []\<rparr>) \<noteq> Inl (ConfigurationError message))"
  by (simp add: submitToolRequest_def get_property_def MODEL_CONFIG_def object_prototype_keys_def
      form_data_def tool_name_def Let_def split: fetch_result.splits)

section \<open>Duplicating a session\<close>

lemma find_cond_map:
  "i \<noteq> n \<Longrightarrow> (\<And>s. s_id (f s) = s_id s) \<Longrightarrow>
   find (\<lambda>s. s_id s = i) (map (\<lambda>s. if s_id s = n then f s else s) ss)
     = find (\<lambda>s. s_id s = i) ss"
  by (induction ss) auto

lemma find_map_result:
  assumes "i \<noteq> n" and "\<And>s s'. f s = Inr s' \<Longrightarrow> s_id s' = s_id s"
  shows "map_result (\<lambda>s. if s_id s \<noteq> n then Inr s else f s) ss = Inr ss' \<Longrightarrow>
     find (\<lambda>s. s_id s = i) ss' = find (\<lambda>s. s_id s = i) ss"
proof (induction ss arbitrary: ss')
  case Nil
  then show ?case by simp
next
  case (Cons a ss)
  let ?g = "\<lambda>s. if s_id s \<noteq> n then Inr s else f s"
  from Cons.prems obtain a' rest where a': "?g a = Inr a'"
      and rest: "map_result ?g ss = Inr rest" and ss': "ss' = a' # rest"
    by (cases "?g a"; cases "map_result ?g ss") auto
  have ih: "find (\<lambda>s. s_id s = i) rest = find (\<lambda>s. s_id s = i) ss"
    using rest by (rule Cons.IH)
  show ?case
  proof (cases "s_id a = n")
    case True
    with a' have "f a = Inr a'" by simp
    then have "s_id a' = n" using True assms(2) by simp
    with True assms(1) ih ss' show ?thesis by simp
  next
    case False
    with a' have "a' = a" by simp
    with ih ss' show ?thesis by simp
  qed
qed

lemma s_id_appendJobStatus_session:
  "appendJobStatus_session jobId entry s = Inr s' \<Longrightarrow> s_id s' = s_id s"
  by (cases "job_at s jobId")
     (auto simp: appendJobStatus_session_def store_job_def split: json.splits sum.splits option.splits)

lemma s_id_updateJob_session:
  "updateJob_session jobId payload s = Inr s' \<Longrightarrow> s_id s' = s_id s"
  by (cases "job_at s jobId")
     (auto simp: updateJob_session_def store_job_def split: option.splits)

lemma find_id: "find (\<lambda>s. s_id s = i) ss = Some S \<Longrightarrow> s_id S = i"
  by (induction ss) (auto split: if_splits)

text \<open>
  The spread expressions of \<open>duplicateSession\<close> copy one level: the duplicate gets a new
  job map whose entries are the job objects of the source. In the example the source's map
  (at 4) and the duplicate's (at 7) both hold the reference 5 under \<open>j1\<close>, so an assignment
  to a field of the job reached through the duplicate is read back through the source.
\<close>

theorem duplicateSession_shares_jobs_counterexample:
  "job_refs (snd (duplicate_object ''s2'' 9 6 7
        \<lparr>so_id = ''s1'', so_prompt = ''p'', so_tool = JStr ''video'', so_model = ''m'',
         so_createdAt = Finite 0, so_videoUrl = None, so_statusHistory = 1, so_attachments = 2,
         so_messages = 3, so_jobId = Null, so_jobs = 4, so_pinned = Some True\<rparr>
        [1 \<mapsto> Values [], 2 \<mapsto> Values [], 3 \<mapsto> MessageRefs [],
          4 \<mapsto> JobRefs [(''j1'', 5)],
          5 \<mapsto> JobObject
             \<lparr>j_id = ''j1'', j_tool = JStr ''video'', j_model = ''m'', j_createdAt = Finite 0,
              j_status = ''QUEUED'', j_progress = None, j_history = [], j_videoUrl = None,
              j_imageUrls = None\<rparr>]))
     (so_jobs (fst (duplicate_object ''s2'' 9 6 7
        \<lparr>so_id = ''s1'', so_prompt = ''p'', so_tool = JStr ''video'', so_model = ''m'',
         so_createdAt = Finite 0, so_videoUrl = None, so_statusHistory = 1, so_attachments = 2,
         so_messages = 3, so_jobId = Null, so_jobs = 4, so_pinned = Some True\<rparr>
        [1 \<mapsto> Values [], 2 \<mapsto> Values [], 3 \<mapsto> MessageRefs [],
          4 \<mapsto> JobRefs [(''j1'', 5)],
          5 \<mapsto> JobObject
             \<lparr>j_id = ''j1'', j_tool = JStr ''video'', j_model = ''m'', j_createdAt = Finite 0,
              j_status = ''QUEUED'', j_progress = None, j_history = [], j_videoUrl = None,
              j_imageUrls = None\<rparr>])))
     = [(''j1'', 5)]
   \<and> map_option j_status
       (read_job
          (assign_job_field 5 (j_status_update (\<lambda>st. ''CHANGED''))
             (snd (duplicate_object ''s2'' 9 6 7
        \<lparr>so_id = ''s1'', so_prompt = ''p'', so_tool = JStr ''video'', so_model = ''m'',
         so_createdAt = Finite 0, so_videoUrl = None, so_statusHistory = 1, so_attachments = 2,
         so_messages = 3, so_jobId = Null, so_jobs = 4, so_pinned = Some True\<rparr>
        [1 \<mapsto> Values [], 2 \<mapsto> Values [], 3 \<mapsto> MessageRefs [],
          4 \<mapsto> JobRefs [(''j1'', 5)],
          5 \<mapsto> JobObject
             \<lparr>j_id = ''j1'', j_tool = JStr ''video'', j_model = ''m'', j_createdAt = Finite 0,
              j_status = ''QUEUED'', j_progress = None, j_history = [], j_videoUrl = None,
              j_imageUrls = None\<rparr>])))
          4 ''j1'')
     = Some ''CHANGED''"
  by (simp add: duplicate_object_def job_refs_def read_job_def assign_job_field_def)



text \<open>
  C6, as the code has it. For a session \<open>S\<close> found under \<open>i\<close> and a generated identifier
  other than \<open>i\<close>, \<open>duplicateSession\<close> puts in front of the collection a session with the
  new identifier, the creation time \<open>now\<close>, the prompt of \<open>S\<close> followed by \<open> (copy)\<close>, the
  pinned flag false, and the messages and jobs of \<open>S\<close> (the job map as an object literal);
  it becomes the active session and \<open>S\<close> stays as it was. The copies are one level deep: the duplicate's messages array and
  job map are new objects that hold the message and job objects of \<open>S\<close>. What the store
  does to the duplicate's job map (\<open>registerJob\<close>, \<open>updateJob\<close>, \<open>appendJobStatus\<close>, which
  build new objects) and storing another job under a key of the duplicate's map leave
  \<open>S\<close> and its map unchanged.
\<close>

theorem duplicateSession_copy:
  assumes "getSessionById (sessions st) i = Some S" and "newId \<noteq> i"
  shows "sessions (duplicateSession newId now i st)
       = S\<lparr>s_id := newId, s_createdAt := Finite now, s_prompt := s_prompt S @ '' (copy)'',
           s_jobs_prototype := None, s_pinned := Some False\<rparr> # sessions st
     \<and> activeSessionId (duplicateSession newId now i st) = Some newId
     \<and> s_id (hd (sessions (duplicateSession newId now i st))) \<noteq> s_id S
     \<and> s_messages (hd (sessions (duplicateSession newId now i st))) = s_messages S
     \<and> s_jobs (hd (sessions (duplicateSession newId now i st))) = s_jobs S
     \<and> getSessionById (sessions (duplicateSession newId now i st)) i = Some S
     \<and> getSessionById (registerJob newId job (sessions (duplicateSession newId now i st))) i = Some S
     \<and> (updateJob newId jobId payload (sessions (duplicateSession newId now i st)) = Inr ss1
          \<longrightarrow> getSessionById ss1 i = Some S)
     \<and> (appendJobStatus t newId jobId status progress (sessions (duplicateSession newId now i st)) = Inr ss2
          \<longrightarrow> getSessionById ss2 i = Some S)
     \<and> (h r_jobs = None \<and> h r_messages = None \<and> r_jobs \<noteq> r_messages
        \<and> h (so_jobs source) \<noteq> None \<and> h (so_messages source) \<noteq> None
        \<longrightarrow> so_jobs (fst (duplicate_object newId now r_messages r_jobs source h)) \<noteq> so_jobs source
          \<and> so_messages (fst (duplicate_object newId now r_messages r_jobs source h)) \<noteq> so_messages source
          \<and> job_refs (snd (duplicate_object newId now r_messages r_jobs source h))
                (so_jobs (fst (duplicate_object newId now r_messages r_jobs source h)))
              = job_refs h (so_jobs source)
          \<and> job_refs
                (assign_job_entry (so_jobs (fst (duplicate_object newId now r_messages r_jobs source h))) k jr
                   (snd (duplicate_object newId now r_messages r_jobs source h)))
                (so_jobs source)
              = job_refs h (so_jobs source))"
proof -
  let ?clone = "S\<lparr>s_id := newId, s_createdAt := Finite now, s_prompt := s_prompt S @ '' (copy)'',
           s_jobs_prototype := None, s_pinned := Some False\<rparr>"
  have f: "find (\<lambda>s. s_id s = i) (sessions st) = Some S"
    using assms(1) by (simp add: getSessionById_def)
  have id: "s_id S = i" using f by (rule find_id)
  have ne: "i \<noteq> newId" using assms(2) by simp
  have ss: "sessions (duplicateSession newId now i st) = ?clone # sessions st"
    using f by (simp add: duplicateSession_def)
  have act: "activeSessionId (duplicateSession newId now i st) = Some newId"
    using f by (simp add: duplicateSession_def)
  have found: "getSessionById (?clone # sessions st) i = Some S"
    using f assms(2) by (simp add: getSessionById_def)
  have reg: "getSessionById (registerJob newId job (?clone # sessions st)) i = Some S"
    unfolding getSessionById_def registerJob_def
    using found assms(2) by (subst find_cond_map) (simp_all add: getSessionById_def)
  have upd: "updateJob newId jobId payload (?clone # sessions st) = Inr ss1
          \<longrightarrow> getSessionById ss1 i = Some S"
  proof
    assume a: "updateJob newId jobId payload (?clone # sessions st) = Inr ss1"
    have "find (\<lambda>s. s_id s = i) ss1 = find (\<lambda>s. s_id s = i) (?clone # sessions st)"
    proof (rule find_map_result [where f = "updateJob_session jobId payload" and n = newId])
      show "i \<noteq> newId" by (rule ne)
      show "\<And>s s'. updateJob_session jobId payload s = Inr s' \<Longrightarrow> s_id s' = s_id s"
        by (rule s_id_updateJob_session)
      show "map_result (\<lambda>s. if s_id s \<noteq> newId then Inr s
                else updateJob_session jobId payload s) (?clone # sessions st) = Inr ss1"
        using a unfolding updateJob_def .
    qed
    with found show "getSessionById ss1 i = Some S" by (simp add: getSessionById_def)
  qed
  have app: "appendJobStatus t newId jobId status progress (?clone # sessions st) = Inr ss2
          \<longrightarrow> getSessionById ss2 i = Some S"
  proof
    assume a: "appendJobStatus t newId jobId status progress (?clone # sessions st) = Inr ss2"
    let ?entry = "\<lparr>e_status = status, e_progress = progress, e_timestamp = Finite t\<rparr>"
    have "find (\<lambda>s. s_id s = i) ss2 = find (\<lambda>s. s_id s = i) (?clone # sessions st)"
    proof (rule find_map_result [where f = "appendJobStatus_session jobId ?entry" and n = newId])
      show "i \<noteq> newId" by (rule ne)
      show "\<And>s s'. appendJobStatus_session jobId ?entry s = Inr s' \<Longrightarrow> s_id s' = s_id s"
        by (rule s_id_appendJobStatus_session)
      show "map_result (\<lambda>s. if s_id s \<noteq> newId then Inr s
                else appendJobStatus_session jobId ?entry s) (?clone # sessions st) = Inr ss2"
        using a unfolding appendJobStatus_def .
    qed
    with found show "getSessionById ss2 i = Some S" by (simp add: getSessionById_def)
  qed
  have obj: "(h r_jobs = None \<and> h r_messages = None \<and> r_jobs \<noteq> r_messages
        \<and> h (so_jobs source) \<noteq> None \<and> h (so_messages source) \<noteq> None
        \<longrightarrow> so_jobs (fst (duplicate_object newId now r_messages r_jobs source h)) \<noteq> so_jobs source
          \<and> so_messages (fst (duplicate_object newId now r_messages r_jobs source h)) \<noteq> so_messages source
          \<and> job_refs (snd (duplicate_object newId now r_messages r_jobs source h))
                (so_jobs (fst (duplicate_object newId now r_messages r_jobs source h)))
              = job_refs h (so_jobs source)
          \<and> job_refs
                (assign_job_entry (so_jobs (fst (duplicate_object newId now r_messages r_jobs source h))) k jr
                   (snd (duplicate_object newId now r_messages r_jobs source h)))
                (so_jobs source)
              = job_refs h (so_jobs source))"
    by (auto simp: duplicate_object_def job_refs_def assign_job_entry_def split: option.splits cell.splits)
  from ss act found reg upd app obj id assms(2) show ?thesis
    by (simp only: ss list.sel simp_thms) simp
qed

theorem duplicateSession_copy_witness:
  "getSessionById (sessions \<lparr>sessions = [((newSession ''s1'' ''p'' (JStr ''video'') ''m'' 0 [])
            \<lparr>s_jobs := [(''j1'', \<lparr>j_id = ''j1'', j_tool = JStr ''video'', j_model = ''m'', j_createdAt = Finite 0,
              j_status = ''QUEUED'', j_progress = None, j_history = [], j_videoUrl = None,
              j_imageUrls = None\<rparr>)],
             s_pinned := Some True\<rparr>)],
          activeSessionId = None\<rparr>) ''s1'' \<noteq> None
   \<and> ''s2'' \<noteq> ''s1''
   \<and> map s_id (sessions (duplicateSession ''s2'' 9 ''s1''
        \<lparr>sessions = [((newSession ''s1'' ''p'' (JStr ''video'') ''m'' 0 [])
            \<lparr>s_jobs := [(''j1'', \<lparr>j_id = ''j1'', j_tool = JStr ''video'', j_model = ''m'', j_createdAt = Finite 0,
              j_status = ''QUEUED'', j_progress = None, j_history = [], j_videoUrl = None,
              j_imageUrls = None\<rparr>)],
             s_pinned := Some True\<rparr>)],
          activeSessionId = None\<rparr>)) = [''s2'', ''s1'']
   \<and> map s_pinned (sessions (duplicateSession ''s2'' 9 ''s1''
        \<lparr>sessions = [((newSession ''s1'' ''p'' (JStr ''video'') ''m'' 0 [])
            \<lparr>s_jobs := [(''j1'', \<lparr>j_id = ''j1'', j_tool = JStr ''video'', j_model = ''m'', j_createdAt = Finite 0,
              j_status = ''QUEUED'', j_progress = None, j_history = [], j_videoUrl = None,
              j_imageUrls = None\<rparr>)],
             s_pinned := Some True\<rparr>)],
          activeSessionId = None\<rparr>)) = [Some False, Some True]
   \<and> map s_prompt (sessions (duplicateSession ''s2'' 9 ''s1''
        \<lparr>sessions = [((newSession ''s1'' ''p'' (JStr ''video'') ''m'' 0 [])
            \<lparr>s_jobs := [(''j1'', \<lparr>j_id = ''j1'', j_tool = JStr ''video'', j_model = ''m'', j_createdAt = Finite 0,
              j_status = ''QUEUED'', j_progress = None, j_history = [], j_videoUrl = None,
              j_imageUrls = None\<rparr>)],
             s_pinned := Some True\<rparr>)],
          activeSessionId = None\<rparr>)) = [''p (copy)'', ''p'']
   \<and> activeSessionId (duplicateSession ''s2'' 9 ''s1''
        \<lparr>sessions = [((newSession ''s1'' ''p'' (JStr ''video'') ''m'' 0 [])
            \<lparr>s_jobs := [(''j1'', \<lparr>j_id = ''j1'', j_tool = JStr ''video'', j_model = ''m'', j_createdAt = Finite 0,
              j_status = ''QUEUED'', j_progress = None, j_history = [], j_videoUrl = None,
              j_imageUrls = None\<rparr>)],
             s_pinned := Some True\<rparr>)],
          activeSessionId = None\<rparr>) = Some ''s2''
   \<and> so_jobs (fst (duplicate_object ''s2'' 9 6 7
        \<lparr>so_id = ''s1'', so_prompt = ''p'', so_tool = JStr ''video'', so_model = ''m'',
         so_createdAt = Finite 0, so_videoUrl = None, so_statusHistory = 1, so_attachments = 2,
         so_messages = 3, so_jobId = Null, so_jobs = 4, so_pinned = Some True\<rparr>
        [1 \<mapsto> Values [], 2 \<mapsto> Values [], 3 \<mapsto> MessageRefs [],
          4 \<mapsto> JobRefs [(''j1'', 5)],
          5 \<mapsto> JobObject
             \<lparr>j_id = ''j1'', j_tool = JStr ''video'', j_model = ''m'', j_createdAt = Finite 0,
              j_status = ''QUEUED'', j_progress = None, j_history = [], j_videoUrl = None,
              j_imageUrls = None\<rparr>])) \<noteq> 4"
proof -
  let ?S = "((newSession ''s1'' ''p'' (JStr ''video'') ''m'' 0 [])
            \<lparr>s_jobs := [(''j1'', \<lparr>j_id = ''j1'', j_tool = JStr ''video'', j_model = ''m'', j_createdAt = Finite 0,
              j_status = ''QUEUED'', j_progress = None, j_history = [], j_videoUrl = None,
              j_imageUrls = None\<rparr>)],
             s_pinned := Some True\<rparr>)"
  let ?st = "\<lparr>sessions = [((newSession ''s1'' ''p'' (JStr ''video'') ''m'' 0 [])
            \<lparr>s_jobs := [(''j1'', \<lparr>j_id = ''j1'', j_tool = JStr ''video'', j_model = ''m'', j_createdAt = Finite 0,
              j_status = ''QUEUED'', j_progress = None, j_history = [], j_videoUrl = None,
              j_imageUrls = None\<rparr>)],
             s_pinned := Some True\<rparr>)],
          activeSessionId = None\<rparr>"
  have h1: "getSessionById (sessions ?st) ''s1'' = Some ?S"
    by (simp add: getSessionById_def newSession_def)
  have h2: "''s2'' \<noteq> ''s1''" by simp
  note t = duplicateSession_copy [OF h1 h2, where now = 9 and r_messages = 6 and r_jobs = 7
      and source = "\<lparr>so_id = ''s1'', so_prompt = ''p'', so_tool = JStr ''video'', so_model = ''m'',
         so_createdAt = Finite 0, so_videoUrl = None, so_statusHistory = 1, so_attachments = 2,
         so_messages = 3, so_jobId = Null, so_jobs = 4, so_pinned = Some True\<rparr>"
      and h = "[1 \<mapsto> Values [], 2 \<mapsto> Values [], 3 \<mapsto> MessageRefs [],
          4 \<mapsto> JobRefs [(''j1'', 5)],
          5 \<mapsto> JobObject
             \<lparr>j_id = ''j1'', j_tool = JStr ''video'', j_model = ''m'', j_createdAt = Finite 0,
              j_status = ''QUEUED'', j_progress = None, j_history = [], j_videoUrl = None,
              j_imageUrls = None\<rparr>]"]
  from t have a: "sessions (duplicateSession ''s2'' 9 ''s1'' ?st)
       = ?S\<lparr>s_id := ''s2'', s_createdAt := Finite 9, s_prompt := s_prompt ?S @ '' (copy)'',
            s_jobs_prototype := None, s_pinned := Some False\<rparr> # sessions ?st"
    by (rule conjunct1)
  from t have b: "activeSessionId (duplicateSession ''s2'' 9 ''s1'' ?st) = Some ''s2''"
    by (simp only: simp_thms)
  from t have c: "so_jobs (fst (duplicate_object ''s2'' 9 6 7
        \<lparr>so_id = ''s1'', so_prompt = ''p'', so_tool = JStr ''video'', so_model = ''m'',
         so_createdAt = Finite 0, so_videoUrl = None, so_statusHistory = 1, so_attachments = 2,
         so_messages = 3, so_jobId = Null, so_jobs = 4, so_pinned = Some True\<rparr>
        [1 \<mapsto> Values [], 2 \<mapsto> Values [], 3 \<mapsto> MessageRefs [],
          4 \<mapsto> JobRefs [(''j1'', 5)],
          5 \<mapsto> JobObject
             \<lparr>j_id = ''j1'', j_tool = JStr ''video'', j_model = ''m'', j_createdAt = Finite 0,
              j_status = ''QUEUED'', j_progress = None, j_history = [], j_videoUrl = None,
              j_imageUrls = None\<rparr>])) \<noteq> so_jobs \<lparr>so_id = ''s1'', so_prompt = ''p'', so_tool = JStr ''video'', so_model = ''m'',
         so_createdAt = Finite 0, so_videoUrl = None, so_statusHistory = 1, so_attachments = 2,
         so_messages = 3, so_jobId = Null, so_jobs = 4, so_pinned = Some True\<rparr>"
    by simp
  from h1 have n: "getSessionById (sessions ?st) ''s1'' \<noteq> None" by simp
  show ?thesis
    unfolding a using n b c by (simp add: newSession_def)
qed

end
